theory Spec2Isabelle
  imports Complex_Main "HOL-Library.Multiset"
begin

text \<open>
  A model of \<open>qam/margin.py\<close>: the surface distances between two binary segmentation masks
  (\<open>compute_bounding_box\<close>, \<open>crop_mask\<close>, \<open>compute_distances\<close>) and their summary
  (\<open>summarize_surface_dists\<close>).  The numpy and scipy functions the code calls are modelled
  after their documentation, in exact arithmetic on the reals.
\<close>

section \<open>Values shared by the whole pipeline\<close>

text \<open>
  The exceptions the code can raise.  \<open>ValueError\<close> is what numpy raises for a reduction
  over a zero-size array and for an assignment whose shapes do not fit, \<open>IndexError\<close> for
  a boolean index of the wrong shape, \<open>KeyError\<close> for a missing dictionary key, and
  \<open>UnboundLocalError\<close> is Python's error for reading a local variable that no executed
  statement has assigned.
\<close>

datatype error = ValueError | KeyError | IndexError | UnboundLocalError

text \<open>
  An element of a float64 array: a finite number (taken as an exact real, rounding is not
  modelled), one of the two infinities, or not-a-number.
\<close>

datatype npfloat = Fin real | PInf | NInf | NaN

text \<open>The IEEE comparisons: every comparison with \<open>NaN\<close> is false.\<close>

fun fl_lt :: "npfloat \<Rightarrow> npfloat \<Rightarrow> bool" where
  "fl_lt (Fin a) (Fin b) = (a < b)"
| "fl_lt (Fin a) PInf = True"
| "fl_lt NInf (Fin b) = True"
| "fl_lt NInf PInf = True"
| "fl_lt _ _ = False"

fun fl_le :: "npfloat \<Rightarrow> npfloat \<Rightarrow> bool" where
  "fl_le NaN _ = False"
| "fl_le _ NaN = False"
| "fl_le a b = (\<not> fl_lt b a)"

definition fl_ge :: "npfloat \<Rightarrow> npfloat \<Rightarrow> bool" where
  "fl_ge a b = fl_le b a"

text \<open>IEEE addition, subtraction and multiplication on these values.\<close>

fun fl_neg :: "npfloat \<Rightarrow> npfloat" where
  "fl_neg (Fin a) = Fin (- a)"
| "fl_neg PInf = NInf"
| "fl_neg NInf = PInf"
| "fl_neg NaN = NaN"

fun fl_add :: "npfloat \<Rightarrow> npfloat \<Rightarrow> npfloat" where
  "fl_add NaN _ = NaN"
| "fl_add _ NaN = NaN"
| "fl_add (Fin a) (Fin b) = Fin (a + b)"
| "fl_add PInf NInf = NaN"
| "fl_add NInf PInf = NaN"
| "fl_add PInf _ = PInf"
| "fl_add _ PInf = PInf"
| "fl_add NInf _ = NInf"
| "fl_add _ NInf = NInf"

definition fl_sub :: "npfloat \<Rightarrow> npfloat \<Rightarrow> npfloat" where
  "fl_sub a b = fl_add a (fl_neg b)"

fun fl_scale :: "npfloat \<Rightarrow> real \<Rightarrow> npfloat" where
  "fl_scale (Fin a) t = Fin (a * t)"
| "fl_scale NaN t = NaN"
| "fl_scale PInf t = (if t = 0 then NaN else if 0 < t then PInf else NInf)"
| "fl_scale NInf t = (if t = 0 then NaN else if 0 < t then NInf else PInf)"


section \<open>The Summarizer: \<open>summarize_surface_dists\<close>\<close>

text \<open>
  The numpy reductions the summarizer calls, after numpy's documentation and in exact
  arithmetic.  All of them drop the \<open>NaN\<close> entries first and give \<open>NaN\<close> when nothing is
  left; \<open>np.nanmin\<close> and \<open>np.nanmax\<close> raise \<open>ValueError\<close> on a zero-size array.
\<close>

definition drop_nan :: "npfloat list \<Rightarrow> npfloat list" where
  "drop_nan ds = filter (\<lambda>d. d \<noteq> NaN) ds"

fun insort_fl :: "npfloat \<Rightarrow> npfloat list \<Rightarrow> npfloat list" where
  "insort_fl x [] = [x]"
| "insort_fl x (y # ys) = (if fl_le x y then x # y # ys else y # insort_fl x ys)"

definition sort_fl :: "npfloat list \<Rightarrow> npfloat list" where
  "sort_fl ds = foldr insort_fl ds []"

definition nanmin :: "npfloat list \<Rightarrow> error + npfloat" where
  "nanmin ds =
     (if ds = [] then Inl ValueError
      else case sort_fl (drop_nan ds) of [] \<Rightarrow> Inr NaN | v # vs \<Rightarrow> Inr v)"

definition nanmax :: "npfloat list \<Rightarrow> error + npfloat" where
  "nanmax ds =
     (if ds = [] then Inl ValueError
      else case rev (sort_fl (drop_nan ds)) of [] \<Rightarrow> Inr NaN | v # vs \<Rightarrow> Inr v)"

definition lerp :: "npfloat \<Rightarrow> npfloat \<Rightarrow> real \<Rightarrow> npfloat" where
  "lerp a b t = fl_add a (fl_scale (fl_sub b a) t)"

definition nanquantile :: "npfloat list \<Rightarrow> real \<Rightarrow> npfloat" where
  "nanquantile ds q =
     (let vs = sort_fl (drop_nan ds); n = length vs
      in if n = 0 then NaN
         else let h = q * real (n - 1);
                  lo = nat \<lfloor>h\<rfloor>;
                  hi = min (lo + 1) (n - 1)
              in lerp (vs ! lo) (vs ! hi) (h - real lo))"

definition nanmedian :: "npfloat list \<Rightarrow> npfloat" where
  "nanmedian ds =
     (let vs = sort_fl (drop_nan ds); n = length vs
      in if n = 0 then NaN
         else if odd n then vs ! (n div 2)
         else fl_scale (fl_add (vs ! (n div 2 - 1)) (vs ! (n div 2))) (1 / 2))"

text \<open>\<open>np.sum(mask)\<close> of a boolean array built by an element-wise comparison.\<close>

definition count_where :: "('a \<Rightarrow> bool) \<Rightarrow> 'a list \<Rightarrow> nat" where
  "count_where P xs = length (filter P xs)"

text \<open>The one row of the returned table.\<close>

record ('p, 'l) coverage_data =
  Patient :: 'p
  Lesion :: 'l
  nr_voxels :: nat
  min_distance :: npfloat
  q25_distance :: npfloat
  median_distance :: npfloat
  q75_distance :: npfloat
  max_distance :: npfloat
  x_less_than_0mm :: real
  x_equal_greater_than_0m :: real
  x_equal_greater_than_5m :: real

text \<open>
  \<open>surface_distance\<close> is a dictionary; the summarizer looks up one key.  The three
  fractions are quotients of a count by \<open>len(distances)\<close>, which is positive once
  \<open>np.nanmin\<close> has returned.
\<close>

definition summarize_surface_dists ::
  "'p \<Rightarrow> 'l \<Rightarrow> (string \<rightharpoonup> npfloat list) \<Rightarrow> error + ('p, 'l) coverage_data" where
  "summarize_surface_dists patient_id lesion_id surface_distance =
     (case surface_distance ''distances_gt_to_pred'' of
        None \<Rightarrow> Inl KeyError
      | Some distances \<Rightarrow>
          (let nr = length distances
           in case nanmin distances of
                Inl e \<Rightarrow> Inl e
              | Inr min_d \<Rightarrow>
                  (let q25 = nanquantile distances (1 / 4);
                       med = nanmedian distances;
                       q75 = nanquantile distances (3 / 4)
                   in case nanmax distances of
                        Inl e \<Rightarrow> Inl e
                      | Inr max_d \<Rightarrow>
                          (let non_ablated =
                                 real (count_where (\<lambda>d. fl_lt d (Fin 0)) distances) / real nr;
                               insuffiecient_ablated =
                                 real (count_where (\<lambda>d. fl_lt d (Fin 5)) distances) / real nr;
                               completely_ablated =
                                 real (count_where (\<lambda>d. fl_ge d (Fin 5)) distances) / real nr
                           in Inr \<lparr>Patient = patient_id,
                                   Lesion = lesion_id,
                                   nr_voxels = nr,
                                   min_distance = min_d,
                                   q25_distance = q25,
                                   median_distance = med,
                                   q75_distance = q75,
                                   max_distance = max_d,
                                   x_less_than_0mm = non_ablated,
                                   x_equal_greater_than_0m = insuffiecient_ablated,
                                   x_equal_greater_than_5m = completely_ablated\<rparr>))))"


section \<open>Three-dimensional arrays\<close>

text \<open>
  A numpy array of three dimensions: its shape and its elements in C order (last axis
  fastest).  Every array the pipeline is given satisfies \<open>well_shaped\<close>; every array it
  builds does by construction.
\<close>

type_synonym idx = "nat \<times> nat \<times> nat"

record 'a ndarray =
  shape :: idx
  data :: "'a list"

definition size3 :: "idx \<Rightarrow> nat" where
  "size3 s = (case s of (n0, n1, n2) \<Rightarrow> n0 * (n1 * n2))"

definition well_shaped :: "'a ndarray \<Rightarrow> bool" where
  "well_shaped a \<longleftrightarrow> length (data a) = size3 (shape a)"

definition in_bounds :: "idx \<Rightarrow> idx \<Rightarrow> bool" where
  "in_bounds s x =
     (case s of (n0, n1, n2) \<Rightarrow> case x of (i, j, k) \<Rightarrow> i < n0 \<and> j < n1 \<and> k < n2)"

definition indices :: "idx \<Rightarrow> idx list" where
  "indices s =
     (case s of (n0, n1, n2) \<Rightarrow> List.product [0..<n0] (List.product [0..<n1] [0..<n2]))"

definition flat_index :: "idx \<Rightarrow> idx \<Rightarrow> nat" where
  "flat_index s x =
     (case s of (n0, n1, n2) \<Rightarrow> case x of (i, j, k) \<Rightarrow> i * (n1 * n2) + (j * n2 + k))"

definition getitem :: "'a ndarray \<Rightarrow> idx \<Rightarrow> 'a" where
  "getitem a x = data a ! flat_index (shape a) x"

definition tabulate :: "idx \<Rightarrow> (idx \<Rightarrow> 'a) \<Rightarrow> 'a ndarray" where
  "tabulate s f = \<lparr>shape = s, data = map f (indices s)\<rparr>"

definition full :: "idx \<Rightarrow> 'a \<Rightarrow> 'a ndarray" where
  "full s v = tabulate s (\<lambda>x. v)"

definition map_array :: "('a \<Rightarrow> 'b) \<Rightarrow> 'a ndarray \<Rightarrow> 'b ndarray" where
  "map_array f a = \<lparr>shape = shape a, data = map f (data a)\<rparr>"

text \<open>An element-wise operation on two arrays that are known to have one shape.\<close>

definition zip_array :: "('a \<Rightarrow> 'b \<Rightarrow> 'c) \<Rightarrow> 'a ndarray \<Rightarrow> 'b ndarray \<Rightarrow> 'c ndarray" where
  "zip_array f a b = \<lparr>shape = shape a, data = map2 f (data a) (data b)\<rparr>"

text \<open>
  Sequencing of steps that may raise: the first error ends the computation.
\<close>

definition bind_err :: "error + 'a \<Rightarrow> ('a \<Rightarrow> error + 'b) \<Rightarrow> error + 'b" where
  "bind_err m f = (case m of Inl e \<Rightarrow> Inl e | Inr x \<Rightarrow> f x)"

text \<open>
  \<open>a | b\<close> on boolean volumes.  The volumes of one comparison share a shape; numpy would
  broadcast some unequal shapes and raise \<open>ValueError\<close> for the others, the model raises
  for all of them, and every theorem below is about volumes of one shape.
\<close>

definition logical_or :: "bool ndarray \<Rightarrow> bool ndarray \<Rightarrow> error + bool ndarray" where
  "logical_or a b =
     (if shape a = shape b then Inr (zip_array (\<or>) a b) else Inl ValueError)"

text \<open>\<open>a.any()\<close>, \<open>~a\<close> and \<open>a.astype(bool)\<close>.\<close>

definition np_any :: "bool ndarray \<Rightarrow> bool" where
  "np_any a = list_ex (\<lambda>b. b) (data a)"

definition invert :: "bool ndarray \<Rightarrow> bool ndarray" where
  "invert a = map_array Not a"

definition astype_bool :: "real ndarray \<Rightarrow> bool ndarray" where
  "astype_bool a = map_array (\<lambda>v. v \<noteq> 0) a"

text \<open>
  \<open>a[msk]\<close>, the elements of \<open>a\<close> where the boolean array \<open>msk\<close> is true, in C order, and
  \<open>a[msk] = False\<close>.  A mask of another shape raises \<open>IndexError\<close>.
\<close>

definition select_where :: "'a ndarray \<Rightarrow> bool ndarray \<Rightarrow> error + 'a list" where
  "select_where a msk =
     (if shape msk = shape a then Inr (map fst (filter snd (zip (data a) (data msk))))
      else Inl IndexError)"

definition clear_where :: "bool ndarray \<Rightarrow> bool ndarray \<Rightarrow> error + bool ndarray" where
  "clear_where a msk =
     (if shape msk = shape a then Inr (zip_array (\<lambda>v m. v \<and> \<not> m) a msk)
      else Inl IndexError)"


section \<open>The Bounding Box Computer: \<open>compute_bounding_box\<close>\<close>

text \<open>
  \<open>np.max(np.max(mask_all, axis=..), axis=..)\<close>: the projection of the volume onto the
  axis that is kept.  A reduction along an axis of length zero raises \<open>ValueError\<close>.
\<close>

definition max_projection :: "bool ndarray \<Rightarrow> nat \<Rightarrow> error + bool list" where
  "max_projection m axis =
     (case shape m of (n0, n1, n2) \<Rightarrow>
        if axis = 0 then
          (if n2 = 0 \<or> n1 = 0 then Inl ValueError
           else Inr (map (\<lambda>i. list_ex (\<lambda>j. list_ex (\<lambda>k. getitem m (i, j, k)) [0..<n2]) [0..<n1])
                      [0..<n0]))
        else if axis = 1 then
          (if n2 = 0 \<or> n0 = 0 then Inl ValueError
           else Inr (map (\<lambda>j. list_ex (\<lambda>i. list_ex (\<lambda>k. getitem m (i, j, k)) [0..<n2]) [0..<n0])
                      [0..<n1]))
        else
          (if n1 = 0 \<or> n0 = 0 then Inl ValueError
           else Inr (map (\<lambda>k. list_ex (\<lambda>i. list_ex (\<lambda>j. getitem m (i, j, k)) [0..<n1]) [0..<n0])
                      [0..<n2])))"

text \<open>\<open>np.nonzero(proj)[0]\<close>, and \<open>np.min\<close> and \<open>np.max\<close> of an index list.\<close>

definition nonzero :: "bool list \<Rightarrow> nat list" where
  "nonzero proj = filter (\<lambda>i. proj ! i) [0..<length proj]"

fun amin :: "nat list \<Rightarrow> error + nat" where
  "amin [] = Inl ValueError"
| "amin (x # xs) = Inr (fold min xs x)"

fun amax :: "nat list \<Rightarrow> error + nat" where
  "amax [] = Inl ValueError"
| "amax (x # xs) = Inr (fold max xs x)"

type_synonym ivec = "int \<times> int \<times> int"

definition compute_bounding_box ::
  "bool ndarray \<Rightarrow> bool ndarray \<Rightarrow> bool ndarray \<Rightarrow> error + (ivec \<times> ivec)" where
  "compute_bounding_box mask_gt mask_pred exclusion_zone =
     bind_err (logical_or mask_gt mask_pred) (\<lambda>mask_gp.
     bind_err (logical_or mask_gp exclusion_zone) (\<lambda>mask_all.
     bind_err (max_projection mask_all 0) (\<lambda>proj_0.
     bind_err (amin (nonzero proj_0)) (\<lambda>min_0.
     bind_err (amax (nonzero proj_0)) (\<lambda>max_0.
     bind_err (max_projection mask_all 1) (\<lambda>proj_1.
     bind_err (amin (nonzero proj_1)) (\<lambda>min_1.
     bind_err (amax (nonzero proj_1)) (\<lambda>max_1.
     bind_err (max_projection mask_all 2) (\<lambda>proj_2.
     bind_err (amin (nonzero proj_2)) (\<lambda>min_2.
     bind_err (amax (nonzero proj_2)) (\<lambda>max_2.
     Inr ((int min_0, int min_1, int min_2), (int max_0, int max_1, int max_2)))))))))))))"


section \<open>The Cropper: \<open>crop_mask\<close>\<close>

text \<open>
  A Python slice \<open>lo:hi\<close> of an axis of length \<open>n\<close>: a negative bound counts from the end,
  and both bounds are clipped to the axis.  The result is the first index and the number
  of indices of the slice.
\<close>

definition slice_bound :: "nat \<Rightarrow> int \<Rightarrow> nat" where
  "slice_bound n i = (if i < 0 then nat (max (i + int n) 0) else min (nat i) n)"

definition slice_range :: "nat \<Rightarrow> int \<Rightarrow> int \<Rightarrow> nat \<times> nat" where
  "slice_range n lo hi = (slice_bound n lo, slice_bound n hi - slice_bound n lo)"

text \<open>
  \<open>a[lo0:hi0, lo1:hi1, lo2:hi2]\<close> read, and written with \<open>a[...] = src\<close>.  The assignment
  broadcasts a source axis of length one and raises \<open>ValueError\<close> when the lengths differ
  otherwise.
\<close>

definition getslice :: "'a ndarray \<Rightarrow> ivec \<Rightarrow> ivec \<Rightarrow> 'a ndarray" where
  "getslice a lo hi =
     (case shape a of (n0, n1, n2) \<Rightarrow>
      case lo of (lo0, lo1, lo2) \<Rightarrow>
      case hi of (hi0, hi1, hi2) \<Rightarrow>
        let (s0, l0) = slice_range n0 lo0 hi0;
            (s1, l1) = slice_range n1 lo1 hi1;
            (s2, l2) = slice_range n2 lo2 hi2
        in tabulate (l0, l1, l2) (\<lambda>(i, j, k). getitem a (s0 + i, s1 + j, s2 + k)))"

definition setslice :: "'a ndarray \<Rightarrow> ivec \<Rightarrow> ivec \<Rightarrow> 'a ndarray \<Rightarrow> error + 'a ndarray" where
  "setslice a lo hi src =
     (case shape a of (n0, n1, n2) \<Rightarrow>
      case lo of (lo0, lo1, lo2) \<Rightarrow>
      case hi of (hi0, hi1, hi2) \<Rightarrow>
      case shape src of (sl0, sl1, sl2) \<Rightarrow>
        let (t0, tl0) = slice_range n0 lo0 hi0;
            (t1, tl1) = slice_range n1 lo1 hi1;
            (t2, tl2) = slice_range n2 lo2 hi2
        in if (sl0 = tl0 \<or> sl0 = 1) \<and> (sl1 = tl1 \<or> sl1 = 1) \<and> (sl2 = tl2 \<or> sl2 = 1)
           then Inr (tabulate (n0, n1, n2) (\<lambda>(i, j, k).
                  if t0 \<le> i \<and> i < t0 + tl0 \<and> t1 \<le> j \<and> j < t1 + tl1 \<and> t2 \<le> k \<and> k < t2 + tl2
                  then getitem src
                         (if sl0 = 1 then 0 else i - t0,
                          if sl1 = 1 then 0 else j - t1,
                          if sl2 = 1 then 0 else k - t2)
                  else getitem a (i, j, k)))
           else Inl ValueError)"

text \<open>
  \<open>crop_mask\<close> allocates \<open>np.zeros((bbox_max - bbox_min) + 2)\<close>, a float array, which
  raises \<open>ValueError\<close> for a negative dimension, and assigns the slice
  \<open>mask[bbox_min[0]:bbox_max[0] + 1, ...]\<close>, cast to float, to
  \<open>cropmask[0:-1, 0:-1, 0:-1]\<close>.
\<close>

definition crop_mask :: "bool ndarray \<Rightarrow> ivec \<Rightarrow> ivec \<Rightarrow> error + real ndarray" where
  "crop_mask msk bbox_min bbox_max =
     (case bbox_min of (lo0, lo1, lo2) \<Rightarrow>
      case bbox_max of (hi0, hi1, hi2) \<Rightarrow>
        let d0 = hi0 - lo0 + 2; d1 = hi1 - lo1 + 2; d2 = hi2 - lo2 + 2
        in if d0 < 0 \<or> d1 < 0 \<or> d2 < 0 then Inl ValueError
           else
             let cropmask = full (nat d0, nat d1, nat d2) 0
             in setslice cropmask (0, 0, 0) (- 1, - 1, - 1)
                  (map_array of_bool (getslice msk (lo0, lo1, lo2) (hi0 + 1, hi1 + 1, hi2 + 1))))"


section \<open>The Surface Extractor\<close>

text \<open>
  \<open>ndimage.generate_binary_structure(3, connectivity)\<close>: the 3 x 3 x 3 structuring element
  that holds the offsets whose city-block distance to the centre is at most the
  connectivity; a connectivity below one counts as one.
\<close>

definition generate_binary_structure :: "int \<Rightarrow> bool ndarray" where
  "generate_binary_structure connectivity =
     (let c = (if connectivity < 1 then 1 else connectivity)
      in tabulate (3, 3, 3) (\<lambda>(a, b, c').
           \<bar>int a - 1\<bar> + \<bar>int b - 1\<bar> + \<bar>int c' - 1\<bar> \<le> c))"

text \<open>Reading a volume at integer coordinates, with a value for the outside.\<close>

definition getitem_border :: "bool ndarray \<Rightarrow> ivec \<Rightarrow> bool \<Rightarrow> bool" where
  "getitem_border a p border_value =
     (case shape a of (n0, n1, n2) \<Rightarrow>
      case p of (i, j, k) \<Rightarrow>
        if 0 \<le> i \<and> i < int n0 \<and> 0 \<le> j \<and> j < int n1 \<and> 0 \<le> k \<and> k < int n2
        then getitem a (nat i, nat j, nat k) else border_value)"

text \<open>
  \<open>ndimage.binary_erosion(input, structure)\<close> with its defaults (one iteration, origin 0,
  \<open>border_value=0\<close>): a voxel stays when every voxel under the structuring element,
  centred on it, is set; outside the array nothing is set.
\<close>

definition binary_erosion :: "bool ndarray \<Rightarrow> bool ndarray \<Rightarrow> bool ndarray" where
  "binary_erosion input strel =
     (case shape strel of (s0, s1, s2) \<Rightarrow>
        tabulate (shape input) (\<lambda>(i, j, k).
          list_all (\<lambda>(a, b, c). getitem strel (a, b, c) \<longrightarrow>
                      getitem_border input
                        (int i + int a - int (s0 div 2),
                         int j + int b - int (s1 div 2),
                         int k + int c - int (s2 div 2)) False)
                   (indices (shape strel))))"

text \<open>
  Lines 73 to 76 of \<open>compute_distances\<close>, once for each region:
  \<open>border_inside = binary_erosion(m, ...); borders = m ^ border_inside\<close>.
\<close>

definition boundary_shell :: "bool ndarray \<Rightarrow> int \<Rightarrow> bool ndarray" where
  "boundary_shell msk connectivity =
     (let border_inside = binary_erosion msk (generate_binary_structure connectivity)
      in zip_array (\<noteq>) msk border_inside)"


section \<open>The Distance Mapper\<close>

type_synonym spacing = "real \<times> real \<times> real"

definition physical_distance :: "spacing \<Rightarrow> idx \<Rightarrow> idx \<Rightarrow> real" where
  "physical_distance sampling x y =
     (case sampling of (s0, s1, s2) \<Rightarrow>
      case x of (i, j, k) \<Rightarrow>
      case y of (i', j', k') \<Rightarrow>
        sqrt ((s0 * (real i' - real i))\<^sup>2 + (s1 * (real j' - real j))\<^sup>2
              + (s2 * (real k' - real k))\<^sup>2))"

text \<open>
  \<open>ndimage.distance_transform_edt(input, sampling=...)\<close>: for every voxel the distance to
  the nearest voxel where \<open>input\<close> is zero, the background.  scipy documents no value for
  an input that has no background; what it returns there is the parameter
  \<open>edt_no_background\<close> (of the shape, the sampling and the voxel).
\<close>

definition distance_transform_edt ::
  "(idx \<Rightarrow> spacing \<Rightarrow> idx \<Rightarrow> real) \<Rightarrow> bool ndarray \<Rightarrow> spacing \<Rightarrow> real ndarray" where
  "distance_transform_edt edt_no_background input sampling =
     (let background = filter (\<lambda>y. \<not> getitem input y) (indices (shape input))
      in tabulate (shape input) (\<lambda>x.
           if background = [] then edt_no_background (shape input) sampling x
           else Min (set (map (physical_distance sampling x) background))))"

text \<open>
  \<open>distmask = m.astype(np.int8); distmask[distmask == 0] = -1\<close>, and
  \<open>distmap *= distmask\<close>.
\<close>

definition sign_mask :: "bool ndarray \<Rightarrow> int ndarray" where
  "sign_mask msk =
     map_array (\<lambda>v. if v = 0 then - 1 else v) (map_array (\<lambda>b. if b then 1 else 0) msk)"

definition times_mask :: "real ndarray \<Rightarrow> int ndarray \<Rightarrow> npfloat ndarray" where
  "times_mask distmap distmask = zip_array (\<lambda>d m. Fin (d * of_int m)) distmap distmask"

text \<open>
  Lines 79 to 86 (and 88 to 95): the signed distance map of one region, with the sign
  mask when the branch that assigns it ran, \<open>None\<close> when the variable stays unassigned.
\<close>

definition signed_distance_map ::
  "(idx \<Rightarrow> spacing \<Rightarrow> idx \<Rightarrow> real) \<Rightarrow> bool ndarray \<Rightarrow> bool ndarray \<Rightarrow> spacing
     \<Rightarrow> npfloat ndarray \<times> int ndarray option" where
  "signed_distance_map edt_no_background msk borders spacing_mm =
     (if np_any borders then
        (let distmap = distance_transform_edt edt_no_background (invert borders) spacing_mm;
             distmask = sign_mask msk
         in (times_mask distmap distmask, Some distmask))
      else (full (shape borders) PInf, None))"


section \<open>The pipeline: \<open>compute_distances\<close>\<close>

record surface_distances =
  distances_gt_to_pred :: "npfloat list"
  distances_pred_to_gt :: "npfloat list"
  borders_gt :: "bool ndarray"
  borders_pred :: "bool ndarray"
  distmap_gt :: "npfloat ndarray"
  distmap_pred :: "npfloat ndarray"
  distmask_pred :: "int ndarray"
  border_exclusion :: "bool ndarray option"
  distmap_exclusion :: "npfloat ndarray option"

text \<open>Lines 62 to 71: the volumes the later stages work on.\<close>

definition crop_inputs ::
  "bool ndarray \<Rightarrow> bool ndarray \<Rightarrow> bool ndarray option \<Rightarrow> bool
     \<Rightarrow> error + (bool ndarray \<times> bool ndarray \<times> bool ndarray option)" where
  "crop_inputs mask_gt mask_pred exclusion_zone crop =
     (if crop then
        (case exclusion_zone of
           Some ez \<Rightarrow>
             bind_err (compute_bounding_box mask_gt mask_pred ez) (\<lambda>(bbox_min, bbox_max).
             bind_err (crop_mask mask_gt bbox_min bbox_max) (\<lambda>g.
             bind_err (crop_mask mask_pred bbox_min bbox_max) (\<lambda>p.
             bind_err (crop_mask ez bbox_min bbox_max) (\<lambda>z.
             Inr (astype_bool g, astype_bool p, Some (astype_bool z))))))
         | None \<Rightarrow>
             bind_err (compute_bounding_box mask_gt mask_pred mask_gt) (\<lambda>(bbox_min, bbox_max).
             bind_err (crop_mask mask_gt bbox_min bbox_max) (\<lambda>g.
             bind_err (crop_mask mask_pred bbox_min bbox_max) (\<lambda>p.
             Inr (astype_bool g, astype_bool p, None)))))
      else Inr (mask_gt, mask_pred, exclusion_zone))"

text \<open>
  Lines 98 to 106: the exclusion zone's own shell and signed distance map.  Unlike the two
  regions' maps, this one is computed without a test for an empty shell.
\<close>

definition exclusion_distance_map ::
  "(idx \<Rightarrow> spacing \<Rightarrow> idx \<Rightarrow> real) \<Rightarrow> bool ndarray \<Rightarrow> spacing \<Rightarrow> int \<Rightarrow> npfloat ndarray" where
  "exclusion_distance_map edt_no_background ez spacing_mm connectivity =
     (let borders_exclusion = boundary_shell ez connectivity;
          distmap = distance_transform_edt edt_no_background (invert borders_exclusion) spacing_mm;
          distmask = sign_mask ez
      in times_mask distmap distmask)"

text \<open>
  Lines 97 to 109: the Exclusion Masker.  It clears \<open>borders_pred\<close>, then \<open>borders_gt\<close>,
  where the exclusion zone's signed distance map is below the exclusion distance.
\<close>

definition exclusion_masker ::
  "(idx \<Rightarrow> spacing \<Rightarrow> idx \<Rightarrow> real) \<Rightarrow> bool ndarray option \<Rightarrow> bool ndarray \<Rightarrow> bool ndarray
     \<Rightarrow> spacing \<Rightarrow> int \<Rightarrow> real
     \<Rightarrow> error + (bool ndarray \<times> bool ndarray \<times> bool ndarray option \<times> npfloat ndarray option)" where
  "exclusion_masker edt_no_background exclusion_zone b_gt b_pred spacing_mm connectivity
       exclusion_distance =
     (case exclusion_zone of
        None \<Rightarrow> Inr (b_gt, b_pred, None, None)
      | Some ez \<Rightarrow>
          (let borders_exclusion = boundary_shell ez connectivity;
               distmap_excl = exclusion_distance_map edt_no_background ez spacing_mm connectivity;
               below = map_array (\<lambda>d. fl_lt d (Fin exclusion_distance)) distmap_excl
           in bind_err (clear_where b_pred below) (\<lambda>b_pred'.
              bind_err (clear_where b_gt below) (\<lambda>b_gt'.
              Inr (b_gt', b_pred', Some borders_exclusion, Some distmap_excl)))))"

text \<open>
  The whole function.  The dictionary it returns reads the local variable
  \<open>distmask_pred\<close>, which only the branch for a non-empty predicted shell assigns.
\<close>

definition compute_distances ::
  "(idx \<Rightarrow> spacing \<Rightarrow> idx \<Rightarrow> real) \<Rightarrow> bool ndarray \<Rightarrow> bool ndarray \<Rightarrow> bool ndarray option
     \<Rightarrow> spacing \<Rightarrow> int \<Rightarrow> bool \<Rightarrow> real \<Rightarrow> error + surface_distances" where
  "compute_distances edt_no_background mask_gt mask_pred exclusion_zone spacing_mm
       connectivity crop exclusion_distance =
     bind_err (crop_inputs mask_gt mask_pred exclusion_zone crop) (\<lambda>(m_gt, m_pred, ez).
       let b_gt = boundary_shell m_gt connectivity;
           b_pred = boundary_shell m_pred connectivity;
           (dmap_gt, dmask_gt) = signed_distance_map edt_no_background m_gt b_gt spacing_mm;
           (dmap_pred, dmask_pred) = signed_distance_map edt_no_background m_pred b_pred spacing_mm
       in bind_err (exclusion_masker edt_no_background ez b_gt b_pred spacing_mm connectivity
                      exclusion_distance) (\<lambda>(b_gt', b_pred', b_excl, dmap_excl).
          bind_err (select_where dmap_pred b_gt') (\<lambda>d_gt_to_pred.
          bind_err (select_where dmap_gt b_pred') (\<lambda>d_pred_to_gt.
            case dmask_pred of
              None \<Rightarrow> Inl UnboundLocalError
            | Some dmask \<Rightarrow>
                Inr \<lparr>distances_gt_to_pred = d_gt_to_pred,
                     distances_pred_to_gt = d_pred_to_gt,
                     borders_gt = b_gt',
                     borders_pred = b_pred',
                     distmap_gt = dmap_gt,
                     distmap_pred = dmap_pred,
                     distmask_pred = dmask,
                     border_exclusion = b_excl,
                     distmap_exclusion = dmap_excl\<rparr>))))"


text \<open>
  The data model's invariant for the inputs of one comparison: every volume is a
  well-shaped array, and all of them have one shape.
\<close>

definition valid_inputs :: "bool ndarray \<Rightarrow> bool ndarray \<Rightarrow> bool ndarray option \<Rightarrow> bool" where
  "valid_inputs mask_gt mask_pred exclusion_zone \<longleftrightarrow>
     well_shaped mask_gt \<and> well_shaped mask_pred \<and> shape mask_pred = shape mask_gt
     \<and> (case exclusion_zone of
          None \<Rightarrow> True
        | Some ez \<Rightarrow> well_shaped ez \<and> shape ez = shape mask_gt)"


section \<open>Volumes in a common frame\<close>

text \<open>
  Cropping moves a region to other indices.  To compare the pipeline on two crops of the
  same inputs, a volume is placed at an offset (the lower corner of its bounding box, or
  zero for an uncropped volume): \<open>voxel_at a off q\<close> says whether the voxel at position \<open>q\<close>
  of the common frame is set in \<open>a\<close>, and \<open>frame_distance\<close> is the physical distance of two
  positions.
\<close>

definition voxel_at :: "bool ndarray \<Rightarrow> ivec \<Rightarrow> ivec \<Rightarrow> bool" where
  "voxel_at a off q =
     (case off of (o0, o1, o2) \<Rightarrow>
      case q of (q0, q1, q2) \<Rightarrow> getitem_border a (q0 - o0, q1 - o1, q2 - o2) False)"

definition same_region :: "bool ndarray \<Rightarrow> ivec \<Rightarrow> bool ndarray \<Rightarrow> ivec \<Rightarrow> bool" where
  "same_region a oa b ob \<longleftrightarrow> (\<forall>q. voxel_at a oa q = voxel_at b ob q)"

definition frame_position :: "ivec \<Rightarrow> idx \<Rightarrow> ivec" where
  "frame_position off x =
     (case off of (o0, o1, o2) \<Rightarrow>
      case x of (i, j, k) \<Rightarrow> (int i + o0, int j + o1, int k + o2))"

definition frame_distance :: "spacing \<Rightarrow> ivec \<Rightarrow> ivec \<Rightarrow> real" where
  "frame_distance sampling q q' =
     (case sampling of (s0, s1, s2) \<Rightarrow>
      case q of (i, j, k) \<Rightarrow>
      case q' of (i', j', k') \<Rightarrow>
        sqrt ((s0 * (real_of_int i' - real_of_int i))\<^sup>2 + (s1 * (real_of_int j' - real_of_int j))\<^sup>2
              + (s2 * (real_of_int k' - real_of_int k))\<^sup>2))"


section \<open>Indexing lemmas\<close>

lemma length_indices: "length (indices s) = size3 s"
  by (cases s) (simp add: indices_def size3_def)

lemma set_indices: "set (indices s) = {x. in_bounds s x}"
  by (cases s) (auto simp: indices_def in_bounds_def)

lemma distinct_indices: "distinct (indices s)"
  by (cases s) (simp add: indices_def distinct_product)

lemma flat_index_less: "in_bounds s x \<Longrightarrow> flat_index s x < size3 s"
proof (cases s, cases x)
  fix n0 n1 n2 i j k
  assume s: "s = (n0, n1, n2)" and x: "x = (i, j, k)" and b: "in_bounds s x"
  from b s x have i: "i < n0" and j: "j < n1" and k: "k < n2"
    by (simp_all add: in_bounds_def)
  have "j * n2 + k < n1 * n2"
  proof -
    have "j * n2 + k < j * n2 + n2" using k by simp
    also have "\<dots> = Suc j * n2" by simp
    also have "\<dots> \<le> n1 * n2" using j by (intro mult_le_mono1) simp
    finally show ?thesis .
  qed
  moreover have "i * (n1 * n2) + (n1 * n2) \<le> n0 * (n1 * n2)"
  proof -
    have "Suc i * (n1 * n2) \<le> n0 * (n1 * n2)" using i by (intro mult_le_mono1) simp
    then show ?thesis by simp
  qed
  ultimately show ?thesis using s x by (simp add: flat_index_def size3_def)
qed

lemma inner_bound: "j < n1 \<Longrightarrow> k < n2 \<Longrightarrow> j * n2 + k < n1 * (n2::nat)"
proof -
  assume j: "j < n1" and k: "k < n2"
  have "j * n2 + k < Suc j * n2" using k by simp
  also have "\<dots> \<le> n1 * n2" using j by (intro mult_le_mono1) simp
  finally show ?thesis .
qed

lemma div_mod_flat: "r < m \<Longrightarrow> (i * m + r) div m = i \<and> (i * m + r) mod m = (r::nat)"
  by simp

lemma nth_indices: "in_bounds s x \<Longrightarrow> indices s ! flat_index s x = x"
proof (cases s, cases x)
  fix n0 n1 n2 i j k
  assume s: "s = (n0, n1, n2)" and x: "x = (i, j, k)" and b: "in_bounds s x"
  from b s x have i: "i < n0" and j: "j < n1" and k: "k < n2"
    by (simp_all add: in_bounds_def)
  have r: "j * n2 + k < n1 * n2" using j k by (rule inner_bound)
  have n: "i * (n1 * n2) + (j * n2 + k) < n0 * (n1 * n2)"
    using flat_index_less[OF b] s x by (simp add: flat_index_def size3_def)
  have nz: "n1 * n2 \<noteq> 0" using j k by auto
  have d: "(i * (n1 * n2) + (j * n2 + k)) div (n1 * n2) = i"
    using div_mod_flat[OF r] by blast
  have m: "(i * (n1 * n2) + (j * n2 + k)) mod (n1 * n2) = j * n2 + k"
    using div_mod_flat[OF r] by blast
  have d2: "(j * n2 + k) div n2 = j" using k by simp
  have m2: "(j * n2 + k) mod n2 = k" using k by simp
  show ?thesis
    using n r i j k unfolding s x indices_def flat_index_def
    by (simp add: product_nth d m d2 m2)
qed

lemma flat_index_nth_indices:
  assumes "n < size3 s" shows "flat_index s (indices s ! n) = n \<and> in_bounds s (indices s ! n)"
proof (cases s)
  fix n0 n1 n2
  assume s: "s = (n0, n1, n2)"
  from assms s have n: "n < n0 * (n1 * n2)" by (simp add: size3_def)
  then have pos: "0 < n1 * n2" by (cases "n1 * n2 = 0") auto
  then have n2: "0 < n2" and n1: "0 < n1" by auto
  let ?m = "n1 * n2"
  have a: "n div ?m < n0" using n pos by (simp add: less_mult_imp_div_less mult.commute)
  have b: "n mod ?m < ?m" using pos by simp
  have c: "(n mod ?m) div n2 < n1" using b n2 by (simp add: less_mult_imp_div_less)
  have e: "(n mod ?m) mod n2 < n2" using n2 by simp
  have "indices s ! n = (n div ?m, (n mod ?m) div n2, (n mod ?m) mod n2)"
    using n a b c e unfolding s indices_def by (simp add: product_nth)
  then show ?thesis using a c e unfolding s
    by (simp add: flat_index_def in_bounds_def div_mult_mod_eq)
qed

lemma getitem_tabulate: "in_bounds s x \<Longrightarrow> getitem (tabulate s f) x = f x"
  using flat_index_less[of s x] nth_indices[of s x]
  by (simp add: getitem_def tabulate_def length_indices)

lemma shape_tabulate: "shape (tabulate s f) = s"
  by (simp add: tabulate_def)

lemma well_shaped_tabulate: "well_shaped (tabulate s f)"
  by (simp add: tabulate_def well_shaped_def length_indices)

lemma data_eq_map_getitem:
  assumes "well_shaped a" shows "data a = map (getitem a) (indices (shape a))"
proof (rule nth_equalityI)
  show "length (data a) = length (map (getitem a) (indices (shape a)))"
    using assms by (simp add: well_shaped_def length_indices)
next
  fix n assume "n < length (data a)"
  then have n: "n < size3 (shape a)" using assms by (simp add: well_shaped_def)
  then show "data a ! n = map (getitem a) (indices (shape a)) ! n"
    using flat_index_nth_indices[OF n] by (simp add: length_indices getitem_def)
qed


section \<open>Properties of the Summarizer\<close>

lemma nanmin_nonempty: "ds \<noteq> [] \<Longrightarrow> \<exists>v. nanmin ds = Inr v"
  by (simp add: nanmin_def split: list.splits)

lemma nanmax_nonempty: "ds \<noteq> [] \<Longrightarrow> \<exists>v. nanmax ds = Inr v"
  by (simp add: nanmax_def split: list.splits)

lemma count_where_mono:
  "(\<And>x. x \<in> set xs \<Longrightarrow> P x \<Longrightarrow> Q x) \<Longrightarrow> count_where P xs \<le> count_where Q xs"
  unfolding count_where_def by (induction xs) auto

lemma fl_lt_0_5: "fl_lt d (Fin 0) \<Longrightarrow> fl_lt d (Fin 5)"
  by (cases d) auto

lemma fl_lt_ge_cases: "(fl_lt d (Fin c) \<or> fl_ge d (Fin c)) = (d \<noteq> NaN)"
  by (cases d) (auto simp: fl_ge_def)

lemma fl_lt_ge_excl: "\<not> (fl_lt d (Fin c) \<and> fl_ge d (Fin c))"
  by (cases d) (auto simp: fl_ge_def)

lemma count_split:
  "count_where (\<lambda>d. fl_lt d (Fin c)) ds + count_where (\<lambda>d. fl_ge d (Fin c)) ds
     = count_where (\<lambda>d. d \<noteq> NaN) ds"
proof (induction ds)
  case Nil
  show ?case by (simp add: count_where_def)
next
  case (Cons d ds)
  then show ?case
    using fl_lt_ge_cases[of d c] fl_lt_ge_excl[of d c]
    by (auto simp: count_where_def)
qed

lemma count_not_nan_full: "(count_where (\<lambda>d. d \<noteq> NaN) ds = length ds) = (NaN \<notin> set ds)"
proof (induction ds)
  case Nil
  show ?case by (simp add: count_where_def)
next
  case (Cons d ds)
  have "length (filter (\<lambda>d. d \<noteq> NaN) ds) \<le> length ds" by (rule length_filter_le)
  then have "length (filter (\<lambda>d. d \<noteq> NaN) ds) \<noteq> Suc (length ds)" by linarith
  with Cons show ?case by (auto simp: count_where_def)
qed

text \<open>
  Claim C6, as amended.  For every non-empty distance list the summarizer returns a
  record; in it \<open>x_less_than_0mm\<close> is at most \<open>x_equal_greater_than_0m\<close>, and
  \<open>x_equal_greater_than_0m + x_equal_greater_than_5m\<close> is the fraction of the entries that
  are not \<open>NaN\<close>, so the sum is 1 exactly when the list holds no \<open>NaN\<close>.
\<close>

theorem coverage_fractions:
  assumes "surface_distance ''distances_gt_to_pred'' = Some ds" and "ds \<noteq> []"
  shows "\<exists>r. summarize_surface_dists patient_id lesion_id surface_distance = Inr r
           \<and> x_less_than_0mm r \<le> x_equal_greater_than_0m r
           \<and> x_equal_greater_than_0m r + x_equal_greater_than_5m r
               = real (count_where (\<lambda>d. d \<noteq> NaN) ds) / real (length ds)
           \<and> (x_equal_greater_than_0m r + x_equal_greater_than_5m r = 1 \<longleftrightarrow> NaN \<notin> set ds)"
proof -
  obtain lo where lo: "nanmin ds = Inr lo" using nanmin_nonempty[OF assms(2)] by blast
  obtain hi where hi: "nanmax ds = Inr hi" using nanmax_nonempty[OF assms(2)] by blast
  let ?n = "real (length ds)"
  let ?a = "real (count_where (\<lambda>d. fl_lt d (Fin 0)) ds) / ?n"
  let ?b = "real (count_where (\<lambda>d. fl_lt d (Fin 5)) ds) / ?n"
  let ?c = "real (count_where (\<lambda>d. fl_ge d (Fin 5)) ds) / ?n"
  have npos: "0 < ?n" using assms(2) by simp
  have ab: "?a \<le> ?b"
    using count_where_mono[of ds "\<lambda>d. fl_lt d (Fin 0)" "\<lambda>d. fl_lt d (Fin 5)"] fl_lt_0_5 npos
    by (simp add: divide_right_mono)
  have "real (count_where (\<lambda>d. fl_lt d (Fin 5)) ds) + real (count_where (\<lambda>d. fl_ge d (Fin 5)) ds)
          = real (count_where (\<lambda>d. d \<noteq> NaN) ds)"
    using count_split[of 5 ds] by (metis of_nat_add)
  then have bc: "?b + ?c = real (count_where (\<lambda>d. d \<noteq> NaN) ds) / ?n"
    by (simp add: add_divide_distrib[symmetric])
  have "(real (count_where (\<lambda>d. d \<noteq> NaN) ds) / ?n = 1)
          = (count_where (\<lambda>d. d \<noteq> NaN) ds = length ds)"
    using npos by (simp only: divide_eq_1_iff of_nat_eq_iff) auto
  then have one: "(?b + ?c = 1) = (NaN \<notin> set ds)"
    using bc count_not_nan_full[of ds] by simp
  show ?thesis
    using assms(1) lo hi ab bc one
    by (simp add: summarize_surface_dists_def Let_def)
qed

theorem coverage_fractions_witness:
  "[''distances_gt_to_pred'' \<mapsto> [Fin (- 1), Fin 2, Fin 7]] ''distances_gt_to_pred''
      = Some [Fin (- 1), Fin 2, Fin 7]
   \<and> [Fin (- 1), Fin 2, Fin 7] \<noteq> []
   \<and> (\<exists>r. summarize_surface_dists (1::nat) (1::nat)
              [''distances_gt_to_pred'' \<mapsto> [Fin (- 1), Fin 2, Fin 7]] = Inr r
          \<and> x_less_than_0mm r \<le> x_equal_greater_than_0m r
          \<and> x_equal_greater_than_0m r + x_equal_greater_than_5m r = 1)"
proof -
  let ?ds = "[Fin (- 1), Fin 2, Fin 7]"
  let ?sd = "[''distances_gt_to_pred'' \<mapsto> ?ds]"
  have h1: "?sd ''distances_gt_to_pred'' = Some ?ds" by simp
  have h2: "?ds \<noteq> []" by simp
  have nn: "NaN \<notin> set ?ds" by simp
  from coverage_fractions[where surface_distance = ?sd and ds = ?ds
      and patient_id = "1::nat" and lesion_id = "1::nat", OF h1 h2] nn
  obtain r where "summarize_surface_dists (1::nat) (1::nat) ?sd = Inr r"
    and "x_less_than_0mm r \<le> x_equal_greater_than_0m r"
    and "x_equal_greater_than_0m r + x_equal_greater_than_5m r = 1"
    by blast
  then show ?thesis using h1 h2 by blast
qed

text \<open>
  C6 as stated fails on a list with a \<open>NaN\<close>, which the summarizer accepts (its statistics
  skip such entries): for \<open>[1.0, nan]\<close> the two fractions are 1/2 and 0.
\<close>

theorem coverage_fractions_nan_counterexample: "summarize_surface_dists (1::nat) (1::nat) [''distances_gt_to_pred'' \<mapsto> [Fin 1, NaN]]
  = Inr \<lparr>Patient = 1, Lesion = 1, nr_voxels = 2, min_distance = Fin 1, q25_distance = Fin 1,
         median_distance = Fin 1, q75_distance = Fin 1, max_distance = Fin 1,
         x_less_than_0mm = 0, x_equal_greater_than_0m = 1 / 2, x_equal_greater_than_5m = 0\<rparr>"
  by (simp add: summarize_surface_dists_def nanmin_def nanmax_def nanquantile_def nanmedian_def
        sort_fl_def drop_nan_def lerp_def fl_sub_def count_where_def fl_ge_def Let_def)

text \<open>
  Claim C10.  The summarizer reads the entry \<open>distances_gt_to_pred\<close> of its dictionary and
  nothing else: two dictionaries that agree on this entry give the same result for the
  same identifiers, whatever \<open>distances_pred_to_gt\<close> or any other entry holds.
\<close>

theorem summary_reads_only_gt_to_pred:
  "sda ''distances_gt_to_pred'' = sdb ''distances_gt_to_pred'' \<Longrightarrow>
   summarize_surface_dists patient_id lesion_id sda = summarize_surface_dists patient_id lesion_id sdb"
  by (simp add: summarize_surface_dists_def)

theorem summary_reads_only_gt_to_pred_witness:
  "[''distances_gt_to_pred'' \<mapsto> [Fin 1, Fin 6], ''distances_pred_to_gt'' \<mapsto> [Fin 2]]
      ''distances_gt_to_pred''
     = [''distances_gt_to_pred'' \<mapsto> [Fin 1, Fin 6], ''distances_pred_to_gt'' \<mapsto> [Fin (- 3), PInf]]
      ''distances_gt_to_pred''
   \<and> summarize_surface_dists (1::nat) (2::nat)
       [''distances_gt_to_pred'' \<mapsto> [Fin 1, Fin 6], ''distances_pred_to_gt'' \<mapsto> [Fin 2]]
     = summarize_surface_dists 1 2
       [''distances_gt_to_pred'' \<mapsto> [Fin 1, Fin 6], ''distances_pred_to_gt'' \<mapsto> [Fin (- 3), PInf]]"
  using summary_reads_only_gt_to_pred[where
      sda = "[''distances_gt_to_pred'' \<mapsto> [Fin 1, Fin 6], ''distances_pred_to_gt'' \<mapsto> [Fin 2]]"
      and sdb = "[''distances_gt_to_pred'' \<mapsto> [Fin 1, Fin 6], ''distances_pred_to_gt'' \<mapsto> [Fin (- 3), PInf]]"
      and patient_id = "1::nat" and lesion_id = "2::nat"]
  by simp


section \<open>Properties of the Surface Extractor\<close>

lemma shape_zip_array: "shape (zip_array f a b) = shape a"
  by (simp add: zip_array_def)

lemma shape_map_array: "shape (map_array f a) = shape a"
  by (simp add: map_array_def)

lemma well_shaped_zip_array:
  "well_shaped a \<Longrightarrow> well_shaped b \<Longrightarrow> shape b = shape a \<Longrightarrow> well_shaped (zip_array f a b)"
  by (simp add: zip_array_def well_shaped_def)

lemma well_shaped_map_array: "well_shaped a \<Longrightarrow> well_shaped (map_array f a)"
  by (simp add: map_array_def well_shaped_def)

lemma getitem_zip_array:
  assumes "well_shaped a" "well_shaped b" "shape b = shape a" "in_bounds (shape a) x"
  shows "getitem (zip_array f a b) x = f (getitem a x) (getitem b x)"
proof -
  have "flat_index (shape a) x < size3 (shape a)" using assms(4) by (rule flat_index_less)
  then show ?thesis using assms(1-3)
    by (simp add: getitem_def zip_array_def well_shaped_def)
qed

lemma getitem_map_array:
  assumes "well_shaped a" "in_bounds (shape a) x"
  shows "getitem (map_array f a) x = f (getitem a x)"
proof -
  have "flat_index (shape a) x < size3 (shape a)" using assms(2) by (rule flat_index_less)
  then show ?thesis using assms(1)
    by (simp add: getitem_def map_array_def well_shaped_def)
qed

lemma shape_binary_erosion: "shape (binary_erosion v strel) = shape v"
  by (simp add: binary_erosion_def shape_tabulate split: prod.splits)

lemma well_shaped_binary_erosion: "well_shaped (binary_erosion v strel)"
  by (simp add: binary_erosion_def well_shaped_tabulate split: prod.splits)

lemma shape_structure: "shape (generate_binary_structure c) = (3, 3, 3)"
  by (simp add: generate_binary_structure_def Let_def shape_tabulate)

lemma getitem_structure:
  "in_bounds (3, 3, 3) (a, b, c) \<Longrightarrow>
   getitem (generate_binary_structure conn) (a, b, c)
     = (\<bar>int a - 1\<bar> + \<bar>int b - 1\<bar> + \<bar>int c - 1\<bar> \<le> (if conn < 1 then 1 else conn))"
  by (simp add: generate_binary_structure_def Let_def getitem_tabulate)

lemma getitem_erosion:
  assumes "in_bounds (shape v) (i, j, k)"
  shows "getitem (binary_erosion v (generate_binary_structure conn)) (i, j, k)
     = (\<forall>(a, b, c) \<in> set (indices (3, 3, 3)).
          \<bar>int a - 1\<bar> + \<bar>int b - 1\<bar> + \<bar>int c - 1\<bar> \<le> (if conn < 1 then 1 else conn) \<longrightarrow>
          getitem_border v (int i + int a - 1, int j + int b - 1, int k + int c - 1) False)"
proof -
  have "\<And>a b c. (a, b, c) \<in> set (indices (3, 3, 3)) \<Longrightarrow>
      getitem (generate_binary_structure conn) (a, b, c)
        = (\<bar>int a - 1\<bar> + \<bar>int b - 1\<bar> + \<bar>int c - 1\<bar> \<le> (if conn < 1 then 1 else conn))"
    by (rule getitem_structure) (simp add: set_indices)
  then show ?thesis
    using assms
    by (auto simp: binary_erosion_def shape_structure getitem_tabulate list_all_iff)
qed

lemma erosion_imp_center:
  assumes "in_bounds (shape v) x" "getitem (binary_erosion v (generate_binary_structure conn)) x"
  shows "getitem v x"
proof -
  obtain i j k where x: "x = (i, j, k)" by (cases x) auto
  have c: "(1, 1, 1) \<in> set (indices (3, 3, 3))" by (simp add: set_indices in_bounds_def)
  have b: "in_bounds (shape v) (i, j, k)" using assms(1) x by simp
  have "\<forall>(a, b, c) \<in> set (indices (3, 3, 3)).
          \<bar>int a - 1\<bar> + \<bar>int b - 1\<bar> + \<bar>int c - 1\<bar> \<le> (if conn < 1 then 1 else conn) \<longrightarrow>
          getitem_border v (int i + int a - 1, int j + int b - 1, int k + int c - 1) False"
    using assms(2) unfolding x getitem_erosion[OF b] .
  from bspec[OF this c] have "getitem_border v (int i, int j, int k) False"
    by simp
  then show ?thesis using b unfolding x
    by (simp add: getitem_border_def in_bounds_def split: prod.splits)
qed

lemma getitem_boundary_shell:
  assumes "well_shaped v" "in_bounds (shape v) x"
  shows "getitem (boundary_shell v conn) x
     = (getitem v x \<and> \<not> getitem (binary_erosion v (generate_binary_structure conn)) x)"
  using assms erosion_imp_center[OF assms(2), of conn]
  by (auto simp: boundary_shell_def Let_def getitem_zip_array well_shaped_binary_erosion
        shape_binary_erosion)

text \<open>
  Claim C9.  For every binary volume and every connectivity, the boundary shell
  \<open>V ^ binary_erosion(V)\<close> is a subset of \<open>V\<close>: a voxel that is set in the shell is set
  in \<open>V\<close>.
\<close>

theorem boundary_shell_subset:
  "well_shaped v \<Longrightarrow> in_bounds (shape v) x \<Longrightarrow> getitem (boundary_shell v connectivity) x
     \<Longrightarrow> getitem v x"
  by (simp add: getitem_boundary_shell)

theorem boundary_shell_subset_witness:
  "well_shaped \<lparr>shape = (1, 1, 2), data = [True, False]\<rparr>
   \<and> in_bounds (shape \<lparr>shape = (1, 1, 2), data = [True, False]\<rparr>) (0, 0, 0)
   \<and> getitem (boundary_shell \<lparr>shape = (1, 1, 2), data = [True, False]\<rparr> 1) (0, 0, 0)
   \<and> getitem \<lparr>shape = (1, 1, 2), data = [True, False]\<rparr> (0, 0, 0)"
proof -
  let ?v = "\<lparr>shape = (1, 1, 2), data = [True, False]\<rparr>"
  have h1: "well_shaped ?v" by code_simp
  have h2: "in_bounds (shape ?v) (0, 0, 0)" by code_simp
  have h3: "getitem (boundary_shell ?v 1) (0, 0, 0)" by code_simp
  from boundary_shell_subset[OF h1 h2 h3] h1 h2 h3 show ?thesis by blast
qed


section \<open>Properties of the Bounding Box Computer\<close>

lemma nonzero_all_false:
  "(\<And>i. i < n \<Longrightarrow> \<not> f i) \<Longrightarrow> nonzero (map f [0..<n]) = []"
  by (auto simp: nonzero_def filter_empty_conv)

lemma max_projection_empty:
  assumes "\<And>x. in_bounds (shape u) x \<Longrightarrow> \<not> getitem u x"
  shows "max_projection u 0 = Inl ValueError
         \<or> (\<exists>p. max_projection u 0 = Inr p \<and> nonzero p = [])"
proof (cases "shape u")
  case (fields n0 n1 n2)
  have "nonzero (map (\<lambda>i. list_ex (\<lambda>j. list_ex (\<lambda>k. getitem u (i, j, k)) [0..<n2]) [0..<n1])
                  [0..<n0]) = []"
    by (rule nonzero_all_false) (use assms fields in \<open>auto simp: list_ex_iff in_bounds_def\<close>)
  then show ?thesis using fields by (simp add: max_projection_def)
qed

lemma logical_or_same_shape:
  "shape b = shape a \<Longrightarrow> logical_or a b = Inr (zip_array (\<or>) a b)"
  by (simp add: logical_or_def)

text \<open>
  Claim C8.  When no input volume has a true voxel, so that their union has none,
  \<open>compute_bounding_box\<close> raises \<open>ValueError\<close> (numpy's error for the minimum of an empty
  index list) and returns no bounding box; this covers an empty target passed alone.
\<close>

theorem bounding_box_empty_union_fails:
  assumes "well_shaped mask_gt" "well_shaped mask_pred" "well_shaped exclusion_zone"
    and "shape mask_pred = shape mask_gt" "shape exclusion_zone = shape mask_gt"
    and "\<not> np_any mask_gt" "\<not> np_any mask_pred" "\<not> np_any exclusion_zone"
  shows "compute_bounding_box mask_gt mask_pred exclusion_zone = Inl ValueError"
proof -
  let ?gp = "zip_array (\<or>) mask_gt mask_pred"
  let ?all = "zip_array (\<or>) ?gp exclusion_zone"
  have d: "list_all Not (data ?all)"
    using assms(6-8)
    by (simp add: np_any_def zip_array_def list_ex_length list_all_length)
  have f: "\<not> getitem ?all x" if "in_bounds (shape ?all) x" for x
  proof -
    have w: "well_shaped ?all"
      using assms(1-5) by (simp add: well_shaped_zip_array shape_zip_array)
    have "flat_index (shape ?all) x < length (data ?all)"
      using flat_index_less[OF that] w by (simp add: well_shaped_def)
    then show ?thesis using d by (simp add: getitem_def list_all_length)
  qed
  have o1: "logical_or mask_gt mask_pred = Inr ?gp"
    using assms(4) by (simp add: logical_or_same_shape)
  have o2: "logical_or ?gp exclusion_zone = Inr ?all"
    using assms(5) by (simp add: logical_or_same_shape shape_zip_array)
  from max_projection_empty[of ?all, OF f]
  show ?thesis
  proof
    assume "max_projection ?all 0 = Inl ValueError"
    then show ?thesis
      by (simp add: compute_bounding_box_def o1 o2 bind_err_def)
  next
    assume "\<exists>p. max_projection ?all 0 = Inr p \<and> nonzero p = []"
    then obtain p where "max_projection ?all 0 = Inr p" "nonzero p = []" by blast
    then show ?thesis
      by (simp add: compute_bounding_box_def o1 o2 bind_err_def)
  qed
qed

theorem bounding_box_empty_union_fails_witness:
  "well_shaped \<lparr>shape = (1, 2, 2), data = [False, False, False, False]\<rparr>
   \<and> \<not> np_any \<lparr>shape = (1, 2, 2), data = [False, False, False, False]\<rparr>
   \<and> compute_bounding_box \<lparr>shape = (1, 2, 2), data = [False, False, False, False]\<rparr>
         \<lparr>shape = (1, 2, 2), data = [False, False, False, False]\<rparr>
         \<lparr>shape = (1, 2, 2), data = [False, False, False, False]\<rparr> = Inl ValueError"
proof -
  let ?v = "\<lparr>shape = (1, 2, 2), data = [False, False, False, False]\<rparr>"
  have h1: "well_shaped ?v" by code_simp
  have h2: "\<not> np_any ?v" by code_simp
  from bounding_box_empty_union_fails[OF h1 h1 h1 refl refl h2 h2 h2] h1 h2
  show ?thesis by blast
qed


section \<open>Properties of the Cropper\<close>

lemma tabulate_cong:
  "(\<And>x. in_bounds s x \<Longrightarrow> f x = g x) \<Longrightarrow> tabulate s f = tabulate s g"
  by (simp add: tabulate_def set_indices)

lemma map_array_tabulate: "map_array h (tabulate s f) = tabulate s (\<lambda>x. h (f x))"
  by (simp add: map_array_def tabulate_def)

lemma getitem_full: "in_bounds s x \<Longrightarrow> getitem (full s v) x = v"
  by (simp add: full_def getitem_tabulate)

lemma shape_full: "shape (full s v) = s"
  by (simp add: full_def shape_tabulate)

lemma slice_range_inside:
  "0 \<le> lo \<Longrightarrow> lo \<le> hi \<Longrightarrow> hi < int n \<Longrightarrow>
   slice_range n lo (hi + 1) = (nat lo, nat (hi - lo + 1))"
  by (auto simp: slice_range_def slice_bound_def)

lemma slice_range_all_but_last:
  "slice_range n 0 (- 1) = (0, n - 1)"
  by (auto simp: slice_range_def slice_bound_def)

lemma slice_range_prefix:
  "0 \<le> m \<Longrightarrow> nat m \<le> n \<Longrightarrow> slice_range n 0 m = (0, nat m)"
  by (auto simp: slice_range_def slice_bound_def)

lemma setslice_voxel_inside:
  fixes l0 l1 l2 :: nat and f :: "idx \<Rightarrow> real"
  assumes "i < l0 \<and> j < l1 \<and> k < l2"
  shows "(if 0 \<le> i \<and> i < 0 + l0 \<and> 0 \<le> j \<and> j < 0 + l1 \<and> 0 \<le> k \<and> k < 0 + l2
             then getitem (tabulate (l0, l1, l2) f)
                    (if l0 = 1 then 0 else i - 0, if l1 = 1 then 0 else j - 0,
                     if l2 = 1 then 0 else k - 0)
             else getitem (full (d0, d1, d2) 0) (i, j, k)) = f (i, j, k)"
proof -
  have e: "(if l0 = 1 then 0 else i - 0) = i" "(if l1 = 1 then 0 else j - 0) = j"
          "(if l2 = 1 then 0 else k - 0) = k" using assms by auto
  have "in_bounds (l0, l1, l2) (i, j, k)" using assms by (simp add: in_bounds_def)
  then have "getitem (tabulate (l0, l1, l2) f) (i, j, k) = f (i, j, k)"
    by (rule getitem_tabulate)
  moreover have "(0 \<le> i \<and> i < 0 + l0 \<and> 0 \<le> j \<and> j < 0 + l1 \<and> 0 \<le> k \<and> k < 0 + l2) = True"
    using assms by simp
  ultimately show ?thesis unfolding e by (simp only: if_True)
qed

lemma setslice_voxel_outside:
  fixes l0 l1 l2 :: nat and f :: "idx \<Rightarrow> real"
  assumes "\<not> (i < l0 \<and> j < l1 \<and> k < l2)" "in_bounds (d0, d1, d2) (i, j, k)"
  shows "(if 0 \<le> i \<and> i < 0 + l0 \<and> 0 \<le> j \<and> j < 0 + l1 \<and> 0 \<le> k \<and> k < 0 + l2
             then getitem (tabulate (l0, l1, l2) f)
                    (if l0 = 1 then 0 else i - 0, if l1 = 1 then 0 else j - 0,
                     if l2 = 1 then 0 else k - 0)
             else getitem (full (d0, d1, d2) 0) (i, j, k)) = 0"
proof -
  have "getitem (full (d0, d1, d2) (0::real)) (i, j, k) = 0"
    using assms(2) by (rule getitem_full)
  moreover have "(0 \<le> i \<and> i < 0 + l0 \<and> 0 \<le> j \<and> j < 0 + l1 \<and> 0 \<le> k \<and> k < 0 + l2) = False"
    using assms(1) by simp
  ultimately show ?thesis by (simp only: if_False)
qed

lemma crop_mask_inside:
  assumes sh: "shape msk = (n0, n1, n2)"
    and b0: "0 \<le> lo0" "lo0 \<le> hi0" "hi0 < int n0"
    and b1: "0 \<le> lo1" "lo1 \<le> hi1" "hi1 < int n1"
    and b2: "0 \<le> lo2" "lo2 \<le> hi2" "hi2 < int n2"
  shows "crop_mask msk (lo0, lo1, lo2) (hi0, hi1, hi2)
     = Inr (tabulate (nat (hi0 - lo0 + 2), nat (hi1 - lo1 + 2), nat (hi2 - lo2 + 2))
         (\<lambda>(i, j, k).
            if i < nat (hi0 - lo0 + 1) \<and> j < nat (hi1 - lo1 + 1) \<and> k < nat (hi2 - lo2 + 1)
            then of_bool (getitem msk (nat lo0 + i, nat lo1 + j, nat lo2 + k)) else 0))"
proof -
  let ?l0 = "nat (hi0 - lo0 + 1)" and ?l1 = "nat (hi1 - lo1 + 1)" and ?l2 = "nat (hi2 - lo2 + 1)"
  let ?d0 = "nat (hi0 - lo0 + 2)" and ?d1 = "nat (hi1 - lo1 + 2)" and ?d2 = "nat (hi2 - lo2 + 2)"
  let ?f = "\<lambda>(i, j, k). of_bool (getitem msk (nat lo0 + i, nat lo1 + j, nat lo2 + k)) :: real"
  have d: "?d0 - 1 = ?l0" "?d1 - 1 = ?l1" "?d2 - 1 = ?l2" using b0 b1 b2 by auto
  have src: "map_array of_bool (getslice msk (lo0, lo1, lo2) (hi0 + 1, hi1 + 1, hi2 + 1))
      = tabulate (?l0, ?l1, ?l2) ?f"
    using sh by (simp add: getslice_def slice_range_inside b0 b1 b2 map_array_tabulate
        split_def)
  have nn: "\<not> (hi0 - lo0 + 2 < 0 \<or> hi1 - lo1 + 2 < 0 \<or> hi2 - lo2 + 2 < 0)"
    using b0 b1 b2 by auto
  have t: "slice_range ?d0 0 (- 1) = (0, ?l0)" "slice_range ?d1 0 (- 1) = (0, ?l1)"
    "slice_range ?d2 0 (- 1) = (0, ?l2)"
    by (simp_all only: slice_range_all_but_last d)
  have raw: "setslice (full (?d0, ?d1, ?d2) 0) (0, 0, 0) (- 1, - 1, - 1) (tabulate (?l0, ?l1, ?l2) ?f)
      = Inr (tabulate (?d0, ?d1, ?d2) (\<lambda>(i, j, k).
             if 0 \<le> i \<and> i < 0 + ?l0 \<and> 0 \<le> j \<and> j < 0 + ?l1 \<and> 0 \<le> k \<and> k < 0 + ?l2
             then getitem (tabulate (?l0, ?l1, ?l2) ?f)
                    (if ?l0 = 1 then 0 else i - 0, if ?l1 = 1 then 0 else j - 0,
                     if ?l2 = 1 then 0 else k - 0)
             else getitem (full (?d0, ?d1, ?d2) 0) (i, j, k)))"
    unfolding setslice_def shape_full shape_tabulate prod.case t Let_def
    by (simp only: simp_thms if_True)
  have "setslice (full (?d0, ?d1, ?d2) 0) (0, 0, 0) (- 1, - 1, - 1) (tabulate (?l0, ?l1, ?l2) ?f)
      = Inr (tabulate (?d0, ?d1, ?d2)
         (\<lambda>(i, j, k). if i < ?l0 \<and> j < ?l1 \<and> k < ?l2 then ?f (i, j, k) else 0))"
  proof -
    have "tabulate (?d0, ?d1, ?d2) (\<lambda>(i, j, k).
             if 0 \<le> i \<and> i < 0 + ?l0 \<and> 0 \<le> j \<and> j < 0 + ?l1 \<and> 0 \<le> k \<and> k < 0 + ?l2
             then getitem (tabulate (?l0, ?l1, ?l2) ?f)
                    (if ?l0 = 1 then 0 else i - 0, if ?l1 = 1 then 0 else j - 0,
                     if ?l2 = 1 then 0 else k - 0)
             else getitem (full (?d0, ?d1, ?d2) 0) (i, j, k))
        = tabulate (?d0, ?d1, ?d2)
           (\<lambda>(i, j, k). if i < ?l0 \<and> j < ?l1 \<and> k < ?l2 then ?f (i, j, k) else 0)"
    proof (rule tabulate_cong)
      fix x assume x: "in_bounds (?d0, ?d1, ?d2) x"
      obtain i j k where xe: "x = (i, j, k)" by (cases x) auto
      show "(case x of (i, j, k) \<Rightarrow>
             if 0 \<le> i \<and> i < 0 + ?l0 \<and> 0 \<le> j \<and> j < 0 + ?l1 \<and> 0 \<le> k \<and> k < 0 + ?l2
             then getitem (tabulate (?l0, ?l1, ?l2) ?f)
                    (if ?l0 = 1 then 0 else i - 0, if ?l1 = 1 then 0 else j - 0,
                     if ?l2 = 1 then 0 else k - 0)
             else getitem (full (?d0, ?d1, ?d2) 0) (i, j, k))
          = (case x of (i, j, k) \<Rightarrow> if i < ?l0 \<and> j < ?l1 \<and> k < ?l2 then ?f (i, j, k) else 0)"
      proof (cases "i < ?l0 \<and> j < ?l1 \<and> k < ?l2")
        case True
        show ?thesis unfolding xe prod.case
          by (simp only: setslice_voxel_inside[OF True] True if_True simp_thms prod.case)
      next
        case False
        show ?thesis unfolding xe prod.case
          by (simp only: setslice_voxel_outside[OF False x[unfolded xe]] False if_False simp_thms prod.case)
      qed
    qed
    then show ?thesis by (simp only: raw)
  qed
  then show ?thesis
    unfolding crop_mask_def prod.case Let_def src by (simp only: nn if_False prod.case)
qed

text \<open>
  Claim C5, as amended.  For a bounding box within the bounds of the source volume,
  \<open>crop_mask\<close> returns a volume of shape \<open>(max - min) + 2\<close> per axis; its indices
  \<open>[0 .. len-1)\<close> along every axis, that is \<open>0\<close> to \<open>max - min\<close>, hold the source sub-volume
  \<open>[min .. max]\<close>, and the last slice along every axis is zero.
\<close>

theorem crop_mask_shape_and_padding:
  assumes sh: "shape msk = (n0, n1, n2)"
    and b0: "0 \<le> lo0" "lo0 \<le> hi0" "hi0 < int n0"
    and b1: "0 \<le> lo1" "lo1 \<le> hi1" "hi1 < int n1"
    and b2: "0 \<le> lo2" "lo2 \<le> hi2" "hi2 < int n2"
  shows "\<exists>c. crop_mask msk (lo0, lo1, lo2) (hi0, hi1, hi2) = Inr c
           \<and> well_shaped c
           \<and> shape c = (nat (hi0 - lo0 + 2), nat (hi1 - lo1 + 2), nat (hi2 - lo2 + 2))
           \<and> getslice c (0, 0, 0) (hi0 - lo0 + 1, hi1 - lo1 + 1, hi2 - lo2 + 1)
               = map_array of_bool (getslice msk (lo0, lo1, lo2) (hi0 + 1, hi1 + 1, hi2 + 1))
           \<and> (\<forall>i j k. int i \<le> hi0 - lo0 \<and> int j \<le> hi1 - lo1 \<and> int k \<le> hi2 - lo2 \<longrightarrow>
                  getitem c (i, j, k)
                    = of_bool (getitem msk (nat lo0 + i, nat lo1 + j, nat lo2 + k)))
           \<and> (\<forall>i j k. in_bounds (shape c) (i, j, k)
                    \<and> (int i = hi0 - lo0 + 1 \<or> int j = hi1 - lo1 + 1 \<or> int k = hi2 - lo2 + 1) \<longrightarrow>
                  getitem c (i, j, k) = 0)"
proof -
  let ?l0 = "nat (hi0 - lo0 + 1)" and ?l1 = "nat (hi1 - lo1 + 1)" and ?l2 = "nat (hi2 - lo2 + 1)"
  let ?d = "(nat (hi0 - lo0 + 2), nat (hi1 - lo1 + 2), nat (hi2 - lo2 + 2))"
  let ?g = "\<lambda>(i, j, k).
            if i < ?l0 \<and> j < ?l1 \<and> k < ?l2
            then of_bool (getitem msk (nat lo0 + i, nat lo1 + j, nat lo2 + k)) else (0::real)"
  let ?c = "tabulate ?d ?g"
  have c: "crop_mask msk (lo0, lo1, lo2) (hi0, hi1, hi2) = Inr ?c"
    using assms by (rule crop_mask_inside)
  have le: "?l0 \<le> nat (hi0 - lo0 + 2)" "?l1 \<le> nat (hi1 - lo1 + 2)" "?l2 \<le> nat (hi2 - lo2 + 2)"
    by auto
  have inner: "getitem ?c (i, j, k)
       = of_bool (getitem msk (nat lo0 + i, nat lo1 + j, nat lo2 + k))"
    if "i < ?l0" "j < ?l1" "k < ?l2" for i j k
  proof -
    have "in_bounds ?d (i, j, k)" using that le by (simp add: in_bounds_def)
    then have "getitem ?c (i, j, k) = ?g (i, j, k)" by (rule getitem_tabulate)
    then show ?thesis using that by simp
  qed
  have last: "getitem ?c (i, j, k) = 0"
    if "in_bounds ?d (i, j, k)" "\<not> (i < ?l0 \<and> j < ?l1 \<and> k < ?l2)" for i j k
  proof -
    have "getitem ?c (i, j, k) = ?g (i, j, k)" using that(1) by (rule getitem_tabulate)
    then show ?thesis using that(2) by auto
  qed
  have sl: "getslice ?c (0, 0, 0) (hi0 - lo0 + 1, hi1 - lo1 + 1, hi2 - lo2 + 1)
      = map_array of_bool (getslice msk (lo0, lo1, lo2) (hi0 + 1, hi1 + 1, hi2 + 1))"
  proof -
    have r: "slice_range (nat (hi0 - lo0 + 2)) 0 (hi0 - lo0 + 1) = (0, ?l0)"
      "slice_range (nat (hi1 - lo1 + 2)) 0 (hi1 - lo1 + 1) = (0, ?l1)"
      "slice_range (nat (hi2 - lo2 + 2)) 0 (hi2 - lo2 + 1) = (0, ?l2)"
      using b0 b1 b2 by (simp_all add: slice_range_prefix)
    have "getslice ?c (0, 0, 0) (hi0 - lo0 + 1, hi1 - lo1 + 1, hi2 - lo2 + 1)
        = tabulate (?l0, ?l1, ?l2) (\<lambda>(i, j, k). getitem ?c (0 + i, 0 + j, 0 + k))"
      unfolding getslice_def shape_tabulate prod.case r Let_def ..
    also have "\<dots> = tabulate (?l0, ?l1, ?l2)
        (\<lambda>(i, j, k). of_bool (getitem msk (nat lo0 + i, nat lo1 + j, nat lo2 + k)))"
      by (rule tabulate_cong) (auto simp: in_bounds_def inner)
    also have "\<dots> = map_array of_bool (getslice msk (lo0, lo1, lo2) (hi0 + 1, hi1 + 1, hi2 + 1))"
      using sh by (simp add: getslice_def slice_range_inside b0 b1 b2 map_array_tabulate
          split_def)
    finally show ?thesis .
  qed
  have p1: "\<forall>i j k. int i \<le> hi0 - lo0 \<and> int j \<le> hi1 - lo1 \<and> int k \<le> hi2 - lo2 \<longrightarrow>
                  getitem ?c (i, j, k)
                    = of_bool (getitem msk (nat lo0 + i, nat lo1 + j, nat lo2 + k))"
  proof (intro allI impI)
    fix i j k
    assume "int i \<le> hi0 - lo0 \<and> int j \<le> hi1 - lo1 \<and> int k \<le> hi2 - lo2"
    then have "i < ?l0" "j < ?l1" "k < ?l2" by auto
    then show "getitem ?c (i, j, k)
        = of_bool (getitem msk (nat lo0 + i, nat lo1 + j, nat lo2 + k))" by (rule inner)
  qed
  have p2: "\<forall>i j k. in_bounds (shape ?c) (i, j, k)
                    \<and> (int i = hi0 - lo0 + 1 \<or> int j = hi1 - lo1 + 1 \<or> int k = hi2 - lo2 + 1) \<longrightarrow>
                  getitem ?c (i, j, k) = 0"
  proof (intro allI impI)
    fix i j k
    assume a: "in_bounds (shape ?c) (i, j, k)
        \<and> (int i = hi0 - lo0 + 1 \<or> int j = hi1 - lo1 + 1 \<or> int k = hi2 - lo2 + 1)"
    then have "in_bounds ?d (i, j, k)" by (simp add: shape_tabulate)
    moreover have "\<not> (i < ?l0 \<and> j < ?l1 \<and> k < ?l2)" using a by auto
    ultimately show "getitem ?c (i, j, k) = 0" by (rule last)
  qed
  show ?thesis
    using c sl p1 p2 well_shaped_tabulate[of ?d ?g] shape_tabulate[of ?d ?g] by blast
qed

theorem crop_mask_shape_and_padding_witness:
  "shape \<lparr>shape = (1, 1, 2), data = [True, True]\<rparr> = (1, 1, 2)
   \<and> (0::int) \<le> 0 \<and> (0::int) < int 1 \<and> (0::int) \<le> 1 \<and> (1::int) < int 2
   \<and> (\<exists>c. crop_mask \<lparr>shape = (1, 1, 2), data = [True, True]\<rparr> (0, 0, 0) (0, 0, 1) = Inr c
          \<and> shape c = (2, 2, 3)
          \<and> getitem c (0, 0, 1) = 1
          \<and> getitem c (0, 0, 2) = 0)"
proof -
  let ?v = "\<lparr>shape = (1, 1, 2), data = [True, True]\<rparr>"
  have sh: "shape ?v = (1, 1, 2)" by simp
  have v1: "getitem ?v (0, 0, 1)" by code_simp
  from crop_mask_shape_and_padding[where msk = ?v and ?n0.0 = 1 and ?n1.0 = 1 and ?n2.0 = 2
      and ?lo0.0 = 0 and ?lo1.0 = 0 and ?lo2.0 = 0 and ?hi0.0 = 0 and ?hi1.0 = 0 and ?hi2.0 = 1, OF sh]
  obtain c where c: "crop_mask ?v (0, 0, 0) (0, 0, 1) = Inr c"
    and s: "shape c = (nat (0 - 0 + 2), nat (0 - 0 + 2), nat (1 - 0 + 2))"
    and inner: "\<forall>i j k. int i \<le> 0 - 0 \<and> int j \<le> 0 - 0 \<and> int k \<le> 1 - 0 \<longrightarrow>
        getitem c (i, j, k) = of_bool (getitem ?v (nat 0 + i, nat 0 + j, nat 0 + k))"
    and last: "\<forall>i j k. in_bounds (shape c) (i, j, k)
        \<and> (int i = 0 - 0 + 1 \<or> int j = 0 - 0 + 1 \<or> int k = 1 - 0 + 1) \<longrightarrow> getitem c (i, j, k) = 0"
    by auto
  have s': "shape c = (2, 2, 3)" using s by simp
  have "getitem c (0, 0, 1) = of_bool (getitem ?v (nat 0 + 0, nat 0 + 0, nat 0 + 1))"
    using inner by simp
  then have a: "getitem c (0, 0, 1) = 1" using v1 by simp
  have "in_bounds (shape c) (0, 0, 2)" using s' by (simp add: in_bounds_def)
  then have b: "getitem c (0, 0, 2) = 0" using last by simp
  show ?thesis using c s' a b by simp
qed

text \<open>
  C5 as stated gives the range \<open>[0 .. len-2)\<close>, which is one index short: for a volume of
  shape (1, 1, 2) and the box from (0, 0, 0) to (0, 0, 1) the crop has shape (2, 2, 3),
  the indices \<open>[0 .. len-2)\<close> select an array of shape (0, 0, 1) while the sub-volume has
  shape (1, 1, 2), and the voxel (0, 0, 1) of the crop, at index \<open>len-2\<close>, holds a source
  voxel.
\<close>

theorem crop_mask_claimed_range_counterexample: "crop_mask \<lparr>shape = (1, 1, 2), data = [True, True]\<rparr> (0, 0, 0) (0, 0, 1)
     = Inr \<lparr>shape = (2, 2, 3), data = [1, 1, 0, 0, 0, 0, 0, 0, 0, 0, 0, 0]\<rparr>
   \<and> getslice \<lparr>shape = (2, 2, 3), data = [1, 1, 0, 0, 0, 0, 0, 0, 0, 0, 0, 0::real]\<rparr>
        (0, 0, 0) (0, 0, 1) = \<lparr>shape = (0, 0, 1), data = []\<rparr>
   \<and> getslice \<lparr>shape = (1, 1, 2), data = [True, True]\<rparr> (0, 0, 0) (1, 1, 2)
       = \<lparr>shape = (1, 1, 2), data = [True, True]\<rparr>"
  by code_simp


section \<open>Shapes of the intermediate arrays\<close>

lemma shape_boundary_shell: "shape (boundary_shell v conn) = shape v"
  by (simp add: boundary_shell_def Let_def shape_zip_array)

lemma well_shaped_boundary_shell: "well_shaped v \<Longrightarrow> well_shaped (boundary_shell v conn)"
  by (simp add: boundary_shell_def Let_def well_shaped_zip_array well_shaped_binary_erosion
      shape_binary_erosion)

lemma well_shaped_full: "well_shaped (full s v)"
  by (simp add: full_def well_shaped_tabulate)

lemma shape_distance_transform_edt: "shape (distance_transform_edt e a sp) = shape a"
  by (simp add: distance_transform_edt_def Let_def shape_tabulate)

lemma well_shaped_distance_transform_edt: "well_shaped (distance_transform_edt e a sp)"
  by (simp add: distance_transform_edt_def Let_def well_shaped_tabulate)

lemma shape_invert: "shape (invert a) = shape a"
  by (simp add: invert_def shape_map_array)

lemma well_shaped_invert: "well_shaped a \<Longrightarrow> well_shaped (invert a)"
  by (simp add: invert_def well_shaped_map_array)

lemma shape_sign_mask: "shape (sign_mask a) = shape a"
  by (simp add: sign_mask_def shape_map_array)

lemma well_shaped_sign_mask: "well_shaped a \<Longrightarrow> well_shaped (sign_mask a)"
  by (simp add: sign_mask_def well_shaped_map_array)

lemma getitem_sign_mask:
  "well_shaped a \<Longrightarrow> in_bounds (shape a) x \<Longrightarrow> getitem (sign_mask a) x = (if getitem a x then 1 else - 1)"
  by (simp add: sign_mask_def getitem_map_array well_shaped_map_array shape_map_array)

lemma shape_times_mask: "shape (times_mask d m) = shape d"
  by (simp add: times_mask_def shape_zip_array)

lemma well_shaped_times_mask:
  "well_shaped d \<Longrightarrow> well_shaped m \<Longrightarrow> shape m = shape d \<Longrightarrow> well_shaped (times_mask d m)"
  by (simp add: times_mask_def well_shaped_zip_array)

lemma getitem_times_mask:
  "well_shaped d \<Longrightarrow> well_shaped m \<Longrightarrow> shape m = shape d \<Longrightarrow> in_bounds (shape d) x \<Longrightarrow>
   getitem (times_mask d m) x = Fin (getitem d x * of_int (getitem m x))"
  by (simp add: times_mask_def getitem_zip_array)

lemma shape_signed_distance_map:
  "shape b = shape v \<Longrightarrow> shape (fst (signed_distance_map e v b sp)) = shape v"
  by (simp add: signed_distance_map_def Let_def shape_times_mask shape_distance_transform_edt
      shape_invert shape_full)

lemma well_shaped_signed_distance_map:
  "well_shaped v \<Longrightarrow> shape b = shape v \<Longrightarrow> well_shaped (fst (signed_distance_map e v b sp))"
  by (simp add: signed_distance_map_def Let_def well_shaped_times_mask shape_distance_transform_edt
      shape_invert well_shaped_full well_shaped_distance_transform_edt well_shaped_sign_mask
      shape_sign_mask)

lemma snd_signed_distance_map:
  "snd (signed_distance_map e v b sp) = (if np_any b then Some (sign_mask v) else None)"
  by (simp add: signed_distance_map_def Let_def)

lemma shape_exclusion_distance_map: "shape (exclusion_distance_map e z sp conn) = shape z"
  by (simp add: exclusion_distance_map_def Let_def shape_times_mask shape_distance_transform_edt
      shape_invert shape_boundary_shell)

lemma well_shaped_exclusion_distance_map:
  "well_shaped z \<Longrightarrow> well_shaped (exclusion_distance_map e z sp conn)"
  by (simp add: exclusion_distance_map_def Let_def well_shaped_times_mask
      shape_distance_transform_edt shape_invert shape_boundary_shell shape_sign_mask
      well_shaped_distance_transform_edt well_shaped_sign_mask)

lemma crop_mask_Inr_shape:
  assumes "crop_mask m (lo0, lo1, lo2) (hi0, hi1, hi2) = Inr c"
  shows "well_shaped c \<and> shape c = (nat (hi0 - lo0 + 2), nat (hi1 - lo1 + 2), nat (hi2 - lo2 + 2))"
proof -
  let ?d = "(nat (hi0 - lo0 + 2), nat (hi1 - lo1 + 2), nat (hi2 - lo2 + 2))"
  have "setslice (full ?d 0) (0, 0, 0) (- 1, - 1, - 1)
          (map_array of_bool (getslice m (lo0, lo1, lo2) (hi0 + 1, hi1 + 1, hi2 + 1))) = Inr c"
    using assms by (simp add: crop_mask_def Let_def split: if_splits)
  then obtain f where "c = tabulate ?d f"
    unfolding setslice_def shape_full prod.case Let_def
    by (auto split: prod.splits if_splits)
  then show ?thesis by (simp add: well_shaped_tabulate shape_tabulate)
qed


section \<open>The stages of \<open>compute_distances\<close>\<close>

lemma shape_astype_bool: "shape (astype_bool a) = shape a"
  by (simp add: astype_bool_def shape_map_array)

lemma well_shaped_astype_bool: "well_shaped a \<Longrightarrow> well_shaped (astype_bool a)"
  by (simp add: astype_bool_def well_shaped_map_array)

lemma bind_err_Inr: "bind_err m f = Inr y \<longleftrightarrow> (\<exists>x. m = Inr x \<and> f x = Inr y)"
  by (cases m) (simp_all add: bind_err_def)

lemma crop_inputs_valid:
  assumes v: "valid_inputs mask_gt mask_pred exclusion_zone"
    and c: "crop_inputs mask_gt mask_pred exclusion_zone crop = Inr (g, p, z)"
  shows "valid_inputs g p z \<and> (z = None \<longleftrightarrow> exclusion_zone = None)"
proof (cases crop)
  case False
  then show ?thesis using v c by (simp add: crop_inputs_def)
next
  case True
  show ?thesis
  proof (cases exclusion_zone)
    case None
    from c True None obtain bmin bmax cg cp where
      "crop_mask mask_gt bmin bmax = Inr cg" "crop_mask mask_pred bmin bmax = Inr cp"
      "g = astype_bool cg" "p = astype_bool cp" "z = None"
      by (auto simp: crop_inputs_def bind_err_Inr)
    then show ?thesis
      using None crop_mask_Inr_shape[of mask_gt _ _ _ _ _ _ cg]
        crop_mask_Inr_shape[of mask_pred _ _ _ _ _ _ cp]
      by (cases bmin; cases bmax)
        (auto simp: valid_inputs_def shape_astype_bool well_shaped_astype_bool)
  next
    case (Some ez)
    from c True Some obtain bmin bmax cg cp cz where
      "crop_mask mask_gt bmin bmax = Inr cg" "crop_mask mask_pred bmin bmax = Inr cp"
      "crop_mask ez bmin bmax = Inr cz"
      "g = astype_bool cg" "p = astype_bool cp" "z = Some (astype_bool cz)"
      by (auto simp: crop_inputs_def bind_err_Inr)
    then show ?thesis
      using Some crop_mask_Inr_shape[of mask_gt _ _ _ _ _ _ cg]
        crop_mask_Inr_shape[of mask_pred _ _ _ _ _ _ cp]
        crop_mask_Inr_shape[of ez _ _ _ _ _ _ cz]
      by (cases bmin; cases bmax)
        (auto simp: valid_inputs_def shape_astype_bool well_shaped_astype_bool)
  qed
qed

lemma clear_where_same_shape:
  "shape m = shape a \<Longrightarrow> clear_where a m = Inr (zip_array (\<lambda>v m. v \<and> \<not> m) a m)"
  by (simp add: clear_where_def)

lemma exclusion_masker_None:
  "exclusion_masker e None bg bp sp conn exd = Inr (bg, bp, None, None)"
  by (simp add: exclusion_masker_def)

lemma exclusion_masker_Some:
  assumes "shape bg = shape ez" "shape bp = shape ez"
  shows "exclusion_masker e (Some ez) bg bp sp conn exd
     = Inr (zip_array (\<lambda>v m. v \<and> \<not> m) bg
              (map_array (\<lambda>d. fl_lt d (Fin exd)) (exclusion_distance_map e ez sp conn)),
            zip_array (\<lambda>v m. v \<and> \<not> m) bp
              (map_array (\<lambda>d. fl_lt d (Fin exd)) (exclusion_distance_map e ez sp conn)),
            Some (boundary_shell ez conn),
            Some (exclusion_distance_map e ez sp conn))"
  using assms
  by (simp add: exclusion_masker_def Let_def clear_where_same_shape shape_map_array
      shape_exclusion_distance_map bind_err_def)

lemma select_where_same_shape:
  "shape m = shape a \<Longrightarrow> select_where a m = Inr (map fst (filter snd (zip (data a) (data m))))"
  by (simp add: select_where_def)

lemma select_where_indices:
  assumes "well_shaped a" "well_shaped m" "shape m = shape a"
  shows "select_where a m = Inr (map (getitem a) (filter (getitem m) (indices (shape a))))"
proof -
  let ?xs = "indices (shape a)"
  have a: "data a = map (getitem a) ?xs" using assms(1) by (rule data_eq_map_getitem)
  have m: "data m = map (getitem m) ?xs"
    using data_eq_map_getitem[OF assms(2)] assms(3) by simp
  have "map fst (filter snd (zip (map f xs) (map g xs))) = map f (filter g xs)"
    for f :: "idx \<Rightarrow> 'a" and g xs
    by (induction xs) auto
  then have "map fst (filter snd (zip (data a) (data m))) = map (getitem a) (filter (getitem m) ?xs)"
    using a m by metis
  then show ?thesis using assms(3) by (simp add: select_where_same_shape)
qed

lemma bind_err_Inr_left: "bind_err (Inr x) f = f x"
  by (simp add: bind_err_def)

lemma compute_distances_unfold:
  assumes "crop_inputs mask_gt mask_pred exclusion_zone crop = Inr (g, p, z)"
  shows "compute_distances e mask_gt mask_pred exclusion_zone sp conn crop exd =
     bind_err (exclusion_masker e z (boundary_shell g conn) (boundary_shell p conn) sp conn exd)
       (\<lambda>(b_gt', b_pred', b_excl, dmap_excl).
          bind_err (select_where (fst (signed_distance_map e p (boundary_shell p conn) sp)) b_gt')
            (\<lambda>d_gt_to_pred.
          bind_err (select_where (fst (signed_distance_map e g (boundary_shell g conn) sp)) b_pred')
            (\<lambda>d_pred_to_gt.
            case snd (signed_distance_map e p (boundary_shell p conn) sp) of
              None \<Rightarrow> Inl UnboundLocalError
            | Some dmask \<Rightarrow>
                Inr \<lparr>distances_gt_to_pred = d_gt_to_pred,
                     distances_pred_to_gt = d_pred_to_gt,
                     borders_gt = b_gt',
                     borders_pred = b_pred',
                     distmap_gt = fst (signed_distance_map e g (boundary_shell g conn) sp),
                     distmap_pred = fst (signed_distance_map e p (boundary_shell p conn) sp),
                     distmask_pred = dmask,
                     border_exclusion = b_excl,
                     distmap_exclusion = dmap_excl\<rparr>)))"
  unfolding compute_distances_def assms bind_err_Inr_left prod.case
  by (simp add: Let_def split_def)

text \<open>The shells after the Exclusion Masker, for volumes of one shape.\<close>

lemma masked_shells:
  assumes "valid_inputs g p z"
  shows "\<exists>bg bp bx dx.
      exclusion_masker e z (boundary_shell g conn) (boundary_shell p conn) sp conn exd
        = Inr (bg, bp, bx, dx)
      \<and> shape bg = shape g \<and> shape bp = shape g
      \<and> (case z of
           None \<Rightarrow> bg = boundary_shell g conn \<and> bp = boundary_shell p conn
                   \<and> bx = None \<and> dx = None
         | Some zz \<Rightarrow>
             bg = zip_array (\<lambda>v m. v \<and> \<not> m) (boundary_shell g conn)
                    (map_array (\<lambda>d. fl_lt d (Fin exd)) (exclusion_distance_map e zz sp conn))
             \<and> bp = zip_array (\<lambda>v m. v \<and> \<not> m) (boundary_shell p conn)
                    (map_array (\<lambda>d. fl_lt d (Fin exd)) (exclusion_distance_map e zz sp conn))
             \<and> bx = Some (boundary_shell zz conn)
             \<and> dx = Some (exclusion_distance_map e zz sp conn))"
proof (cases z)
  case None
  then show ?thesis using assms
    by (simp add: exclusion_masker_None shape_boundary_shell valid_inputs_def)
next
  case (Some zz)
  have "shape (boundary_shell g conn) = shape zz" "shape (boundary_shell p conn) = shape zz"
    using assms Some by (simp_all add: valid_inputs_def shape_boundary_shell)
  from exclusion_masker_Some[OF this, of e sp conn exd] show ?thesis
    using Some assms by (simp add: shape_zip_array shape_boundary_shell valid_inputs_def)
qed

lemma compute_distances_result:
  assumes c: "crop_inputs mask_gt mask_pred exclusion_zone crop = Inr (g, p, z)"
    and v: "valid_inputs g p z"
  shows "\<exists>bg bp bx dx d1 d2.
      exclusion_masker e z (boundary_shell g conn) (boundary_shell p conn) sp conn exd
        = Inr (bg, bp, bx, dx)
      \<and> select_where (fst (signed_distance_map e p (boundary_shell p conn) sp)) bg = Inr d1
      \<and> select_where (fst (signed_distance_map e g (boundary_shell g conn) sp)) bp = Inr d2
      \<and> compute_distances e mask_gt mask_pred exclusion_zone sp conn crop exd =
          (if np_any (boundary_shell p conn) then
             Inr \<lparr>distances_gt_to_pred = d1,
                  distances_pred_to_gt = d2,
                  borders_gt = bg,
                  borders_pred = bp,
                  distmap_gt = fst (signed_distance_map e g (boundary_shell g conn) sp),
                  distmap_pred = fst (signed_distance_map e p (boundary_shell p conn) sp),
                  distmask_pred = sign_mask p,
                  border_exclusion = bx,
                  distmap_exclusion = dx\<rparr>
           else Inl UnboundLocalError)"
proof -
  from masked_shells[OF v, of e conn sp exd] obtain bg bp bx dx where
    m: "exclusion_masker e z (boundary_shell g conn) (boundary_shell p conn) sp conn exd
        = Inr (bg, bp, bx, dx)"
    and s: "shape bg = shape g" "shape bp = shape g"
    by blast
  have sg: "shape (fst (signed_distance_map e g (boundary_shell g conn) sp)) = shape g"
    by (simp add: shape_signed_distance_map shape_boundary_shell)
  have sp': "shape (fst (signed_distance_map e p (boundary_shell p conn) sp)) = shape g"
    using v by (simp add: shape_signed_distance_map shape_boundary_shell valid_inputs_def)
  obtain d1 where d1:
    "select_where (fst (signed_distance_map e p (boundary_shell p conn) sp)) bg = Inr d1"
    using s sp' by (simp add: select_where_def)
  obtain d2 where d2:
    "select_where (fst (signed_distance_map e g (boundary_shell g conn) sp)) bp = Inr d2"
    using s sg by (simp add: select_where_def)
  show ?thesis
    using m d1 d2 unfolding compute_distances_unfold[OF c]
    by (simp add: bind_err_def snd_signed_distance_map)
qed


section \<open>Properties of the distance transform\<close>

lemma np_any_iff:
  assumes "well_shaped a"
  shows "np_any a \<longleftrightarrow> (\<exists>x. in_bounds (shape a) x \<and> getitem a x)"
proof -
  have "np_any a \<longleftrightarrow> (\<exists>x \<in> set (indices (shape a)). getitem a x)"
    unfolding np_any_def data_eq_map_getitem[OF assms] by (simp add: list_ex_iff)
  then show ?thesis by (auto simp: set_indices)
qed

lemma getitem_invert:
  "well_shaped a \<Longrightarrow> in_bounds (shape a) x \<Longrightarrow> getitem (invert a) x = (\<not> getitem a x)"
  by (simp add: invert_def getitem_map_array)

lemma physical_distance_nonneg: "0 \<le> physical_distance sp x y"
  by (simp add: physical_distance_def split: prod.splits)

lemma physical_distance_self: "physical_distance sp x x = 0"
  by (simp add: physical_distance_def split: prod.splits)

text \<open>The background voxels of the distance transform's input, as a set.\<close>

lemma getitem_distance_transform_edt:
  assumes "in_bounds (shape a) x" "in_bounds (shape a) y" "\<not> getitem a y"
  shows "getitem (distance_transform_edt e a sp) x
     = Min (physical_distance sp x ` {y. in_bounds (shape a) y \<and> \<not> getitem a y})"
proof -
  let ?bg = "filter (\<lambda>y. \<not> getitem a y) (indices (shape a))"
  have s: "set ?bg = {y. in_bounds (shape a) y \<and> \<not> getitem a y}"
    by (auto simp: set_indices)
  then have "y \<in> set ?bg" using assms(2,3) by simp
  then have ne: "?bg \<noteq> []" by (metis empty_iff empty_set)
  have "getitem (distance_transform_edt e a sp) x
      = Min (set (map (physical_distance sp x) ?bg))"
    using ne assms(1) by (simp add: distance_transform_edt_def Let_def getitem_tabulate)
  then show ?thesis using s by simp
qed

lemma finite_in_bounds: "finite {y. in_bounds s y \<and> P y}"
proof -
  have "{y. in_bounds s y \<and> P y} \<subseteq> set (indices s)" by (auto simp: set_indices)
  then show ?thesis by (rule finite_subset) simp
qed

lemma edt_nonneg:
  assumes "in_bounds (shape a) x" "in_bounds (shape a) y" "\<not> getitem a y"
  shows "0 \<le> getitem (distance_transform_edt e a sp) x"
proof -
  let ?B = "{y. in_bounds (shape a) y \<and> \<not> getitem a y}"
  have "finite (physical_distance sp x ` ?B)" by (intro finite_imageI finite_in_bounds)
  moreover have "y \<in> ?B" using assms(2,3) by simp
  then have "physical_distance sp x ` ?B \<noteq> {}" by blast
  ultimately have "0 \<le> Min (physical_distance sp x ` ?B)"
    by (simp add: physical_distance_nonneg)
  then show ?thesis using getitem_distance_transform_edt[OF assms] by simp
qed

lemma edt_zero_on_background:
  assumes "in_bounds (shape a) x" "\<not> getitem a x"
  shows "getitem (distance_transform_edt e a sp) x = 0"
proof -
  let ?B = "{y. in_bounds (shape a) y \<and> \<not> getitem a y}"
  have f: "finite (physical_distance sp x ` ?B)" by (intro finite_imageI finite_in_bounds)
  have "physical_distance sp x x \<in> physical_distance sp x ` ?B" using assms by blast
  then have "Min (physical_distance sp x ` ?B) \<le> 0"
    using f physical_distance_self[of sp x] by (metis Min_le)
  moreover have "0 \<le> getitem (distance_transform_edt e a sp) x"
    by (rule edt_nonneg[OF assms(1) assms(1) assms(2)])
  ultimately show ?thesis using getitem_distance_transform_edt[OF assms(1) assms] by simp
qed

text \<open>The signed distance map of a region whose shell is not empty.\<close>

lemma getitem_signed_distance_map:
  assumes w: "well_shaped v" and x: "in_bounds (shape v) x" and a: "np_any (boundary_shell v conn)"
  shows "getitem (fst (signed_distance_map e v (boundary_shell v conn) sp)) x
     = Fin (getitem (distance_transform_edt e (invert (boundary_shell v conn)) sp) x
            * (if getitem v x then 1 else - 1))"
    and "0 \<le> getitem (distance_transform_edt e (invert (boundary_shell v conn)) sp) x"
    and "getitem (boundary_shell v conn) x
         \<Longrightarrow> getitem (distance_transform_edt e (invert (boundary_shell v conn)) sp) x = 0"
proof -
  let ?b = "boundary_shell v conn"
  let ?d = "distance_transform_edt e (invert ?b) sp"
  have wb: "well_shaped ?b" using w by (rule well_shaped_boundary_shell)
  have sb: "shape ?b = shape v" by (rule shape_boundary_shell)
  have sd: "shape ?d = shape v" by (simp add: shape_distance_transform_edt shape_invert sb)
  have "getitem (times_mask ?d (sign_mask v)) x = Fin (getitem ?d x * of_int (getitem (sign_mask v) x))"
    using w x sd by (intro getitem_times_mask)
      (simp_all add: well_shaped_distance_transform_edt well_shaped_sign_mask shape_sign_mask)
  then show "getitem (fst (signed_distance_map e v ?b sp)) x
     = Fin (getitem ?d x * (if getitem v x then 1 else - 1))"
    using a w x by (simp add: signed_distance_map_def Let_def getitem_sign_mask)
  from a obtain y where y: "in_bounds (shape ?b) y" "getitem ?b y"
    using np_any_iff[OF wb] by blast
  have xi: "in_bounds (shape (invert ?b)) x" using x by (simp add: shape_invert sb)
  have yi: "in_bounds (shape (invert ?b)) y" using y by (simp add: shape_invert)
  have ny: "\<not> getitem (invert ?b) y" using y wb by (simp add: getitem_invert)
  show "0 \<le> getitem ?d x" using xi yi ny by (rule edt_nonneg)
  show "getitem ?d x = 0" if "getitem ?b x"
  proof -
    have "\<not> getitem (invert ?b) x" using that wb x sb by (simp add: getitem_invert)
    with xi show ?thesis by (rule edt_zero_on_background)
  qed
qed


section \<open>Properties of the Distance Mapper\<close>

text \<open>
  Claim C1, as amended.  Whenever \<open>compute_distances\<close> returns, the signed distance map of a
  region whose boundary shell is not empty is \<open>\<ge> 0\<close> at every voxel inside the region,
  \<open>\<le> 0\<close> at every voxel outside it and \<open>0\<close> at every shell voxel; the returned sign mask is
  \<open>+1\<close> on the foreground and \<open>-1\<close> on the background.  The volumes \<open>g\<close> and \<open>p\<close> are the
  ones the maps are computed on: the inputs, cropped when \<open>crop\<close> is set.
\<close>

theorem signed_distance_sign:
  assumes v: "valid_inputs mask_gt mask_pred exclusion_zone"
    and c: "crop_inputs mask_gt mask_pred exclusion_zone crop = Inr (g, p, z)"
    and r: "compute_distances e mask_gt mask_pred exclusion_zone sp conn crop exd = Inr r"
    and x: "in_bounds (shape g) x"
  shows "(np_any (boundary_shell g conn) \<longrightarrow>
            (getitem g x \<longrightarrow> fl_le (Fin 0) (getitem (distmap_gt r) x))
          \<and> (\<not> getitem g x \<longrightarrow> fl_le (getitem (distmap_gt r) x) (Fin 0))
          \<and> (getitem (boundary_shell g conn) x \<longrightarrow> getitem (distmap_gt r) x = Fin 0))
       \<and> (getitem p x \<longrightarrow> fl_le (Fin 0) (getitem (distmap_pred r) x))
       \<and> (\<not> getitem p x \<longrightarrow> fl_le (getitem (distmap_pred r) x) (Fin 0))
       \<and> (getitem (boundary_shell p conn) x \<longrightarrow> getitem (distmap_pred r) x = Fin 0)
       \<and> getitem (distmask_pred r) x = (if getitem p x then 1 else - 1)"
proof -
  have v': "valid_inputs g p z" using crop_inputs_valid[OF v c] by simp
  then have wg: "well_shaped g" and wp: "well_shaped p" and sp: "shape p = shape g"
    by (simp_all add: valid_inputs_def)
  have xp: "in_bounds (shape p) x" using x sp by simp
  from compute_distances_result[OF c v', of e conn sp exd] r
  have ap: "np_any (boundary_shell p conn)"
    and dg: "distmap_gt r = fst (signed_distance_map e g (boundary_shell g conn) sp)"
    and dp: "distmap_pred r = fst (signed_distance_map e p (boundary_shell p conn) sp)"
    and dm: "distmask_pred r = sign_mask p"
    by (auto split: if_splits)
  have one: "(getitem m x \<longrightarrow> fl_le (Fin 0) (getitem (fst (signed_distance_map e m (boundary_shell m conn) sp)) x))
          \<and> (\<not> getitem m x \<longrightarrow> fl_le (getitem (fst (signed_distance_map e m (boundary_shell m conn) sp)) x) (Fin 0))
          \<and> (getitem (boundary_shell m conn) x \<longrightarrow>
               getitem (fst (signed_distance_map e m (boundary_shell m conn) sp)) x = Fin 0)"
    if "well_shaped m" "in_bounds (shape m) x" "np_any (boundary_shell m conn)" for m
    using getitem_signed_distance_map[OF that, of e sp] by simp
  show ?thesis
    using one[OF wg x] one[OF wp xp ap] dg dp dm getitem_sign_mask[OF wp xp] by simp
qed

text \<open>A volume of two voxels, the first one in the region, evaluated step by step.\<close>

lemma ex2_shell:
  "boundary_shell \<lparr>shape = (1, 1, 2), data = [True, False]\<rparr> 1
     = \<lparr>shape = (1, 1, 2), data = [True, False]\<rparr>"
  by code_simp

lemma ex2_indices: "indices (1, 1, 2) = [(0, 0, 0), (0, 0, 1)]"
  by code_simp

lemma ex2_edt:
  "distance_transform_edt undefined (invert \<lparr>shape = (1, 1, 2), data = [True, False]\<rparr>) (1, 1, 1)
     = \<lparr>shape = (1, 1, 2), data = [0, 1]\<rparr>"
  by (simp add: distance_transform_edt_def invert_def map_array_def ex2_indices getitem_def
      flat_index_def tabulate_def physical_distance_def Let_def del: One_nat_def)

lemma ex2_signed_distance_map:
  "signed_distance_map undefined \<lparr>shape = (1, 1, 2), data = [True, False]\<rparr>
       \<lparr>shape = (1, 1, 2), data = [True, False]\<rparr> (1, 1, 1)
     = (\<lparr>shape = (1, 1, 2), data = [Fin 0, Fin (- 1)]\<rparr>,
        Some \<lparr>shape = (1, 1, 2), data = [1, - 1]\<rparr>)"
  by (simp add: signed_distance_map_def np_any_def ex2_edt sign_mask_def times_mask_def
      map_array_def zip_array_def Let_def del: One_nat_def)

lemma ex2_compute_distances:
  "compute_distances undefined \<lparr>shape = (1, 1, 2), data = [True, False]\<rparr>
       \<lparr>shape = (1, 1, 2), data = [True, False]\<rparr> None (1, 1, 1) 1 False 5
     = Inr \<lparr>distances_gt_to_pred = [Fin 0],
            distances_pred_to_gt = [Fin 0],
            borders_gt = \<lparr>shape = (1, 1, 2), data = [True, False]\<rparr>,
            borders_pred = \<lparr>shape = (1, 1, 2), data = [True, False]\<rparr>,
            distmap_gt = \<lparr>shape = (1, 1, 2), data = [Fin 0, Fin (- 1)]\<rparr>,
            distmap_pred = \<lparr>shape = (1, 1, 2), data = [Fin 0, Fin (- 1)]\<rparr>,
            distmask_pred = \<lparr>shape = (1, 1, 2), data = [1, - 1]\<rparr>,
            border_exclusion = None,
            distmap_exclusion = None\<rparr>"
  by (simp add: compute_distances_def crop_inputs_def bind_err_def ex2_shell
      ex2_signed_distance_map exclusion_masker_def select_where_def Let_def del: One_nat_def)

theorem signed_distance_sign_witness:
  "valid_inputs \<lparr>shape = (1, 1, 2), data = [True, False]\<rparr>
       \<lparr>shape = (1, 1, 2), data = [True, False]\<rparr> None
   \<and> crop_inputs \<lparr>shape = (1, 1, 2), data = [True, False]\<rparr>
       \<lparr>shape = (1, 1, 2), data = [True, False]\<rparr> None False
       = Inr (\<lparr>shape = (1, 1, 2), data = [True, False]\<rparr>,
              \<lparr>shape = (1, 1, 2), data = [True, False]\<rparr>, None)
   \<and> in_bounds (shape \<lparr>shape = (1, 1, 2), data = [True, False]\<rparr>) (0, 0, 1)
   \<and> np_any (boundary_shell \<lparr>shape = (1, 1, 2), data = [True, False]\<rparr> 1)
   \<and> \<not> getitem \<lparr>shape = (1, 1, 2), data = [True, False]\<rparr> (0, 0, 1)
   \<and> (\<exists>r. compute_distances undefined \<lparr>shape = (1, 1, 2), data = [True, False]\<rparr>
              \<lparr>shape = (1, 1, 2), data = [True, False]\<rparr> None (1, 1, 1) 1 False 5 = Inr r
          \<and> fl_le (getitem (distmap_gt r) (0, 0, 1)) (Fin 0)
          \<and> fl_le (getitem (distmap_pred r) (0, 0, 1)) (Fin 0)
          \<and> getitem (distmask_pred r) (0, 0, 1) = - 1)"
proof -
  let ?a = "\<lparr>shape = (1, 1, 2), data = [True, False]\<rparr>"
  have h1: "valid_inputs ?a ?a None" by code_simp
  have h2: "crop_inputs ?a ?a None False = Inr (?a, ?a, None)" by (simp add: crop_inputs_def)
  have h4: "in_bounds (shape ?a) (0, 0, 1)" by code_simp
  have h5: "np_any (boundary_shell ?a 1)" by code_simp
  have h6: "\<not> getitem ?a (0, 0, 1)" by code_simp
  obtain r where h3: "compute_distances undefined ?a ?a None (1, 1, 1) 1 False 5 = Inr r"
    using ex2_compute_distances by blast
  from signed_distance_sign[OF h1 h2 h3 h4] h5 h6
  have "fl_le (getitem (distmap_gt r) (0, 0, 1)) (Fin 0)"
    and "fl_le (getitem (distmap_pred r) (0, 0, 1)) (Fin 0)"
    and "getitem (distmask_pred r) (0, 0, 1) = - 1"
    by simp_all
  then show ?thesis using h1 h2 h3 h4 h5 h6 by blast
qed

text \<open>
  C1 as stated has the signs the other way round.  With target and prediction both the
  first voxel of a volume of shape (1, 1, 2), the voxel (0, 0, 1) is outside the region
  and its distance is \<open>-1\<close>, which is not \<open>\<ge> 0\<close>; the sign mask is \<open>+1\<close> at the foreground
  voxel (0, 0, 0).
\<close>

theorem signed_distance_outside_negative_counterexample:
  "compute_distances undefined \<lparr>shape = (1, 1, 2), data = [True, False]\<rparr>
       \<lparr>shape = (1, 1, 2), data = [True, False]\<rparr> None (1, 1, 1) 1 False 5
     = Inr \<lparr>distances_gt_to_pred = [Fin 0],
            distances_pred_to_gt = [Fin 0],
            borders_gt = \<lparr>shape = (1, 1, 2), data = [True, False]\<rparr>,
            borders_pred = \<lparr>shape = (1, 1, 2), data = [True, False]\<rparr>,
            distmap_gt = \<lparr>shape = (1, 1, 2), data = [Fin 0, Fin (- 1)]\<rparr>,
            distmap_pred = \<lparr>shape = (1, 1, 2), data = [Fin 0, Fin (- 1)]\<rparr>,
            distmask_pred = \<lparr>shape = (1, 1, 2), data = [1, - 1]\<rparr>,
            border_exclusion = None,
            distmap_exclusion = None\<rparr>
   \<and> \<not> getitem \<lparr>shape = (1, 1, 2), data = [True, False]\<rparr> (0, 0, 1)
   \<and> getitem \<lparr>shape = (1, 1, 2), data = [Fin 0, Fin (- 1)]\<rparr> (0, 0, 1) = Fin (- 1)
   \<and> \<not> fl_le (Fin 0) (Fin (- 1))
   \<and> getitem \<lparr>shape = (1, 1, 2), data = [True, False]\<rparr> (0, 0, 0)
   \<and> getitem \<lparr>shape = (1, 1, 2), data = [1, - 1 :: int]\<rparr> (0, 0, 0) = 1"
  using ex2_compute_distances by (simp add: getitem_def flat_index_def)


section \<open>The degenerate surface\<close>

text \<open>A region that is not empty has a shell that is not empty.\<close>

lemma np_any_boundary_shell:
  assumes w: "well_shaped v" and a: "np_any v"
  shows "np_any (boundary_shell v conn)"
proof -
  let ?T = "{x. in_bounds (shape v) x \<and> getitem v x}"
  have fin: "finite ?T" by (rule finite_in_bounds)
  have ne: "?T \<noteq> {}" using a np_any_iff[OF w] by auto
  have f2: "finite (fst ` ?T)" using fin by simp
  have n2: "fst ` ?T \<noteq> {}" using ne by simp
  define i where "i = Min (fst ` ?T)"
  have "i \<in> fst ` ?T" unfolding i_def using f2 n2 by (rule Min_in)
  then obtain j k where m: "(i, j, k) \<in> ?T" by force
  have least: "i \<le> i'" if "i' \<in> fst ` ?T" for i'
    unfolding i_def using f2 that by (rule Min_le)
  from m have b: "in_bounds (shape v) (i, j, k)" and t: "getitem v (i, j, k)" by simp_all
  have left: "\<not> getitem_border v (int i + int 0 - 1, int j + int 1 - 1, int k + int 1 - 1) False"
  proof (cases "i = 0")
    case True
    then show ?thesis by (simp add: getitem_border_def split: prod.splits)
  next
    case False
    have "\<not> getitem v (i - 1, j, k)"
    proof
      assume g: "getitem v (i - 1, j, k)"
      have "in_bounds (shape v) (i - 1, j, k)"
        using b by (auto simp: in_bounds_def split: prod.splits)
      then have "(i - 1, j, k) \<in> ?T" using g by simp
      then have "i - 1 \<in> fst ` ?T" by force
      then have "i \<le> i - 1" by (rule least)
      then show False using False by simp
    qed
    moreover have "nat (int i + int 0 - 1) = i - 1" "nat (int j + int 1 - 1) = j"
      "nat (int k + int 1 - 1) = k" by simp_all
    ultimately show ?thesis
      using b False by (auto simp: getitem_border_def in_bounds_def split: prod.splits)
  qed
  have o: "(0, 1, 1) \<in> set (indices (3, 3, 3))" by (simp add: set_indices in_bounds_def)
  have "\<not> getitem (binary_erosion v (generate_binary_structure conn)) (i, j, k)"
  proof
    assume "getitem (binary_erosion v (generate_binary_structure conn)) (i, j, k)"
    then have "\<forall>(a, b, c) \<in> set (indices (3, 3, 3)).
          \<bar>int a - 1\<bar> + \<bar>int b - 1\<bar> + \<bar>int c - 1\<bar> \<le> (if conn < 1 then 1 else conn) \<longrightarrow>
          getitem_border v (int i + int a - 1, int j + int b - 1, int k + int c - 1) False"
      unfolding getitem_erosion[OF b] .
    from bspec[OF this o] left show False by (simp split: if_splits)
  qed
  then have "getitem (boundary_shell v conn) (i, j, k)"
    using t by (simp add: getitem_boundary_shell[OF w b])
  then show ?thesis
    using b np_any_iff[OF well_shaped_boundary_shell[OF w], of conn]
    by (auto simp: shape_boundary_shell)
qed

text \<open>
  Claim C3.  When the shell of the predicted region is empty, \<open>compute_distances\<close> does not
  return the sentinel map: building the result reads \<open>distmask_pred\<close>, which was never
  assigned, and the call ends with \<open>UnboundLocalError\<close>.  When only the shell of the target
  region is empty it returns, and \<open>distmap_gt\<close> is \<open>+infinity\<close> at every voxel.
\<close>

theorem degenerate_surface_sentinel:
  assumes v: "valid_inputs mask_gt mask_pred exclusion_zone"
    and c: "crop_inputs mask_gt mask_pred exclusion_zone crop = Inr (g, p, z)"
  shows "(\<not> np_any (boundary_shell p conn) \<longrightarrow>
            compute_distances e mask_gt mask_pred exclusion_zone sp conn crop exd
              = Inl UnboundLocalError)
       \<and> (np_any (boundary_shell p conn) \<and> \<not> np_any (boundary_shell g conn) \<longrightarrow>
            (\<exists>r. compute_distances e mask_gt mask_pred exclusion_zone sp conn crop exd = Inr r
                 \<and> distmap_gt r = full (shape g) PInf))"
proof -
  have v': "valid_inputs g p z" using crop_inputs_valid[OF v c] by simp
  from compute_distances_result[OF c v', of e conn sp exd]
  show ?thesis
    by (auto simp: signed_distance_map_def shape_boundary_shell)
qed

lemma ex2_empty_shell:
  "boundary_shell \<lparr>shape = (1, 1, 2), data = [False, False]\<rparr> 1
     = \<lparr>shape = (1, 1, 2), data = [False, False]\<rparr>"
  by code_simp

theorem degenerate_surface_sentinel_witness:
  "valid_inputs \<lparr>shape = (1, 1, 2), data = [True, False]\<rparr>
       \<lparr>shape = (1, 1, 2), data = [False, False]\<rparr> None
   \<and> crop_inputs \<lparr>shape = (1, 1, 2), data = [True, False]\<rparr>
       \<lparr>shape = (1, 1, 2), data = [False, False]\<rparr> None False
       = Inr (\<lparr>shape = (1, 1, 2), data = [True, False]\<rparr>,
              \<lparr>shape = (1, 1, 2), data = [False, False]\<rparr>, None)
   \<and> \<not> np_any (boundary_shell \<lparr>shape = (1, 1, 2), data = [False, False]\<rparr> 1)
   \<and> np_any (boundary_shell \<lparr>shape = (1, 1, 2), data = [True, False]\<rparr> 1)
   \<and> compute_distances undefined \<lparr>shape = (1, 1, 2), data = [True, False]\<rparr>
       \<lparr>shape = (1, 1, 2), data = [False, False]\<rparr> None (1, 1, 1) 1 False 5
       = Inl UnboundLocalError
   \<and> (\<exists>r. compute_distances undefined \<lparr>shape = (1, 1, 2), data = [False, False]\<rparr>
              \<lparr>shape = (1, 1, 2), data = [True, False]\<rparr> None (1, 1, 1) 1 False 5 = Inr r
          \<and> distmap_gt r = \<lparr>shape = (1, 1, 2), data = [PInf, PInf]\<rparr>)"
proof -
  let ?a = "\<lparr>shape = (1, 1, 2), data = [True, False]\<rparr>"
  let ?e = "\<lparr>shape = (1, 1, 2), data = [False, False]\<rparr>"
  have h1: "valid_inputs ?a ?e None" by code_simp
  have h1': "valid_inputs ?e ?a None" by code_simp
  have h2: "crop_inputs ?a ?e None False = Inr (?a, ?e, None)" by (simp add: crop_inputs_def)
  have h2': "crop_inputs ?e ?a None False = Inr (?e, ?a, None)" by (simp add: crop_inputs_def)
  have h3: "\<not> np_any (boundary_shell ?e 1)" by code_simp
  have h4: "np_any (boundary_shell ?a 1)" by code_simp
  have f: "full (shape ?e) PInf = \<lparr>shape = (1, 1, 2), data = [PInf, PInf]\<rparr>" by code_simp
  from degenerate_surface_sentinel[OF h1 h2, of 1 undefined "(1, 1, 1)" 5] h3
  have a: "compute_distances undefined ?a ?e None (1, 1, 1) 1 False 5 = Inl UnboundLocalError"
    by blast
  from degenerate_surface_sentinel[OF h1' h2', of 1 undefined "(1, 1, 1)" 5] h3 h4
  have b: "\<exists>r. compute_distances undefined ?e ?a None (1, 1, 1) 1 False 5 = Inr r
             \<and> distmap_gt r = \<lparr>shape = (1, 1, 2), data = [PInf, PInf]\<rparr>"
    unfolding f by blast
  show ?thesis using h1 h2 h3 h4 a b by blast
qed


section \<open>Properties of the Exclusion Masker\<close>

lemma getitem_cleared:
  assumes "well_shaped b" "well_shaped d" "shape d = shape b" "in_bounds (shape b) x"
  shows "getitem (zip_array (\<lambda>v m. v \<and> \<not> m) b (map_array (\<lambda>d. fl_lt d (Fin exd)) d)) x
     = (getitem b x \<and> \<not> fl_lt (getitem d x) (Fin exd))"
  using assms
  by (simp add: getitem_zip_array getitem_map_array well_shaped_map_array shape_map_array)

lemma getitem_exclusion_distance_map:
  assumes "well_shaped z" "in_bounds (shape z) x"
  shows "getitem (exclusion_distance_map e z sp conn) x
     = Fin (getitem (distance_transform_edt e (invert (boundary_shell z conn)) sp) x
            * (if getitem z x then 1 else - 1))"
proof -
  let ?d = "distance_transform_edt e (invert (boundary_shell z conn)) sp"
  have sd: "shape ?d = shape z"
    by (simp add: shape_distance_transform_edt shape_invert shape_boundary_shell)
  have "getitem (times_mask ?d (sign_mask z)) x = Fin (getitem ?d x * of_int (getitem (sign_mask z) x))"
    using assms sd by (intro getitem_times_mask)
      (simp_all add: well_shaped_distance_transform_edt well_shaped_sign_mask shape_sign_mask)
  then show ?thesis
    using assms by (simp add: exclusion_distance_map_def Let_def getitem_sign_mask)
qed

text \<open>
  Claim C2, as amended.  When an exclusion zone is supplied and \<open>compute_distances\<close> returns,
  a voxel of either boundary shell is cleared exactly when the exclusion zone's signed
  distance map at that voxel is below the exclusion distance, and no other voxel of a shell
  changes.  That map is the distance to the exclusion zone's shell, positive inside the
  zone and negative outside.  So, for a zone that is not empty and a positive exclusion
  distance, every shell voxel outside the zone is cleared, whatever its distance, and a
  shell voxel inside the zone is cleared exactly when its distance to the zone's shell is
  below the exclusion distance.
\<close>

theorem exclusion_masker_semantics:
  assumes v: "valid_inputs mask_gt mask_pred exclusion_zone"
    and c: "crop_inputs mask_gt mask_pred exclusion_zone crop = Inr (g, p, Some zz)"
    and r: "compute_distances e mask_gt mask_pred exclusion_zone sp conn crop exd = Inr r"
    and x: "in_bounds (shape g) x"
  shows "distmap_exclusion r = Some (exclusion_distance_map e zz sp conn)
       \<and> getitem (borders_gt r) x
           = (getitem (boundary_shell g conn) x
              \<and> \<not> fl_lt (getitem (exclusion_distance_map e zz sp conn) x) (Fin exd))
       \<and> getitem (borders_pred r) x
           = (getitem (boundary_shell p conn) x
              \<and> \<not> fl_lt (getitem (exclusion_distance_map e zz sp conn) x) (Fin exd))
       \<and> getitem (exclusion_distance_map e zz sp conn) x
           = Fin (getitem (distance_transform_edt e (invert (boundary_shell zz conn)) sp) x
                  * (if getitem zz x then 1 else - 1))
       \<and> (np_any zz \<longrightarrow>
            0 \<le> getitem (distance_transform_edt e (invert (boundary_shell zz conn)) sp) x)
       \<and> (np_any zz \<and> \<not> getitem zz x \<and> 0 < exd \<longrightarrow>
            \<not> getitem (borders_gt r) x \<and> \<not> getitem (borders_pred r) x)
       \<and> (getitem zz x \<longrightarrow>
            getitem (borders_gt r) x
              = (getitem (boundary_shell g conn) x
                 \<and> exd \<le> getitem (distance_transform_edt e (invert (boundary_shell zz conn)) sp) x)
          \<and> getitem (borders_pred r) x
              = (getitem (boundary_shell p conn) x
                 \<and> exd \<le> getitem (distance_transform_edt e (invert (boundary_shell zz conn)) sp) x))"
proof -
  let ?dm = "exclusion_distance_map e zz sp conn"
  let ?D = "getitem (distance_transform_edt e (invert (boundary_shell zz conn)) sp) x"
  have v': "valid_inputs g p (Some zz)" using crop_inputs_valid[OF v c] by simp
  then have wg: "well_shaped g" and wp: "well_shaped p" and sp: "shape p = shape g"
    and wz: "well_shaped zz" and sz: "shape zz = shape g"
    by (simp_all add: valid_inputs_def)
  have xz: "in_bounds (shape zz) x" using x sz by simp
  from masked_shells[OF v', of e conn sp exd] compute_distances_result[OF c v', of e conn sp exd] r
  have dx: "distmap_exclusion r = Some ?dm"
    and bg: "borders_gt r = zip_array (\<lambda>v m. v \<and> \<not> m) (boundary_shell g conn)
                (map_array (\<lambda>d. fl_lt d (Fin exd)) ?dm)"
    and bp: "borders_pred r = zip_array (\<lambda>v m. v \<and> \<not> m) (boundary_shell p conn)
                (map_array (\<lambda>d. fl_lt d (Fin exd)) ?dm)"
    by (auto split: if_splits)
  have g1: "getitem (borders_gt r) x
      = (getitem (boundary_shell g conn) x \<and> \<not> fl_lt (getitem ?dm x) (Fin exd))"
    unfolding bg using wg wz sz x
    by (intro getitem_cleared)
      (simp_all add: well_shaped_boundary_shell shape_boundary_shell
        well_shaped_exclusion_distance_map shape_exclusion_distance_map)
  have p1: "getitem (borders_pred r) x
      = (getitem (boundary_shell p conn) x \<and> \<not> fl_lt (getitem ?dm x) (Fin exd))"
    unfolding bp using wp wz sz sp x
    by (intro getitem_cleared)
      (simp_all add: well_shaped_boundary_shell shape_boundary_shell
        well_shaped_exclusion_distance_map shape_exclusion_distance_map)
  have val: "getitem ?dm x = Fin (?D * (if getitem zz x then 1 else - 1))"
    using wz xz by (rule getitem_exclusion_distance_map)
  have nonneg: "0 \<le> ?D" if "np_any zz"
    using getitem_signed_distance_map(2)[OF wz xz np_any_boundary_shell[OF wz that]] .
  show ?thesis
    using dx g1 p1 val nonneg by (auto simp: not_less)
qed

text \<open>
  A volume of three voxels: the exclusion zone is the first voxel, target and prediction
  are the last one, the exclusion distance is 1.
\<close>

lemma ex3_indices: "indices (1, 1, 3) = [(0, 0, 0), (0, 0, 1), (0, 0, 2)]"
  by code_simp

lemma ex3_zone_shell:
  "boundary_shell \<lparr>shape = (1, 1, 3), data = [True, False, False]\<rparr> 1
     = \<lparr>shape = (1, 1, 3), data = [True, False, False]\<rparr>"
  by code_simp

lemma ex3_region_shell:
  "boundary_shell \<lparr>shape = (1, 1, 3), data = [False, False, True]\<rparr> 1
     = \<lparr>shape = (1, 1, 3), data = [False, False, True]\<rparr>"
  by code_simp

lemma ex3_zone_edt:
  "distance_transform_edt undefined
       (invert \<lparr>shape = (1, 1, 3), data = [True, False, False]\<rparr>) (1, 1, 1)
     = \<lparr>shape = (1, 1, 3), data = [0, 1, 2]\<rparr>"
  by (simp add: distance_transform_edt_def invert_def map_array_def ex3_indices getitem_def
      flat_index_def tabulate_def physical_distance_def Let_def del: One_nat_def)

lemma ex3_region_edt:
  "distance_transform_edt undefined
       (invert \<lparr>shape = (1, 1, 3), data = [False, False, True]\<rparr>) (1, 1, 1)
     = \<lparr>shape = (1, 1, 3), data = [2, 1, 0]\<rparr>"
  by (simp add: distance_transform_edt_def invert_def map_array_def ex3_indices getitem_def
      flat_index_def tabulate_def physical_distance_def Let_def del: One_nat_def)

lemma ex3_region_signed_distance_map:
  "signed_distance_map undefined \<lparr>shape = (1, 1, 3), data = [False, False, True]\<rparr>
       \<lparr>shape = (1, 1, 3), data = [False, False, True]\<rparr> (1, 1, 1)
     = (\<lparr>shape = (1, 1, 3), data = [Fin (- 2), Fin (- 1), Fin 0]\<rparr>,
        Some \<lparr>shape = (1, 1, 3), data = [- 1, - 1, 1]\<rparr>)"
  by (simp add: signed_distance_map_def np_any_def ex3_region_edt sign_mask_def times_mask_def
      map_array_def zip_array_def Let_def del: One_nat_def)

lemma ex3_exclusion_distance_map:
  "exclusion_distance_map undefined \<lparr>shape = (1, 1, 3), data = [True, False, False]\<rparr> (1, 1, 1) 1
     = \<lparr>shape = (1, 1, 3), data = [Fin 0, Fin (- 1), Fin (- 2)]\<rparr>"
  by (simp add: exclusion_distance_map_def ex3_zone_shell ex3_zone_edt sign_mask_def times_mask_def
      map_array_def zip_array_def Let_def del: One_nat_def)

lemma ex3_compute_distances:
  "compute_distances undefined \<lparr>shape = (1, 1, 3), data = [False, False, True]\<rparr>
       \<lparr>shape = (1, 1, 3), data = [False, False, True]\<rparr>
       (Some \<lparr>shape = (1, 1, 3), data = [True, False, False]\<rparr>) (1, 1, 1) 1 False 1
     = Inr \<lparr>distances_gt_to_pred = [],
            distances_pred_to_gt = [],
            borders_gt = \<lparr>shape = (1, 1, 3), data = [False, False, False]\<rparr>,
            borders_pred = \<lparr>shape = (1, 1, 3), data = [False, False, False]\<rparr>,
            distmap_gt = \<lparr>shape = (1, 1, 3), data = [Fin (- 2), Fin (- 1), Fin 0]\<rparr>,
            distmap_pred = \<lparr>shape = (1, 1, 3), data = [Fin (- 2), Fin (- 1), Fin 0]\<rparr>,
            distmask_pred = \<lparr>shape = (1, 1, 3), data = [- 1, - 1, 1]\<rparr>,
            border_exclusion = Some \<lparr>shape = (1, 1, 3), data = [True, False, False]\<rparr>,
            distmap_exclusion = Some \<lparr>shape = (1, 1, 3), data = [Fin 0, Fin (- 1), Fin (- 2)]\<rparr>\<rparr>"
  by (simp add: compute_distances_def crop_inputs_def bind_err_def ex3_region_shell ex3_zone_shell
      ex3_region_signed_distance_map ex3_exclusion_distance_map exclusion_masker_def
      clear_where_def select_where_def map_array_def zip_array_def Let_def del: One_nat_def)

theorem exclusion_masker_semantics_witness:
  "valid_inputs \<lparr>shape = (1, 1, 3), data = [False, False, True]\<rparr>
       \<lparr>shape = (1, 1, 3), data = [False, False, True]\<rparr>
       (Some \<lparr>shape = (1, 1, 3), data = [True, False, False]\<rparr>)
   \<and> crop_inputs \<lparr>shape = (1, 1, 3), data = [False, False, True]\<rparr>
       \<lparr>shape = (1, 1, 3), data = [False, False, True]\<rparr>
       (Some \<lparr>shape = (1, 1, 3), data = [True, False, False]\<rparr>) False
       = Inr (\<lparr>shape = (1, 1, 3), data = [False, False, True]\<rparr>,
              \<lparr>shape = (1, 1, 3), data = [False, False, True]\<rparr>,
              Some \<lparr>shape = (1, 1, 3), data = [True, False, False]\<rparr>)
   \<and> in_bounds (shape \<lparr>shape = (1, 1, 3), data = [False, False, True]\<rparr>) (0, 0, 2)
   \<and> np_any \<lparr>shape = (1, 1, 3), data = [True, False, False]\<rparr>
   \<and> \<not> getitem \<lparr>shape = (1, 1, 3), data = [True, False, False]\<rparr> (0, 0, 2)
   \<and> (0::real) < 1
   \<and> (\<exists>r. compute_distances undefined \<lparr>shape = (1, 1, 3), data = [False, False, True]\<rparr>
              \<lparr>shape = (1, 1, 3), data = [False, False, True]\<rparr>
              (Some \<lparr>shape = (1, 1, 3), data = [True, False, False]\<rparr>) (1, 1, 1) 1 False 1 = Inr r
          \<and> \<not> getitem (borders_gt r) (0, 0, 2)
          \<and> \<not> getitem (borders_pred r) (0, 0, 2))"
proof -
  let ?g = "\<lparr>shape = (1, 1, 3), data = [False, False, True]\<rparr>"
  let ?z = "\<lparr>shape = (1, 1, 3), data = [True, False, False]\<rparr>"
  have h1: "valid_inputs ?g ?g (Some ?z)" by code_simp
  have h2: "crop_inputs ?g ?g (Some ?z) False = Inr (?g, ?g, Some ?z)"
    by (simp add: crop_inputs_def)
  have h4: "in_bounds (shape ?g) (0, 0, 2)" by code_simp
  have h5: "np_any ?z" by code_simp
  have h6: "\<not> getitem ?z (0, 0, 2)" by code_simp
  have h7: "(0::real) < 1" by simp
  obtain r where h3: "compute_distances undefined ?g ?g (Some ?z) (1, 1, 1) 1 False 1 = Inr r"
    using ex3_compute_distances by blast
  from exclusion_masker_semantics[OF h1 h2 h3 h4] h5 h6 h7
  have "\<not> getitem (borders_gt r) (0, 0, 2)" and "\<not> getitem (borders_pred r) (0, 0, 2)"
    by blast+
  then show ?thesis using h1 h2 h3 h4 h5 h6 h7 by blast
qed

text \<open>
  C2 as stated reads the threshold as a distance on either side of the exclusion zone's
  boundary.  In the volume above the shell voxel (0, 0, 2) is at distance 2 from that
  boundary, which is not below the exclusion distance 1, and it is cleared all the same:
  it lies outside the zone, where the signed map is \<open>-2\<close>.
\<close>

theorem exclusion_masker_far_voxel_counterexample:
  "compute_distances undefined \<lparr>shape = (1, 1, 3), data = [False, False, True]\<rparr>
       \<lparr>shape = (1, 1, 3), data = [False, False, True]\<rparr>
       (Some \<lparr>shape = (1, 1, 3), data = [True, False, False]\<rparr>) (1, 1, 1) 1 False 1
     = Inr \<lparr>distances_gt_to_pred = [],
            distances_pred_to_gt = [],
            borders_gt = \<lparr>shape = (1, 1, 3), data = [False, False, False]\<rparr>,
            borders_pred = \<lparr>shape = (1, 1, 3), data = [False, False, False]\<rparr>,
            distmap_gt = \<lparr>shape = (1, 1, 3), data = [Fin (- 2), Fin (- 1), Fin 0]\<rparr>,
            distmap_pred = \<lparr>shape = (1, 1, 3), data = [Fin (- 2), Fin (- 1), Fin 0]\<rparr>,
            distmask_pred = \<lparr>shape = (1, 1, 3), data = [- 1, - 1, 1]\<rparr>,
            border_exclusion = Some \<lparr>shape = (1, 1, 3), data = [True, False, False]\<rparr>,
            distmap_exclusion = Some \<lparr>shape = (1, 1, 3), data = [Fin 0, Fin (- 1), Fin (- 2)]\<rparr>\<rparr>
   \<and> getitem (boundary_shell \<lparr>shape = (1, 1, 3), data = [False, False, True]\<rparr> 1) (0, 0, 2)
   \<and> getitem (distance_transform_edt undefined
         (invert (boundary_shell \<lparr>shape = (1, 1, 3), data = [True, False, False]\<rparr> 1)) (1, 1, 1))
         (0, 0, 2) = 2
   \<and> \<not> (2::real) < 1"
proof -
  have a: "getitem (boundary_shell \<lparr>shape = (1, 1, 3), data = [False, False, True]\<rparr> 1) (0, 0, 2)"
    by code_simp
  have b: "getitem (distance_transform_edt undefined
         (invert (boundary_shell \<lparr>shape = (1, 1, 3), data = [True, False, False]\<rparr> 1)) (1, 1, 1))
         (0, 0, 2) = 2"
    unfolding ex3_zone_shell ex3_zone_edt by (simp add: getitem_def flat_index_def)
  show ?thesis using ex3_compute_distances a b by simp
qed


section \<open>The stages under a swap of target and prediction\<close>

lemma map2_or_commute: "map2 (\<or>) xs ys = map2 (\<or>) ys xs"
proof (induction xs arbitrary: ys)
  case Nil
  show ?case by simp
next
  case (Cons x xs)
  then show ?case by (cases ys) auto
qed

lemma map2_or_absorb: "map2 (\<or>) (map2 (\<or>) xs ys) xs = map2 (\<or>) xs ys"
proof (induction xs arbitrary: ys)
  case Nil
  show ?case by simp
next
  case (Cons x xs)
  then show ?case by (cases ys) auto
qed

lemma zip_array_or_commute: "shape b = shape a \<Longrightarrow> zip_array (\<or>) b a = zip_array (\<or>) a b"
  by (simp add: zip_array_def map2_or_commute[of "data b"])

lemma compute_bounding_box_swap:
  "compute_bounding_box mask_pred mask_gt ez = compute_bounding_box mask_gt mask_pred ez"
proof (cases "shape mask_pred = shape mask_gt")
  case True
  then have "logical_or mask_pred mask_gt = logical_or mask_gt mask_pred"
    by (simp add: logical_or_def zip_array_or_commute)
  then show ?thesis by (simp add: compute_bounding_box_def)
next
  case False
  then have "logical_or mask_pred mask_gt = Inl ValueError" "logical_or mask_gt mask_pred = Inl ValueError"
    by (auto simp: logical_or_def)
  then show ?thesis by (simp add: compute_bounding_box_def bind_err_def)
qed

lemma compute_bounding_box_swap_self:
  "compute_bounding_box mask_pred mask_gt mask_pred = compute_bounding_box mask_gt mask_pred mask_gt"
proof (cases "shape mask_pred = shape mask_gt")
  case True
  have "map2 (\<or>) (map2 (\<or>) (data mask_pred) (data mask_gt)) (data mask_pred)
      = map2 (\<or>) (data mask_pred) (data mask_gt)"
    by (rule map2_or_absorb)
  also have "\<dots> = map2 (\<or>) (data mask_gt) (data mask_pred)"
    by (rule map2_or_commute)
  finally have a: "map2 (\<or>) (map2 (\<or>) (data mask_pred) (data mask_gt)) (data mask_pred)
      = map2 (\<or>) (data mask_gt) (data mask_pred)" .
  have b: "map2 (\<or>) (map2 (\<or>) (data mask_gt) (data mask_pred)) (data mask_gt)
      = map2 (\<or>) (data mask_gt) (data mask_pred)"
    by (rule map2_or_absorb)
  have "zip_array (\<or>) (zip_array (\<or>) mask_pred mask_gt) mask_pred
      = zip_array (\<or>) (zip_array (\<or>) mask_gt mask_pred) mask_gt"
    unfolding zip_array_def using True a b by simp
  then have "bind_err (logical_or mask_pred mask_gt) (\<lambda>m. logical_or m mask_pred)
      = bind_err (logical_or mask_gt mask_pred) (\<lambda>m. logical_or m mask_gt)"
    using True by (simp add: logical_or_def bind_err_def shape_zip_array)
  moreover have "compute_bounding_box a b c
      = bind_err (bind_err (logical_or a b) (\<lambda>m. logical_or m c))
          (\<lambda>mask_all.
     bind_err (max_projection mask_all 0) (\<lambda>proj_0.
     bind_err (amin (nonzero proj_0)) (\<lambda>min_0.
     bind_err (amax (nonzero proj_0)) (\<lambda>max_0.
     bind_err (max_projection mask_all 1) (\<lambda>proj_1.
     bind_err (amin (nonzero proj_1)) (\<lambda>min_1.
     bind_err (amax (nonzero proj_1)) (\<lambda>max_1.
     bind_err (max_projection mask_all 2) (\<lambda>proj_2.
     bind_err (amin (nonzero proj_2)) (\<lambda>min_2.
     bind_err (amax (nonzero proj_2)) (\<lambda>max_2.
     Inr ((int min_0, int min_1, int min_2), (int max_0, int max_1, int max_2))))))))))))"
    for a b c
    unfolding compute_bounding_box_def
    by (cases "logical_or a b") (simp_all add: bind_err_def)
  ultimately show ?thesis by simp
next
  case False
  then have "logical_or mask_pred mask_gt = Inl ValueError" "logical_or mask_gt mask_pred = Inl ValueError"
    by (auto simp: logical_or_def)
  then show ?thesis by (simp add: compute_bounding_box_def bind_err_def)
qed

lemma crop_inputs_swap:
  assumes "crop_inputs mask_gt mask_pred exclusion_zone crop = Inr (g, p, z)"
  shows "crop_inputs mask_pred mask_gt exclusion_zone crop = Inr (p, g, z)"
proof (cases crop)
  case False
  then show ?thesis using assms by (simp add: crop_inputs_def)
next
  case True
  show ?thesis
  proof (cases exclusion_zone)
    case None
    from assms True None obtain bmin bmax cg cp where
      "compute_bounding_box mask_gt mask_pred mask_gt = Inr (bmin, bmax)"
      "crop_mask mask_gt bmin bmax = Inr cg" "crop_mask mask_pred bmin bmax = Inr cp"
      "g = astype_bool cg" "p = astype_bool cp" "z = None"
      by (auto simp: crop_inputs_def bind_err_Inr)
    then show ?thesis using True None
      by (simp add: crop_inputs_def compute_bounding_box_swap_self bind_err_Inr_left)
  next
    case (Some ez)
    from assms True Some obtain bmin bmax cg cp cz where
      "compute_bounding_box mask_gt mask_pred ez = Inr (bmin, bmax)"
      "crop_mask mask_gt bmin bmax = Inr cg" "crop_mask mask_pred bmin bmax = Inr cp"
      "crop_mask ez bmin bmax = Inr cz"
      "g = astype_bool cg" "p = astype_bool cp" "z = Some (astype_bool cz)"
      by (auto simp: crop_inputs_def bind_err_Inr)
    then show ?thesis using True Some
      by (simp add: crop_inputs_def compute_bounding_box_swap bind_err_Inr_left)
  qed
qed

lemma exclusion_masker_swap:
  assumes "exclusion_masker e z a b sp conn exd = Inr (a', b', bx, dx)"
  shows "exclusion_masker e z b a sp conn exd = Inr (b', a', bx, dx)"
proof (cases z)
  case None
  then show ?thesis using assms by (simp add: exclusion_masker_def)
next
  case (Some zz)
  then show ?thesis using assms
    by (auto simp: exclusion_masker_def Let_def bind_err_Inr)
qed

lemma valid_inputs_swap:
  "valid_inputs mask_gt mask_pred ez \<Longrightarrow> valid_inputs mask_pred mask_gt ez"
  by (auto simp: valid_inputs_def split: option.splits)


text \<open>The two-voxel volume again, with a prediction that fills it.\<close>

lemma ex2_full_shell:
  "boundary_shell \<lparr>shape = (1, 1, 2), data = [True, True]\<rparr> 1
     = \<lparr>shape = (1, 1, 2), data = [True, True]\<rparr>"
  by code_simp

lemma ex2_full_edt:
  "distance_transform_edt undefined (invert \<lparr>shape = (1, 1, 2), data = [True, True]\<rparr>) (1, 1, 1)
     = \<lparr>shape = (1, 1, 2), data = [0, 0]\<rparr>"
  by (simp add: distance_transform_edt_def invert_def map_array_def ex2_indices getitem_def
      flat_index_def tabulate_def physical_distance_def Let_def del: One_nat_def)

lemma ex2_full_signed_distance_map:
  "signed_distance_map undefined \<lparr>shape = (1, 1, 2), data = [True, True]\<rparr>
       \<lparr>shape = (1, 1, 2), data = [True, True]\<rparr> (1, 1, 1)
     = (\<lparr>shape = (1, 1, 2), data = [Fin 0, Fin 0]\<rparr>,
        Some \<lparr>shape = (1, 1, 2), data = [1, 1]\<rparr>)"
  by (simp add: signed_distance_map_def np_any_def ex2_full_edt sign_mask_def times_mask_def
      map_array_def zip_array_def Let_def del: One_nat_def)

lemma ex2_part_full:
  "compute_distances undefined \<lparr>shape = (1, 1, 2), data = [True, False]\<rparr>
       \<lparr>shape = (1, 1, 2), data = [True, True]\<rparr> None (1, 1, 1) 1 False 5
     = Inr \<lparr>distances_gt_to_pred = [Fin 0],
            distances_pred_to_gt = [Fin 0, Fin (- 1)],
            borders_gt = \<lparr>shape = (1, 1, 2), data = [True, False]\<rparr>,
            borders_pred = \<lparr>shape = (1, 1, 2), data = [True, True]\<rparr>,
            distmap_gt = \<lparr>shape = (1, 1, 2), data = [Fin 0, Fin (- 1)]\<rparr>,
            distmap_pred = \<lparr>shape = (1, 1, 2), data = [Fin 0, Fin 0]\<rparr>,
            distmask_pred = \<lparr>shape = (1, 1, 2), data = [1, 1]\<rparr>,
            border_exclusion = None,
            distmap_exclusion = None\<rparr>"
  by (simp add: compute_distances_def crop_inputs_def bind_err_def ex2_shell ex2_full_shell
      ex2_signed_distance_map ex2_full_signed_distance_map exclusion_masker_def select_where_def
      Let_def del: One_nat_def)

lemma ex2_full_part:
  "compute_distances undefined \<lparr>shape = (1, 1, 2), data = [True, True]\<rparr>
       \<lparr>shape = (1, 1, 2), data = [True, False]\<rparr> None (1, 1, 1) 1 False 5
     = Inr \<lparr>distances_gt_to_pred = [Fin 0, Fin (- 1)],
            distances_pred_to_gt = [Fin 0],
            borders_gt = \<lparr>shape = (1, 1, 2), data = [True, True]\<rparr>,
            borders_pred = \<lparr>shape = (1, 1, 2), data = [True, False]\<rparr>,
            distmap_gt = \<lparr>shape = (1, 1, 2), data = [Fin 0, Fin 0]\<rparr>,
            distmap_pred = \<lparr>shape = (1, 1, 2), data = [Fin 0, Fin (- 1)]\<rparr>,
            distmask_pred = \<lparr>shape = (1, 1, 2), data = [1, - 1]\<rparr>,
            border_exclusion = None,
            distmap_exclusion = None\<rparr>"
  by (simp add: compute_distances_def crop_inputs_def bind_err_def ex2_shell ex2_full_shell
      ex2_signed_distance_map ex2_full_signed_distance_map exclusion_masker_def select_where_def
      Let_def del: One_nat_def)


section \<open>Correctness of the bounding box\<close>

lemma amin_Inr: "amin xs = Inr m \<longleftrightarrow> xs \<noteq> [] \<and> m = Min (set xs)"
  by (cases xs) (auto simp: Min.set_eq_fold[symmetric] simp del: set_simps)

lemma amax_Inr: "amax xs = Inr m \<longleftrightarrow> xs \<noteq> [] \<and> m = Max (set xs)"
  by (cases xs) (auto simp: Max.set_eq_fold[symmetric] simp del: set_simps)

lemma amin_nonempty: "xs \<noteq> [] \<Longrightarrow> amin xs = Inr (Min (set xs))"
  by (simp add: amin_Inr)

lemma amax_nonempty: "xs \<noteq> [] \<Longrightarrow> amax xs = Inr (Max (set xs))"
  by (simp add: amax_Inr)

lemma amin_empty: "amin [] = Inl ValueError" and amax_empty: "amax [] = Inl ValueError"
  by simp_all

lemma nonzero_map: "nonzero (map f [0..<n]) = filter f [0..<n]"
  by (auto simp: nonzero_def intro: filter_cong)

lemma getitem_union:
  assumes "well_shaped a" "well_shaped b" "well_shaped c" "shape b = shape a" "shape c = shape a"
    and "in_bounds (shape a) x"
  shows "getitem (zip_array (\<or>) (zip_array (\<or>) a b) c) x
     = (getitem a x \<or> getitem b x \<or> getitem c x)"
  using assms
  by (simp add: getitem_zip_array well_shaped_zip_array shape_zip_array)

text \<open>
  The indices along each axis at which the union of the three volumes has a voxel.
\<close>

lemma compute_bounding_box_unfold:
  assumes w: "well_shaped a" "well_shaped b" "well_shaped c"
    and s: "shape a = (n0, n1, n2)" "shape b = shape a" "shape c = shape a"
    and pos: "0 < n0" "0 < n1" "0 < n2"
  shows "compute_bounding_box a b c =
     bind_err (amin (filter (\<lambda>i. \<exists>j<n1. \<exists>k<n2. getitem a (i, j, k) \<or> getitem b (i, j, k) \<or> getitem c (i, j, k)) [0..<n0])) (\<lambda>min_0.
     bind_err (amax (filter (\<lambda>i. \<exists>j<n1. \<exists>k<n2. getitem a (i, j, k) \<or> getitem b (i, j, k) \<or> getitem c (i, j, k)) [0..<n0])) (\<lambda>max_0.
     bind_err (amin (filter (\<lambda>j. \<exists>i<n0. \<exists>k<n2. getitem a (i, j, k) \<or> getitem b (i, j, k) \<or> getitem c (i, j, k)) [0..<n1])) (\<lambda>min_1.
     bind_err (amax (filter (\<lambda>j. \<exists>i<n0. \<exists>k<n2. getitem a (i, j, k) \<or> getitem b (i, j, k) \<or> getitem c (i, j, k)) [0..<n1])) (\<lambda>max_1.
     bind_err (amin (filter (\<lambda>k. \<exists>i<n0. \<exists>j<n1. getitem a (i, j, k) \<or> getitem b (i, j, k) \<or> getitem c (i, j, k)) [0..<n2])) (\<lambda>min_2.
     bind_err (amax (filter (\<lambda>k. \<exists>i<n0. \<exists>j<n1. getitem a (i, j, k) \<or> getitem b (i, j, k) \<or> getitem c (i, j, k)) [0..<n2])) (\<lambda>max_2.
     Inr ((int min_0, int min_1, int min_2), (int max_0, int max_1, int max_2))))))))"
proof -
  let ?u = "zip_array (\<or>) (zip_array (\<or>) a b) c"
  let ?U = "\<lambda>x. getitem a x \<or> getitem b x \<or> getitem c x"
  have su: "shape ?u = (n0, n1, n2)" using s by (simp add: shape_zip_array)
  have u: "getitem ?u (i, j, k) = ?U (i, j, k)" if "i < n0" "j < n1" "k < n2" for i j k
    using getitem_union[OF w s(2,3), of "(i, j, k)"] that s(1) by (simp add: in_bounds_def)
  have o: "logical_or a b = Inr (zip_array (\<or>) a b)" "logical_or (zip_array (\<or>) a b) c = Inr ?u"
    using s by (simp_all add: logical_or_def shape_zip_array)
  have ex: "list_ex P [0..<n] = (\<exists>i<n. P i)" for P and n :: nat
    by (auto simp: list_ex_iff)
  have e0: "(\<exists>j<n1. \<exists>k<n2. getitem ?u (i, j, k)) = (\<exists>j<n1. \<exists>k<n2. ?U (i, j, k))"
    if "i < n0" for i using u[OF that] by (simp cong: conj_cong)
  have e1: "(\<exists>i<n0. \<exists>k<n2. getitem ?u (i, j, k)) = (\<exists>i<n0. \<exists>k<n2. ?U (i, j, k))"
    if "j < n1" for j using u[OF _ that] by (simp cong: conj_cong)
  have e2: "(\<exists>i<n0. \<exists>j<n1. getitem ?u (i, j, k)) = (\<exists>i<n0. \<exists>j<n1. ?U (i, j, k))"
    if "k < n2" for k using u[OF _ _ that] by (simp cong: conj_cong)
  have p0: "max_projection ?u 0 = Inr (map (\<lambda>i. \<exists>j<n1. \<exists>k<n2. ?U (i, j, k)) [0..<n0])"
    unfolding max_projection_def su prod.case ex using pos e0 by simp
  have p1: "max_projection ?u 1 = Inr (map (\<lambda>j. \<exists>i<n0. \<exists>k<n2. ?U (i, j, k)) [0..<n1])"
    unfolding max_projection_def su prod.case ex using pos e1 by simp
  have p2: "max_projection ?u 2 = Inr (map (\<lambda>k. \<exists>i<n0. \<exists>j<n1. ?U (i, j, k)) [0..<n2])"
    unfolding max_projection_def su prod.case ex using pos e2 by simp
  show ?thesis
    unfolding compute_bounding_box_def o p0 p1 p2 bind_err_Inr_left nonzero_map ..
qed

lemma compute_bounding_box_Inr_pos:
  assumes s: "shape a = (n0, n1, n2)" "shape b = shape a" "shape c = shape a"
    and r: "compute_bounding_box a b c = Inr bb"
  shows "0 < n0 \<and> 0 < n1 \<and> 0 < n2"
proof -
  let ?u = "zip_array (\<or>) (zip_array (\<or>) a b) c"
  have su: "shape ?u = (n0, n1, n2)" using s by (simp add: shape_zip_array)
  have o: "logical_or a b = Inr (zip_array (\<or>) a b)" "logical_or (zip_array (\<or>) a b) c = Inr ?u"
    using s by (simp_all add: logical_or_def shape_zip_array)
  from r obtain p0 m0 where p: "max_projection ?u 0 = Inr p0" and m: "amin (nonzero p0) = Inr m0"
    unfolding compute_bounding_box_def o bind_err_Inr_left bind_err_Inr by blast
  from p have n12: "n1 \<noteq> 0 \<and> n2 \<noteq> 0" and l: "length p0 = n0"
    unfolding max_projection_def su prod.case by (auto split: if_splits)
  from m have "nonzero p0 \<noteq> []" by (auto simp: amin_Inr)
  then have "n0 \<noteq> 0" using l by (auto simp: nonzero_def)
  then show ?thesis using n12 by simp
qed

lemma Min_Max_filter_upt:
  assumes "filter P [0..<n] \<noteq> []"
  shows "Min (set (filter P [0..<n])) \<le> Max (set (filter P [0..<n]))"
    and "Max (set (filter P [0..<n])) < n"
    and "i < n \<Longrightarrow> P i \<Longrightarrow> Min (set (filter P [0..<n])) \<le> i \<and> i \<le> Max (set (filter P [0..<n]))"
proof -
  let ?S = "set (filter P [0..<n])"
  have f: "finite ?S" by simp
  have ne: "?S \<noteq> {}" using assms by (auto simp: filter_empty_conv)
  have "Min ?S \<in> ?S" using f ne by (rule Min_in)
  then show "Min ?S \<le> Max ?S" using f by (rule Max_ge[rotated])
  have "Max ?S \<in> ?S" using f ne by (rule Max_in)
  then show "Max ?S < n" by simp
  show "Min ?S \<le> i \<and> i \<le> Max ?S" if "i < n" "P i"
  proof -
    have "i \<in> ?S" using that by simp
    then show ?thesis using f by (simp add: Min_le Max_ge)
  qed
qed

lemma compute_bounding_box_covers:
  assumes w: "well_shaped a" "well_shaped b" "well_shaped c"
    and s: "shape a = (n0, n1, n2)" "shape b = shape a" "shape c = shape a"
    and r: "compute_bounding_box a b c = Inr ((l0, l1, l2), (h0, h1, h2))"
  shows "0 \<le> l0 \<and> l0 \<le> h0 \<and> h0 < int n0"
    and "0 \<le> l1 \<and> l1 \<le> h1 \<and> h1 < int n1"
    and "0 \<le> l2 \<and> l2 \<le> h2 \<and> h2 < int n2"
    and "i < n0 \<Longrightarrow> j < n1 \<Longrightarrow> k < n2 \<Longrightarrow>
         getitem a (i, j, k) \<or> getitem b (i, j, k) \<or> getitem c (i, j, k) \<Longrightarrow>
         l0 \<le> int i \<and> int i \<le> h0 \<and> l1 \<le> int j \<and> int j \<le> h1 \<and> l2 \<le> int k \<and> int k \<le> h2"
proof -
  let ?U = "\<lambda>x. getitem a x \<or> getitem b x \<or> getitem c x"
  let ?S0 = "filter (\<lambda>i. \<exists>j<n1. \<exists>k<n2. ?U (i, j, k)) [0..<n0]"
  let ?S1 = "filter (\<lambda>j. \<exists>i<n0. \<exists>k<n2. ?U (i, j, k)) [0..<n1]"
  let ?S2 = "filter (\<lambda>k. \<exists>i<n0. \<exists>j<n1. ?U (i, j, k)) [0..<n2]"
  have pos: "0 < n0" "0 < n1" "0 < n2"
    using compute_bounding_box_Inr_pos[OF s r] by simp_all
  from r[unfolded compute_bounding_box_unfold[OF w s pos] bind_err_Inr amin_Inr amax_Inr]
  have ne: "?S0 \<noteq> []" "?S1 \<noteq> []" "?S2 \<noteq> []"
    and v: "l0 = int (Min (set ?S0))" "h0 = int (Max (set ?S0))"
      "l1 = int (Min (set ?S1))" "h1 = int (Max (set ?S1))"
      "l2 = int (Min (set ?S2))" "h2 = int (Max (set ?S2))"
    by auto
  show "0 \<le> l0 \<and> l0 \<le> h0 \<and> h0 < int n0"
    unfolding v using Min_Max_filter_upt(1,2)[OF ne(1)] by simp
  show "0 \<le> l1 \<and> l1 \<le> h1 \<and> h1 < int n1"
    unfolding v using Min_Max_filter_upt(1,2)[OF ne(2)] by simp
  show "0 \<le> l2 \<and> l2 \<le> h2 \<and> h2 < int n2"
    unfolding v using Min_Max_filter_upt(1,2)[OF ne(3)] by simp
  show "l0 \<le> int i \<and> int i \<le> h0 \<and> l1 \<le> int j \<and> int j \<le> h1 \<and> l2 \<le> int k \<and> int k \<le> h2"
    if "i < n0" "j < n1" "k < n2" "?U (i, j, k)"
  proof -
    have a0: "\<exists>j<n1. \<exists>k<n2. ?U (i, j, k)" using that by blast
    have a1: "\<exists>i<n0. \<exists>k<n2. ?U (i, j, k)" using that by blast
    have a2: "\<exists>i<n0. \<exists>j<n1. ?U (i, j, k)" using that by blast
    show ?thesis
      unfolding v
      using Min_Max_filter_upt(3)[OF ne(1) that(1) a0] Min_Max_filter_upt(3)[OF ne(2) that(2) a1]
        Min_Max_filter_upt(3)[OF ne(3) that(3) a2]
      by simp
  qed
qed

lemma compute_bounding_box_returns:
  assumes w: "well_shaped a" "well_shaped b" "well_shaped c"
    and s: "shape a = (n0, n1, n2)" "shape b = shape a" "shape c = shape a"
    and x: "i < n0" "j < n1" "k < n2"
    and t: "getitem a (i, j, k) \<or> getitem b (i, j, k) \<or> getitem c (i, j, k)"
  shows "\<exists>lo hi. compute_bounding_box a b c = Inr (lo, hi)"
proof -
  let ?U = "\<lambda>x. getitem a x \<or> getitem b x \<or> getitem c x"
  let ?S0 = "filter (\<lambda>i. \<exists>j<n1. \<exists>k<n2. ?U (i, j, k)) [0..<n0]"
  let ?S1 = "filter (\<lambda>j. \<exists>i<n0. \<exists>k<n2. ?U (i, j, k)) [0..<n1]"
  let ?S2 = "filter (\<lambda>k. \<exists>i<n0. \<exists>j<n1. ?U (i, j, k)) [0..<n2]"
  have pos: "0 < n0" "0 < n1" "0 < n2" using x by simp_all
  have "i \<in> set ?S0" "j \<in> set ?S1" "k \<in> set ?S2" using x t by auto
  then have ne: "?S0 \<noteq> []" "?S1 \<noteq> []" "?S2 \<noteq> []"
    by (metis empty_iff empty_set)+
  show ?thesis
    unfolding compute_bounding_box_unfold[OF w s pos]
    by (simp only: amin_nonempty[OF ne(1)] amax_nonempty[OF ne(1)] amin_nonempty[OF ne(2)]
        amax_nonempty[OF ne(2)] amin_nonempty[OF ne(3)] amax_nonempty[OF ne(3)] bind_err_Inr_left)
      blast
qed


section \<open>Regions in the common frame\<close>

lemma voxel_at_frame_position:
  "in_bounds (shape a) x \<Longrightarrow> voxel_at a off (frame_position off x) = getitem a x"
  by (auto simp: voxel_at_def frame_position_def getitem_border_def in_bounds_def
      split: prod.splits)

lemma voxel_atD:
  assumes "voxel_at a off q"
  shows "\<exists>x. in_bounds (shape a) x \<and> q = frame_position off x \<and> getitem a x"
proof -
  obtain o0 o1 o2 q0 q1 q2 n0 n1 n2 where e: "off = (o0, o1, o2)" "q = (q0, q1, q2)"
    "shape a = (n0, n1, n2)"
    by (cases off, cases q, cases "shape a") auto
  from assms have b: "0 \<le> q0 - o0" "q0 - o0 < int n0" "0 \<le> q1 - o1" "q1 - o1 < int n1"
    "0 \<le> q2 - o2" "q2 - o2 < int n2"
    and g: "getitem a (nat (q0 - o0), nat (q1 - o1), nat (q2 - o2))"
    unfolding e voxel_at_def getitem_border_def by (auto split: if_splits)
  let ?x = "(nat (q0 - o0), nat (q1 - o1), nat (q2 - o2))"
  have "in_bounds (shape a) ?x" using b e by (simp add: in_bounds_def nat_less_iff)
  moreover have "q = frame_position off ?x" using b e by (simp add: frame_position_def)
  ultimately show ?thesis using g by blast
qed

lemma voxel_at_iff:
  "voxel_at a off q \<longleftrightarrow> (\<exists>x. in_bounds (shape a) x \<and> q = frame_position off x \<and> getitem a x)"
  using voxel_atD[of a off q] voxel_at_frame_position[of a _ off] by blast

lemma frame_position_inj: "frame_position off x = frame_position off y \<Longrightarrow> x = y"
  by (cases off; cases x; cases y) (simp add: frame_position_def)

lemma np_any_voxel_at:
  assumes "well_shaped a"
  shows "np_any a \<longleftrightarrow> (\<exists>q. voxel_at a off q)"
  unfolding np_any_iff[OF assms] voxel_at_iff by blast

lemma same_region_np_any:
  "well_shaped a \<Longrightarrow> well_shaped b \<Longrightarrow> same_region a oa b ob \<Longrightarrow> np_any a = np_any b"
  by (simp add: np_any_voxel_at[of a oa] np_any_voxel_at[of b ob] same_region_def)

lemma same_region_refl: "same_region a off a off"
  by (simp add: same_region_def)

lemma same_region_sym: "same_region a oa b ob \<Longrightarrow> same_region b ob a oa"
  by (simp add: same_region_def)

lemma same_region_trans:
  "same_region a oa b ob \<Longrightarrow> same_region b ob c oc \<Longrightarrow> same_region a oa c oc"
  by (simp add: same_region_def)

lemma voxel_at_boundary_shell:
  assumes w: "well_shaped v"
  shows "voxel_at (boundary_shell v conn) (o0, o1, o2) (q0, q1, q2)
     = (voxel_at v (o0, o1, o2) (q0, q1, q2)
        \<and> (\<exists>(a, b, c) \<in> set (indices (3, 3, 3)).
              \<bar>int a - 1\<bar> + \<bar>int b - 1\<bar> + \<bar>int c - 1\<bar> \<le> (if conn < 1 then 1 else conn)
              \<and> \<not> voxel_at v (o0, o1, o2) (q0 + int a - 1, q1 + int b - 1, q2 + int c - 1)))"
proof (cases "\<exists>x. in_bounds (shape v) x \<and> (q0, q1, q2) = frame_position (o0, o1, o2) x")
  case False
  then have "\<not> voxel_at (boundary_shell v conn) (o0, o1, o2) (q0, q1, q2)"
    and "\<not> voxel_at v (o0, o1, o2) (q0, q1, q2)"
    unfolding voxel_at_iff shape_boundary_shell by blast+
  then show ?thesis by simp
next
  case True
  then obtain i j k where b: "in_bounds (shape v) (i, j, k)"
    and q: "q0 = int i + o0" "q1 = int j + o1" "q2 = int k + o2"
    by (auto simp: frame_position_def)
  have q': "(q0, q1, q2) = frame_position (o0, o1, o2) (i, j, k)"
    using q by (simp add: frame_position_def)
  have n: "voxel_at v (o0, o1, o2) (q0 + int a - 1, q1 + int b - 1, q2 + int c - 1)
      = getitem_border v (int i + int a - 1, int j + int b - 1, int k + int c - 1) False"
    for a b c
    unfolding q voxel_at_def prod.case by (simp add: algebra_simps)
  have "voxel_at (boundary_shell v conn) (o0, o1, o2) (q0, q1, q2)
      = getitem (boundary_shell v conn) (i, j, k)"
    unfolding q' using b by (simp add: voxel_at_frame_position shape_boundary_shell)
  moreover have "voxel_at v (o0, o1, o2) (q0, q1, q2) = getitem v (i, j, k)"
    unfolding q' using b by (simp add: voxel_at_frame_position)
  ultimately show ?thesis
    unfolding n getitem_boundary_shell[OF w b] getitem_erosion[OF b] split_def
    by (simp only:) blast
qed

lemma same_region_boundary_shell:
  assumes "well_shaped a" "well_shaped b" "same_region a oa b ob"
  shows "same_region (boundary_shell a conn) oa (boundary_shell b conn) ob"
proof -
  obtain a0 a1 a2 b0 b1 b2 where e: "oa = (a0, a1, a2)" "ob = (b0, b1, b2)"
    by (cases oa, cases ob) auto
  have "voxel_at (boundary_shell a conn) oa q = voxel_at (boundary_shell b conn) ob q" for q
  proof -
    obtain q0 q1 q2 where q: "q = (q0, q1, q2)" by (cases q) auto
    show ?thesis
      unfolding q e voxel_at_boundary_shell[OF assms(1)] voxel_at_boundary_shell[OF assms(2)]
      using assms(3)[unfolded same_region_def e] by simp
  qed
  then show ?thesis by (simp add: same_region_def)
qed

lemma astype_bool_tabulate: "astype_bool (tabulate s f) = tabulate s (\<lambda>x. f x \<noteq> 0)"
  by (simp add: astype_bool_def map_array_tabulate)

lemma cropped_same_region:
  assumes sh: "shape v = (n0, n1, n2)"
    and b0: "0 \<le> l0" "l0 \<le> h0" "h0 < int n0"
    and b1: "0 \<le> l1" "l1 \<le> h1" "h1 < int n1"
    and b2: "0 \<le> l2" "l2 \<le> h2" "h2 < int n2"
    and cov: "\<And>i j k. i < n0 \<Longrightarrow> j < n1 \<Longrightarrow> k < n2 \<Longrightarrow> getitem v (i, j, k) \<Longrightarrow>
         l0 \<le> int i \<and> int i \<le> h0 \<and> l1 \<le> int j \<and> int j \<le> h1 \<and> l2 \<le> int k \<and> int k \<le> h2"
    and c: "crop_mask v (l0, l1, l2) (h0, h1, h2) = Inr c"
  shows "same_region (astype_bool c) (l0, l1, l2) v (0, 0, 0)"
proof -
  let ?L0 = "nat (h0 - l0 + 1)" and ?L1 = "nat (h1 - l1 + 1)" and ?L2 = "nat (h2 - l2 + 1)"
  let ?D = "(nat (h0 - l0 + 2), nat (h1 - l1 + 2), nat (h2 - l2 + 2))"
  let ?G = "\<lambda>(i, j, k). i < ?L0 \<and> j < ?L1 \<and> k < ?L2
              \<and> getitem v (nat l0 + i, nat l1 + j, nat l2 + k)"
  let ?b = "tabulate ?D ?G"
  have "astype_bool c = tabulate ?D (\<lambda>x. (case x of (i, j, k) \<Rightarrow>
            if i < ?L0 \<and> j < ?L1 \<and> k < ?L2
            then of_bool (getitem v (nat l0 + i, nat l1 + j, nat l2 + k)) else (0::real)) \<noteq> 0)"
    using c unfolding crop_mask_inside[OF sh b0 b1 b2]
    by (auto simp: astype_bool_tabulate[symmetric])
  also have "\<dots> = ?b"
    by (rule tabulate_cong) (auto split: prod.splits)
  finally have cb: "astype_bool c = ?b" .
  have "voxel_at ?b (l0, l1, l2) q = voxel_at v (0, 0, 0) q" for q
  proof
    assume "voxel_at ?b (l0, l1, l2) q"
    then obtain x where x: "in_bounds ?D x" "q = frame_position (l0, l1, l2) x" "getitem ?b x"
      unfolding voxel_at_iff shape_tabulate by blast
    obtain i j k where xe: "x = (i, j, k)" by (cases x) auto
    have "getitem ?b x = ?G x" using x(1) by (rule getitem_tabulate)
    with x(3) have g: "i < ?L0" "j < ?L1" "k < ?L2"
      "getitem v (nat l0 + i, nat l1 + j, nat l2 + k)"
      unfolding xe by simp_all
    let ?y = "(nat l0 + i, nat l1 + j, nat l2 + k)"
    have "in_bounds (shape v) ?y" using g(1-3) b0 b1 b2 sh by (auto simp: in_bounds_def)
    moreover have "q = frame_position (0, 0, 0) ?y"
      using x(2) b0 b1 b2 unfolding xe by (simp add: frame_position_def)
    ultimately show "voxel_at v (0, 0, 0) q" using g(4) unfolding voxel_at_iff by blast
  next
    assume "voxel_at v (0, 0, 0) q"
    then obtain y where y: "in_bounds (shape v) y" "q = frame_position (0, 0, 0) y" "getitem v y"
      unfolding voxel_at_iff by blast
    obtain i j k where ye: "y = (i, j, k)" by (cases y) auto
    have r: "i < n0" "j < n1" "k < n2" using y(1) sh unfolding ye by (simp_all add: in_bounds_def)
    from cov[OF r y(3)[unfolded ye]]
    have in_box: "l0 \<le> int i" "int i \<le> h0" "l1 \<le> int j" "int j \<le> h1" "l2 \<le> int k" "int k \<le> h2"
      by simp_all
    let ?x = "(i - nat l0, j - nat l1, k - nat l2)"
    have xb: "in_bounds ?D ?x" using in_box b0 b1 b2 by (auto simp: in_bounds_def)
    have xq: "q = frame_position (l0, l1, l2) ?x"
      using y(2) in_box b0 b1 b2 unfolding ye by (auto simp: frame_position_def)
    have rejoin: "nat l0 + (i - nat l0) = i" "nat l1 + (j - nat l1) = j" "nat l2 + (k - nat l2) = k"
      using in_box b0 b1 b2 by auto
    have "i - nat l0 < ?L0" "j - nat l1 < ?L1" "k - nat l2 < ?L2"
      using in_box b0 b1 b2 by auto
    moreover have "getitem ?b ?x = ?G ?x" using xb by (rule getitem_tabulate)
    ultimately have "getitem ?b ?x"
      using y(3) by (simp add: rejoin ye)
    then show "voxel_at ?b (l0, l1, l2) q"
      using xb xq unfolding voxel_at_iff shape_tabulate by blast
  qed
  then show ?thesis unfolding cb by (simp add: same_region_def)
qed

lemma frame_distance_position:
  "frame_distance sp (frame_position off x) (frame_position off y) = physical_distance sp x y"
  by (cases sp; cases off; cases x; cases y)
    (simp add: frame_distance_def frame_position_def physical_distance_def)

text \<open>
  The distance transform of a shell that is not empty, in the common frame: the least
  distance to a voxel of the shell.
\<close>

lemma edt_frame:
  assumes w: "well_shaped s" and x: "in_bounds (shape s) x" and a: "np_any s"
  shows "getitem (distance_transform_edt e (invert s) sp) x
     = Min (frame_distance sp (frame_position off x) ` {q. voxel_at s off q})"
proof -
  from a obtain y where y: "in_bounds (shape s) y" "getitem s y"
    using np_any_iff[OF w] by blast
  have xi: "in_bounds (shape (invert s)) x" using x by (simp add: shape_invert)
  have yi: "in_bounds (shape (invert s)) y" using y by (simp add: shape_invert)
  have ny: "\<not> getitem (invert s) y" using y w by (simp add: getitem_invert)
  have bg: "{y. in_bounds (shape (invert s)) y \<and> \<not> getitem (invert s) y}
      = {y. in_bounds (shape s) y \<and> getitem s y}"
    using w by (auto simp: shape_invert getitem_invert)
  have vs: "{q. voxel_at s off q} = frame_position off ` {y. in_bounds (shape s) y \<and> getitem s y}"
    unfolding voxel_at_iff by blast
  have "physical_distance sp x ` {y. in_bounds (shape s) y \<and> getitem s y}
      = frame_distance sp (frame_position off x) ` {q. voxel_at s off q}"
    unfolding vs image_image frame_distance_position ..
  then show ?thesis
    using getitem_distance_transform_edt[OF xi yi ny, of e sp] unfolding bg by simp
qed

lemma signed_distance_map_frame:
  assumes wa: "well_shaped a" and wb: "well_shaped b" and sr: "same_region a oa b ob"
    and x: "in_bounds (shape a) x" and x': "in_bounds (shape b) x'"
    and p: "frame_position oa x = frame_position ob x'"
  shows "getitem (fst (signed_distance_map e a (boundary_shell a conn) sp)) x
       = getitem (fst (signed_distance_map e b (boundary_shell b conn) sp)) x'"
proof -
  let ?sa = "boundary_shell a conn" and ?sb = "boundary_shell b conn"
  have ss: "same_region ?sa oa ?sb ob" using wa wb sr by (rule same_region_boundary_shell)
  have wsa: "well_shaped ?sa" and wsb: "well_shaped ?sb"
    using wa wb by (simp_all add: well_shaped_boundary_shell)
  have any: "np_any ?sa = np_any ?sb" using wsa wsb ss by (rule same_region_np_any)
  show ?thesis
  proof (cases "np_any ?sa")
    case False
    then show ?thesis using any x x'
      by (simp add: signed_distance_map_def getitem_full shape_boundary_shell)
  next
    case True
    then have tb: "np_any ?sb" using any by simp
    have xs: "in_bounds (shape ?sa) x" and xs': "in_bounds (shape ?sb) x'"
      using x x' by (simp_all add: shape_boundary_shell)
    have v: "{q. voxel_at ?sa oa q} = {q. voxel_at ?sb ob q}"
      using ss unfolding same_region_def by blast
    have d: "getitem (distance_transform_edt e (invert ?sa) sp) x
        = getitem (distance_transform_edt e (invert ?sb) sp) x'"
      unfolding edt_frame[OF wsa xs True, of e sp oa] edt_frame[OF wsb xs' tb, of e sp ob] v p ..
    have "getitem a x = voxel_at a oa (frame_position oa x)"
      using x by (simp add: voxel_at_frame_position)
    also have "\<dots> = voxel_at b ob (frame_position ob x')"
      unfolding p using sr[unfolded same_region_def] by blast
    also have "\<dots> = getitem b x'" using x' by (simp add: voxel_at_frame_position)
    finally have g: "getitem a x = getitem b x'" .
    show ?thesis
      unfolding getitem_signed_distance_map(1)[OF wa x True]
        getitem_signed_distance_map(1)[OF wb x' tb] d g ..
  qed
qed

text \<open>The values selected by a mask, as a multiset.\<close>

lemma mset_selected:
  "mset (map f (filter P (indices s))) = image_mset f (mset_set {x. in_bounds s x \<and> P x})"
proof -
  have "mset (filter P (indices s)) = filter_mset P (mset_set (set (indices s)))"
    by (simp add: mset_set_set[OF distinct_indices])
  also have "\<dots> = mset_set {x \<in> set (indices s). P x}" by simp
  also have "{x \<in> set (indices s). P x} = {x. in_bounds s x \<and> P x}"
    by (auto simp: set_indices)
  finally show ?thesis by simp
qed

lemma image_mset_embedding:
  assumes fin: "finite A"
    and emb: "\<And>x. x \<in> B \<Longrightarrow> t x \<in> A \<and> f' x = f (t x)"
    and inj: "inj_on t B"
  shows "image_mset f' (mset_set B) \<subseteq># image_mset f (mset_set A)"
proof -
  have fb: "finite B"
  proof (rule inj_on_finite[OF inj _ fin])
    show "t ` B \<subseteq> A" using emb by blast
  qed
  have "image_mset f' (mset_set B) = image_mset (\<lambda>x. f (t x)) (mset_set B)"
    by (rule image_mset_cong) (use emb fb in auto)
  also have "\<dots> = image_mset f (image_mset t (mset_set B))"
    by (simp add: multiset.map_comp comp_def)
  also have "\<dots> = image_mset f (mset_set (t ` B))"
    by (simp add: image_mset_mset_set[OF inj])
  also have "\<dots> \<subseteq># image_mset f (mset_set A)"
  proof (rule image_mset_subseteq_mono, rule subset_imp_msubset_mset_set)
    show "t ` B \<subseteq> A" using emb by blast
    show "finite A" by (rule fin)
  qed
  finally show ?thesis .
qed

lemma frame_position_solve:
  assumes "frame_position (b0, b1, b2) (i', j', k') = frame_position (a0, a1, a2) x"
  shows "x = (nat (int i' + b0 - a0), nat (int j' + b1 - a1), nat (int k' + b2 - a2))"
  using assms by (cases x) (auto simp: frame_position_def)

lemma masked_list_submultiset:
  assumes wm: "well_shaped ma" "well_shaped mb"
    and wv: "well_shaped va" "well_shaped vb"
    and sh: "shape va = shape ma" "shape vb = shape mb"
    and rm: "same_region ma oa mb ob" and rv: "same_region va oa vb ob"
    and keep: "\<And>x. in_bounds (shape mb) x \<Longrightarrow> getitem kb x \<Longrightarrow> getitem (boundary_shell mb conn) x"
  shows "mset (map (getitem (fst (signed_distance_map e vb (boundary_shell vb conn) sp)))
                 (filter (getitem kb) (indices (shape mb))))
       \<subseteq># mset (map (getitem (fst (signed_distance_map e va (boundary_shell va conn) sp)))
                 (filter (getitem (boundary_shell ma conn)) (indices (shape ma))))"
proof -
  obtain a0 a1 a2 b0 b1 b2 where o: "oa = (a0, a1, a2)" "ob = (b0, b1, b2)"
    by (cases oa, cases ob) auto
  define t :: "idx \<Rightarrow> idx" where
    "t = (\<lambda>(i', j', k'). (nat (int i' + b0 - a0), nat (int j' + b1 - a1), nat (int k' + b2 - a2)))"
  let ?A = "{x. in_bounds (shape ma) x \<and> getitem (boundary_shell ma conn) x}"
  let ?B = "{x. in_bounds (shape mb) x \<and> getitem kb x}"
  let ?fa = "getitem (fst (signed_distance_map e va (boundary_shell va conn) sp))"
  let ?fb = "getitem (fst (signed_distance_map e vb (boundary_shell vb conn) sp))"
  have ss: "same_region (boundary_shell ma conn) oa (boundary_shell mb conn) ob"
    using wm rm by (rule same_region_boundary_shell)
  have key: "in_bounds (shape ma) (t x') \<and> getitem (boundary_shell ma conn) (t x')
      \<and> frame_position oa (t x') = frame_position ob x'" if "x' \<in> ?B" for x'
  proof -
    from that have b: "in_bounds (shape mb) x'" and k: "getitem (boundary_shell mb conn) x'"
      using keep by simp_all
    have "voxel_at (boundary_shell mb conn) ob (frame_position ob x')"
      using b k by (simp add: voxel_at_frame_position shape_boundary_shell)
    then have "voxel_at (boundary_shell ma conn) oa (frame_position ob x')"
      using ss[unfolded same_region_def] by blast
    then obtain x where x: "in_bounds (shape ma) x" "frame_position ob x' = frame_position oa x"
      "getitem (boundary_shell ma conn) x"
      unfolding voxel_at_iff shape_boundary_shell by blast
    obtain i' j' k' where xe: "x' = (i', j', k')" by (cases x') auto
    have "x = t x'"
      using frame_position_solve[OF x(2)[unfolded o xe]] unfolding t_def xe by simp
    then show ?thesis using x by simp
  qed
  have emb: "t x' \<in> ?A \<and> ?fb x' = ?fa (t x')" if "x' \<in> ?B" for x'
  proof -
    from key[OF that] have ka: "in_bounds (shape ma) (t x')"
      "getitem (boundary_shell ma conn) (t x')"
      "frame_position oa (t x') = frame_position ob x'" by simp_all
    have "in_bounds (shape va) (t x')" using ka(1) sh by simp
    moreover have "in_bounds (shape vb) x'" using that sh by simp
    ultimately have "?fa (t x') = ?fb x'"
      using ka(3) by (intro signed_distance_map_frame[OF wv rv])
    then show ?thesis using ka by simp
  qed
  have inj: "inj_on t ?B"
  proof (rule inj_onI)
    fix x' y' assume "x' \<in> ?B" "y' \<in> ?B" "t x' = t y'"
    then have "frame_position ob x' = frame_position ob y'"
      using key[of x'] key[of y'] by metis
    then show "x' = y'" by (rule frame_position_inj)
  qed
  have "image_mset ?fb (mset_set ?B) \<subseteq># image_mset ?fa (mset_set ?A)"
    using finite_in_bounds emb inj by (rule image_mset_embedding)
  then show ?thesis unfolding mset_selected .
qed

lemma crop_inputs_region:
  assumes v: "valid_inputs mask_gt mask_pred exclusion_zone"
    and c: "crop_inputs mask_gt mask_pred exclusion_zone crop = Inr (g, p, z)"
  shows "\<exists>off. same_region g off mask_gt (0, 0, 0) \<and> same_region p off mask_pred (0, 0, 0)"
proof (cases crop)
  case False
  then have "g = mask_gt" "p = mask_pred" using c by (simp_all add: crop_inputs_def)
  then show ?thesis using same_region_refl by blast
next
  case True
  from v have w: "well_shaped mask_gt" "well_shaped mask_pred"
    and s: "shape mask_pred = shape mask_gt"
    by (simp_all add: valid_inputs_def)
  obtain n0 n1 n2 where sh: "shape mask_gt = (n0, n1, n2)" by (cases "shape mask_gt") auto
  have shp: "shape mask_pred = (n0, n1, n2)" using s sh by simp
  define third where "third = (case exclusion_zone of None \<Rightarrow> mask_gt | Some ez \<Rightarrow> ez)"
  have w3: "well_shaped third" and s3: "shape third = shape mask_gt"
    using v by (auto simp: third_def valid_inputs_def split: option.splits)
  from c True obtain bmin bmax cg cp where
    bb: "compute_bounding_box mask_gt mask_pred third = Inr (bmin, bmax)"
    and cg: "crop_mask mask_gt bmin bmax = Inr cg" and cp: "crop_mask mask_pred bmin bmax = Inr cp"
    and gp: "g = astype_bool cg" "p = astype_bool cp"
    by (auto simp: crop_inputs_def bind_err_Inr third_def split: option.splits)
  obtain l0 l1 l2 h0 h1 h2 where be: "bmin = (l0, l1, l2)" "bmax = (h0, h1, h2)"
    by (cases bmin, cases bmax) auto
  note cov = compute_bounding_box_covers[OF w w3 sh s s3 bb[unfolded be]]
  have b0: "0 \<le> l0" "l0 \<le> h0" "h0 < int n0" using cov(1) by simp_all
  have b1: "0 \<le> l1" "l1 \<le> h1" "h1 < int n1" using cov(2) by simp_all
  have b2: "0 \<le> l2" "l2 \<le> h2" "h2 < int n2" using cov(3) by simp_all
  have "same_region (astype_bool cg) (l0, l1, l2) mask_gt (0, 0, 0)"
    using cov(4) by (intro cropped_same_region[OF sh b0 b1 b2 _ cg[unfolded be]]) blast
  moreover have "same_region (astype_bool cp) (l0, l1, l2) mask_pred (0, 0, 0)"
    using cov(4) by (intro cropped_same_region[OF shp b0 b1 b2 _ cp[unfolded be]]) blast
  ultimately show ?thesis unfolding gp by blast
qed

lemma crop_inputs_returns_without_exclusion:
  assumes v: "valid_inputs mask_gt mask_pred None"
    and x: "in_bounds (shape mask_gt) x" and t: "getitem mask_gt x \<or> getitem mask_pred x"
  shows "\<exists>g p. crop_inputs mask_gt mask_pred None crop = Inr (g, p, None)"
proof (cases crop)
  case False
  then show ?thesis by (simp add: crop_inputs_def)
next
  case True
  from v have w: "well_shaped mask_gt" "well_shaped mask_pred"
    and s: "shape mask_pred = shape mask_gt"
    by (simp_all add: valid_inputs_def)
  obtain n0 n1 n2 where sh: "shape mask_gt = (n0, n1, n2)" by (cases "shape mask_gt") auto
  have shp: "shape mask_pred = (n0, n1, n2)" using s sh by simp
  obtain i j k where xe: "x = (i, j, k)" by (cases x) auto
  have xi: "i < n0" "j < n1" "k < n2" using x sh unfolding xe by (simp_all add: in_bounds_def)
  have t': "getitem mask_gt (i, j, k) \<or> getitem mask_pred (i, j, k) \<or> getitem mask_gt (i, j, k)"
    using t xe by auto
  from compute_bounding_box_returns[OF w w(1) sh s refl xi t']
  obtain bmin bmax where bb: "compute_bounding_box mask_gt mask_pred mask_gt = Inr (bmin, bmax)"
    by blast
  obtain l0 l1 l2 h0 h1 h2 where be: "bmin = (l0, l1, l2)" "bmax = (h0, h1, h2)"
    by (cases bmin, cases bmax) auto
  note cov = compute_bounding_box_covers[OF w w(1) sh s refl bb[unfolded be]]
  have b0: "0 \<le> l0" "l0 \<le> h0" "h0 < int n0" using cov(1) by simp_all
  have b1: "0 \<le> l1" "l1 \<le> h1" "h1 < int n1" using cov(2) by simp_all
  have b2: "0 \<le> l2" "l2 \<le> h2" "h2 < int n2" using cov(3) by simp_all
  show ?thesis
    using True
    by (simp add: crop_inputs_def bb be bind_err_Inr_left crop_mask_inside[OF sh b0 b1 b2]
        crop_mask_inside[OF shp b0 b1 b2])
qed


section \<open>Exclusion monotonicity\<close>

lemma voxel_at_boundary_shell_subset:
  assumes "well_shaped v" "voxel_at (boundary_shell v conn) off q"
  shows "voxel_at v off q"
proof -
  obtain o0 o1 o2 q0 q1 q2 where e: "off = (o0, o1, o2)" "q = (q0, q1, q2)"
    by (cases off, cases q) auto
  show ?thesis using assms(2) unfolding e voxel_at_boundary_shell[OF assms(1)] by simp
qed

text \<open>
  The distance lists of a run, as the values of the distance maps at the shell voxels
  that the Exclusion Masker left.
\<close>

lemma compute_distances_lists:
  assumes c: "crop_inputs mask_gt mask_pred exclusion_zone crop = Inr (g, p, z)"
    and v: "valid_inputs g p z"
    and r: "compute_distances e mask_gt mask_pred exclusion_zone sp conn crop exd = Inr r"
  shows "np_any (boundary_shell p conn)"
    and "\<exists>kg kp.
       distances_gt_to_pred r
         = map (getitem (fst (signed_distance_map e p (boundary_shell p conn) sp)))
             (filter (getitem kg) (indices (shape g)))
     \<and> distances_pred_to_gt r
         = map (getitem (fst (signed_distance_map e g (boundary_shell g conn) sp)))
             (filter (getitem kp) (indices (shape p)))
     \<and> (\<forall>x. in_bounds (shape g) x \<and> getitem kg x \<longrightarrow> getitem (boundary_shell g conn) x)
     \<and> (\<forall>x. in_bounds (shape p) x \<and> getitem kp x \<longrightarrow> getitem (boundary_shell p conn) x)
     \<and> (z = None \<longrightarrow> kg = boundary_shell g conn \<and> kp = boundary_shell p conn)"
proof -
  from v have wg: "well_shaped g" and wp: "well_shaped p" and sp: "shape p = shape g"
    by (simp_all add: valid_inputs_def)
  let ?dg = "fst (signed_distance_map e g (boundary_shell g conn) sp)"
  let ?dp = "fst (signed_distance_map e p (boundary_shell p conn) sp)"
  have wdg: "well_shaped ?dg" "shape ?dg = shape g"
    using wg by (simp_all add: well_shaped_signed_distance_map shape_signed_distance_map
        shape_boundary_shell)
  have wdp: "well_shaped ?dp" "shape ?dp = shape p"
    using wp by (simp_all add: well_shaped_signed_distance_map shape_signed_distance_map
        shape_boundary_shell)
  from masked_shells[OF v, of e conn sp exd] compute_distances_result[OF c v, of e conn sp exd] r
  obtain bg bp bx dx where
    m: "exclusion_masker e z (boundary_shell g conn) (boundary_shell p conn) sp conn exd
          = Inr (bg, bp, bx, dx)"
    and sb: "shape bg = shape g" "shape bp = shape g"
    and form: "case z of
           None \<Rightarrow> bg = boundary_shell g conn \<and> bp = boundary_shell p conn
                   \<and> bx = None \<and> dx = None
         | Some zz \<Rightarrow>
             bg = zip_array (\<lambda>v m. v \<and> \<not> m) (boundary_shell g conn)
                    (map_array (\<lambda>d. fl_lt d (Fin exd)) (exclusion_distance_map e zz sp conn))
             \<and> bp = zip_array (\<lambda>v m. v \<and> \<not> m) (boundary_shell p conn)
                    (map_array (\<lambda>d. fl_lt d (Fin exd)) (exclusion_distance_map e zz sp conn))
             \<and> bx = Some (boundary_shell zz conn)
             \<and> dx = Some (exclusion_distance_map e zz sp conn)"
    and any: "np_any (boundary_shell p conn)"
    and s1: "select_where ?dp bg = Inr (distances_gt_to_pred r)"
    and s2: "select_where ?dg bp = Inr (distances_pred_to_gt r)"
    by (auto split: if_splits)
  show "np_any (boundary_shell p conn)" by (rule any)
  have wb: "well_shaped bg \<and> well_shaped bp
      \<and> (\<forall>x. in_bounds (shape g) x \<and> getitem bg x \<longrightarrow> getitem (boundary_shell g conn) x)
      \<and> (\<forall>x. in_bounds (shape p) x \<and> getitem bp x \<longrightarrow> getitem (boundary_shell p conn) x)"
  proof (cases z)
    case None
    then show ?thesis using form wg wp by (simp add: well_shaped_boundary_shell)
  next
    case (Some zz)
    then have wz: "well_shaped zz" and sz: "shape zz = shape g"
      using v by (simp_all add: valid_inputs_def)
    let ?below = "map_array (\<lambda>d. fl_lt d (Fin exd)) (exclusion_distance_map e zz sp conn)"
    have wbl: "well_shaped ?below" "shape ?below = shape g"
      using wz sz by (simp_all add: well_shaped_map_array well_shaped_exclusion_distance_map
          shape_map_array shape_exclusion_distance_map)
    have f: "bg = zip_array (\<lambda>v m. v \<and> \<not> m) (boundary_shell g conn) ?below"
      "bp = zip_array (\<lambda>v m. v \<and> \<not> m) (boundary_shell p conn) ?below"
      using form Some by simp_all
    have "getitem bg x \<longrightarrow> getitem (boundary_shell g conn) x" if "in_bounds (shape g) x" for x
      unfolding f using that wg wbl
      by (simp add: getitem_zip_array well_shaped_boundary_shell shape_boundary_shell)
    moreover have "getitem bp x \<longrightarrow> getitem (boundary_shell p conn) x"
      if "in_bounds (shape p) x" for x
      unfolding f using that wp wbl sp
      by (simp add: getitem_zip_array well_shaped_boundary_shell shape_boundary_shell)
    moreover have "well_shaped bg" "well_shaped bp"
      unfolding f using wg wp wbl sp
      by (simp_all add: well_shaped_zip_array well_shaped_boundary_shell shape_boundary_shell)
    ultimately show ?thesis by blast
  qed
  have l1: "distances_gt_to_pred r = map (getitem ?dp) (filter (getitem bg) (indices (shape g)))"
    using select_where_indices[of ?dp bg] s1 wdp wb sb sp by simp
  have l2: "distances_pred_to_gt r = map (getitem ?dg) (filter (getitem bp) (indices (shape p)))"
    using select_where_indices[of ?dg bp] s2 wdg wb sb sp by simp
  have n: "z = None \<longrightarrow> bg = boundary_shell g conn \<and> bp = boundary_shell p conn"
    using form by auto
  show "\<exists>kg kp.
       distances_gt_to_pred r = map (getitem ?dp) (filter (getitem kg) (indices (shape g)))
     \<and> distances_pred_to_gt r = map (getitem ?dg) (filter (getitem kp) (indices (shape p)))
     \<and> (\<forall>x. in_bounds (shape g) x \<and> getitem kg x \<longrightarrow> getitem (boundary_shell g conn) x)
     \<and> (\<forall>x. in_bounds (shape p) x \<and> getitem kp x \<longrightarrow> getitem (boundary_shell p conn) x)
     \<and> (z = None \<longrightarrow> kg = boundary_shell g conn \<and> kp = boundary_shell p conn)"
    using l1 l2 wb n by blast
qed

lemma compute_distances_returns:
  assumes c: "crop_inputs mask_gt mask_pred exclusion_zone crop = Inr (g, p, z)"
    and v: "valid_inputs g p z"
    and a: "np_any (boundary_shell p conn)"
  shows "\<exists>r. compute_distances e mask_gt mask_pred exclusion_zone sp conn crop exd = Inr r"
proof -
  from compute_distances_result[OF c v, of e conn sp exd]
  obtain rec where "compute_distances e mask_gt mask_pred exclusion_zone sp conn crop exd
      = (if np_any (boundary_shell p conn) then Inr rec else Inl UnboundLocalError)"
    by blast
  then show ?thesis using a by simp
qed

lemma compute_distances_lists_without_exclusion:
  assumes c: "crop_inputs mask_gt mask_pred exclusion_zone crop = Inr (g, p, None)"
    and v: "valid_inputs g p None"
    and r: "compute_distances e mask_gt mask_pred exclusion_zone sp conn crop exd = Inr r"
  shows "distances_gt_to_pred r
         = map (getitem (fst (signed_distance_map e p (boundary_shell p conn) sp)))
             (filter (getitem (boundary_shell g conn)) (indices (shape g)))"
    and "distances_pred_to_gt r
         = map (getitem (fst (signed_distance_map e g (boundary_shell g conn) sp)))
             (filter (getitem (boundary_shell p conn)) (indices (shape p)))"
proof -
  from compute_distances_lists(2)[OF c v r, of ] obtain kg kp where
    l: "distances_gt_to_pred r
         = map (getitem (fst (signed_distance_map e p (boundary_shell p conn) sp)))
             (filter (getitem kg) (indices (shape g)))"
      "distances_pred_to_gt r
         = map (getitem (fst (signed_distance_map e g (boundary_shell g conn) sp)))
             (filter (getitem kp) (indices (shape p)))"
    and k: "kg = boundary_shell g conn" "kp = boundary_shell p conn"
    by blast
  show "distances_gt_to_pred r
         = map (getitem (fst (signed_distance_map e p (boundary_shell p conn) sp)))
             (filter (getitem (boundary_shell g conn)) (indices (shape g)))"
    using l(1) unfolding k .
  show "distances_pred_to_gt r
         = map (getitem (fst (signed_distance_map e g (boundary_shell g conn) sp)))
             (filter (getitem (boundary_shell p conn)) (indices (shape p)))"
    using l(2) unfolding k .
qed

lemma compute_distances_Inr_crop:
  assumes "compute_distances e mask_gt mask_pred exclusion_zone sp conn crop exd = Inr r"
  shows "\<exists>g p z. crop_inputs mask_gt mask_pred exclusion_zone crop = Inr (g, p, z)"
proof (cases "crop_inputs mask_gt mask_pred exclusion_zone crop")
  case (Inl err)
  then show ?thesis using assms by (simp add: compute_distances_def bind_err_def)
next
  case (Inr cr)
  then show ?thesis by (cases cr) auto
qed

text \<open>
  Claim C7.  For every valid input and every exclusion distance, when the run with an
  exclusion zone returns, the run of the same inputs without exclusion zone returns too,
  and each distance list of the first is a sub-multiset of the corresponding list of the
  second: the Exclusion Masker removes elements, and neither adds one nor changes a value
  that stays.  With \<open>crop\<close> set the two runs crop to different bounding boxes; the regions,
  their shells and the distances are the same in the common frame.
\<close>

theorem exclusion_monotonicity:
  assumes v: "valid_inputs mask_gt mask_pred (Some ez)"
    and r: "compute_distances e mask_gt mask_pred (Some ez) sp conn crop exd = Inr r"
  shows "\<exists>r0. compute_distances e mask_gt mask_pred None sp conn crop exd = Inr r0
           \<and> mset (distances_gt_to_pred r) \<subseteq># mset (distances_gt_to_pred r0)
           \<and> mset (distances_pred_to_gt r) \<subseteq># mset (distances_pred_to_gt r0)"
proof -
  have v0: "valid_inputs mask_gt mask_pred None" using v by (simp add: valid_inputs_def)
  from compute_distances_Inr_crop[OF r]
  obtain gb pb zb where cb: "crop_inputs mask_gt mask_pred (Some ez) crop = Inr (gb, pb, zb)"
    by blast
  have vb: "valid_inputs gb pb zb" using crop_inputs_valid[OF v cb] by simp
  then have wgb: "well_shaped gb" and wpb: "well_shaped pb" and spb: "shape pb = shape gb"
    by (simp_all add: valid_inputs_def)
  have anyb: "np_any (boundary_shell pb conn)" using cb vb r by (rule compute_distances_lists(1))
  from crop_inputs_region[OF v cb] obtain ob where
    rb: "same_region gb ob mask_gt (0, 0, 0)" "same_region pb ob mask_pred (0, 0, 0)" by blast
  \<comment> \<open>The predicted region has a voxel, so the run without exclusion zone finds a box.\<close>
  from anyb obtain q where "voxel_at (boundary_shell pb conn) ob q"
    using np_any_voxel_at[OF well_shaped_boundary_shell[OF wpb], of conn ob] by blast
  then have "voxel_at pb ob q" by (rule voxel_at_boundary_shell_subset[OF wpb])
  then have "voxel_at mask_pred (0, 0, 0) q" using rb(2)[unfolded same_region_def] by blast
  then obtain x where x: "in_bounds (shape mask_pred) x" "getitem mask_pred x"
    unfolding voxel_at_iff by blast
  have xg: "in_bounds (shape mask_gt) x" using x(1) v by (simp add: valid_inputs_def)
  have "getitem mask_gt x \<or> getitem mask_pred x" using x(2) by simp
  from crop_inputs_returns_without_exclusion[OF v0 xg this, of crop]
  obtain ga pa where ca: "crop_inputs mask_gt mask_pred None crop = Inr (ga, pa, None)" by blast
  have va: "valid_inputs ga pa None" using crop_inputs_valid[OF v0 ca] by simp
  then have wga: "well_shaped ga" and wpa: "well_shaped pa" and spa: "shape pa = shape ga"
    by (simp_all add: valid_inputs_def)
  from crop_inputs_region[OF v0 ca] obtain oa where
    ra: "same_region ga oa mask_gt (0, 0, 0)" "same_region pa oa mask_pred (0, 0, 0)" by blast
  have rg: "same_region ga oa gb ob"
    using ra(1) same_region_sym[OF rb(1)] by (rule same_region_trans)
  have rp: "same_region pa oa pb ob"
    using ra(2) same_region_sym[OF rb(2)] by (rule same_region_trans)
  \<comment> \<open>The run without exclusion zone returns.\<close>
  have wsa: "well_shaped (boundary_shell pa conn)" using wpa by (rule well_shaped_boundary_shell)
  have wsb: "well_shaped (boundary_shell pb conn)" using wpb by (rule well_shaped_boundary_shell)
  have "same_region (boundary_shell pa conn) oa (boundary_shell pb conn) ob"
    using wpa wpb rp by (rule same_region_boundary_shell)
  with wsa wsb have "np_any (boundary_shell pa conn) = np_any (boundary_shell pb conn)"
    by (rule same_region_np_any)
  then have anya: "np_any (boundary_shell pa conn)" using anyb by simp
  from compute_distances_returns[OF ca va anya, of e sp exd]
  obtain r0 where r0: "compute_distances e mask_gt mask_pred None sp conn crop exd = Inr r0"
    by blast
  note a1 = compute_distances_lists_without_exclusion(1)[OF ca va r0]
  note a2 = compute_distances_lists_without_exclusion(2)[OF ca va r0]
  from compute_distances_lists(2)[OF cb vb r] obtain kg kp where
    b1: "distances_gt_to_pred r
         = map (getitem (fst (signed_distance_map e pb (boundary_shell pb conn) sp)))
             (filter (getitem kg) (indices (shape gb)))"
    and b2: "distances_pred_to_gt r
         = map (getitem (fst (signed_distance_map e gb (boundary_shell gb conn) sp)))
             (filter (getitem kp) (indices (shape pb)))"
    and k1: "\<forall>x. in_bounds (shape gb) x \<and> getitem kg x \<longrightarrow> getitem (boundary_shell gb conn) x"
    and k2: "\<forall>x. in_bounds (shape pb) x \<and> getitem kp x \<longrightarrow> getitem (boundary_shell pb conn) x"
    by blast
  have k1': "getitem (boundary_shell gb conn) x" if "in_bounds (shape gb) x" "getitem kg x" for x
    using k1 that by blast
  have k2': "getitem (boundary_shell pb conn) x" if "in_bounds (shape pb) x" "getitem kp x" for x
    using k2 that by blast
  have m1: "mset (distances_gt_to_pred r) \<subseteq># mset (distances_gt_to_pred r0)"
    unfolding a1 b1
    by (rule masked_list_submultiset[OF wga wgb wpa wpb spa spb rg rp k1'])
  have m2: "mset (distances_pred_to_gt r) \<subseteq># mset (distances_pred_to_gt r0)"
    unfolding a2 b2
    by (rule masked_list_submultiset[OF wpa wpb wga wgb spa[symmetric] spb[symmetric] rp rg k2'])
  show ?thesis using r0 m1 m2 by blast
qed

text \<open>
  Three voxels: target and prediction are the two ends, the exclusion zone is the first
  two voxels, the exclusion distance is 0.  The voxel (0, 0, 2) lies outside the zone and
  is removed.
\<close>

lemma ex3_ends_shell:
  "boundary_shell \<lparr>shape = (1, 1, 3), data = [True, False, True]\<rparr> 1
     = \<lparr>shape = (1, 1, 3), data = [True, False, True]\<rparr>"
  by code_simp

lemma ex3_wide_zone_shell:
  "boundary_shell \<lparr>shape = (1, 1, 3), data = [True, True, False]\<rparr> 1
     = \<lparr>shape = (1, 1, 3), data = [True, True, False]\<rparr>"
  by code_simp

lemma ex3_ends_edt:
  "distance_transform_edt undefined
       (invert \<lparr>shape = (1, 1, 3), data = [True, False, True]\<rparr>) (1, 1, 1)
     = \<lparr>shape = (1, 1, 3), data = [0, 1, 0]\<rparr>"
  by (simp add: distance_transform_edt_def invert_def map_array_def ex3_indices getitem_def
      flat_index_def tabulate_def physical_distance_def Let_def del: One_nat_def)

lemma ex3_wide_zone_edt:
  "distance_transform_edt undefined
       (invert \<lparr>shape = (1, 1, 3), data = [True, True, False]\<rparr>) (1, 1, 1)
     = \<lparr>shape = (1, 1, 3), data = [0, 0, 1]\<rparr>"
  by (simp add: distance_transform_edt_def invert_def map_array_def ex3_indices getitem_def
      flat_index_def tabulate_def physical_distance_def Let_def del: One_nat_def)

lemma ex3_ends_signed_distance_map:
  "signed_distance_map undefined \<lparr>shape = (1, 1, 3), data = [True, False, True]\<rparr>
       \<lparr>shape = (1, 1, 3), data = [True, False, True]\<rparr> (1, 1, 1)
     = (\<lparr>shape = (1, 1, 3), data = [Fin 0, Fin (- 1), Fin 0]\<rparr>,
        Some \<lparr>shape = (1, 1, 3), data = [1, - 1, 1]\<rparr>)"
  by (simp add: signed_distance_map_def np_any_def ex3_ends_edt sign_mask_def times_mask_def
      map_array_def zip_array_def Let_def del: One_nat_def)

lemma ex3_wide_zone_distance_map:
  "exclusion_distance_map undefined \<lparr>shape = (1, 1, 3), data = [True, True, False]\<rparr> (1, 1, 1) 1
     = \<lparr>shape = (1, 1, 3), data = [Fin 0, Fin 0, Fin (- 1)]\<rparr>"
  by (simp add: exclusion_distance_map_def ex3_wide_zone_shell ex3_wide_zone_edt sign_mask_def
      times_mask_def map_array_def zip_array_def Let_def del: One_nat_def)

lemma ex3_ends_with_exclusion:
  "compute_distances undefined \<lparr>shape = (1, 1, 3), data = [True, False, True]\<rparr>
       \<lparr>shape = (1, 1, 3), data = [True, False, True]\<rparr>
       (Some \<lparr>shape = (1, 1, 3), data = [True, True, False]\<rparr>) (1, 1, 1) 1 False 0
     = Inr \<lparr>distances_gt_to_pred = [Fin 0],
            distances_pred_to_gt = [Fin 0],
            borders_gt = \<lparr>shape = (1, 1, 3), data = [True, False, False]\<rparr>,
            borders_pred = \<lparr>shape = (1, 1, 3), data = [True, False, False]\<rparr>,
            distmap_gt = \<lparr>shape = (1, 1, 3), data = [Fin 0, Fin (- 1), Fin 0]\<rparr>,
            distmap_pred = \<lparr>shape = (1, 1, 3), data = [Fin 0, Fin (- 1), Fin 0]\<rparr>,
            distmask_pred = \<lparr>shape = (1, 1, 3), data = [1, - 1, 1]\<rparr>,
            border_exclusion = Some \<lparr>shape = (1, 1, 3), data = [True, True, False]\<rparr>,
            distmap_exclusion = Some \<lparr>shape = (1, 1, 3), data = [Fin 0, Fin 0, Fin (- 1)]\<rparr>\<rparr>"
  by (simp add: compute_distances_def crop_inputs_def bind_err_def ex3_ends_shell
      ex3_wide_zone_shell ex3_ends_signed_distance_map ex3_wide_zone_distance_map
      exclusion_masker_def clear_where_def select_where_def map_array_def zip_array_def Let_def
      del: One_nat_def)

lemma ex3_ends_without_exclusion:
  "compute_distances undefined \<lparr>shape = (1, 1, 3), data = [True, False, True]\<rparr>
       \<lparr>shape = (1, 1, 3), data = [True, False, True]\<rparr> None (1, 1, 1) 1 False 0
     = Inr \<lparr>distances_gt_to_pred = [Fin 0, Fin 0],
            distances_pred_to_gt = [Fin 0, Fin 0],
            borders_gt = \<lparr>shape = (1, 1, 3), data = [True, False, True]\<rparr>,
            borders_pred = \<lparr>shape = (1, 1, 3), data = [True, False, True]\<rparr>,
            distmap_gt = \<lparr>shape = (1, 1, 3), data = [Fin 0, Fin (- 1), Fin 0]\<rparr>,
            distmap_pred = \<lparr>shape = (1, 1, 3), data = [Fin 0, Fin (- 1), Fin 0]\<rparr>,
            distmask_pred = \<lparr>shape = (1, 1, 3), data = [1, - 1, 1]\<rparr>,
            border_exclusion = None,
            distmap_exclusion = None\<rparr>"
  by (simp add: compute_distances_def crop_inputs_def bind_err_def ex3_ends_shell
      ex3_ends_signed_distance_map exclusion_masker_def select_where_def Let_def
      del: One_nat_def)

theorem exclusion_monotonicity_witness:
  "valid_inputs \<lparr>shape = (1, 1, 3), data = [True, False, True]\<rparr>
       \<lparr>shape = (1, 1, 3), data = [True, False, True]\<rparr>
       (Some \<lparr>shape = (1, 1, 3), data = [True, True, False]\<rparr>)
   \<and> (\<exists>r r0.
         compute_distances undefined \<lparr>shape = (1, 1, 3), data = [True, False, True]\<rparr>
           \<lparr>shape = (1, 1, 3), data = [True, False, True]\<rparr>
           (Some \<lparr>shape = (1, 1, 3), data = [True, True, False]\<rparr>) (1, 1, 1) 1 False 0 = Inr r
       \<and> compute_distances undefined \<lparr>shape = (1, 1, 3), data = [True, False, True]\<rparr>
           \<lparr>shape = (1, 1, 3), data = [True, False, True]\<rparr> None (1, 1, 1) 1 False 0 = Inr r0
       \<and> distances_gt_to_pred r = [Fin 0]
       \<and> distances_gt_to_pred r0 = [Fin 0, Fin 0]
       \<and> mset (distances_gt_to_pred r) \<subseteq># mset (distances_gt_to_pred r0)
       \<and> mset (distances_pred_to_gt r) \<subseteq># mset (distances_pred_to_gt r0))"
proof -
  let ?g = "\<lparr>shape = (1, 1, 3), data = [True, False, True]\<rparr>"
  let ?z = "\<lparr>shape = (1, 1, 3), data = [True, True, False]\<rparr>"
  have h1: "valid_inputs ?g ?g (Some ?z)" by code_simp
  obtain r where h2: "compute_distances undefined ?g ?g (Some ?z) (1, 1, 1) 1 False 0 = Inr r"
    and d: "distances_gt_to_pred r = [Fin 0]"
    using ex3_ends_with_exclusion by simp
  from exclusion_monotonicity[OF h1 h2] obtain r0 where
    h3: "compute_distances undefined ?g ?g None (1, 1, 1) 1 False 0 = Inr r0"
    and m: "mset (distances_gt_to_pred r) \<subseteq># mset (distances_gt_to_pred r0)"
      "mset (distances_pred_to_gt r) \<subseteq># mset (distances_pred_to_gt r0)"
    by blast
  have d0: "distances_gt_to_pred r0 = [Fin 0, Fin 0]"
    using h3 unfolding ex3_ends_without_exclusion by auto
  show ?thesis using h1 h2 h3 d d0 m by blast
qed

section \<open>When a run returns, and the swap of target and prediction\<close>

text \<open>A region is empty exactly when its shell is.\<close>

lemma np_any_boundary_shell_iff:
  assumes w: "well_shaped v"
  shows "np_any (boundary_shell v conn) = np_any v"
proof
  assume "np_any v"
  with w show "np_any (boundary_shell v conn)" by (rule np_any_boundary_shell)
next
  assume "np_any (boundary_shell v conn)"
  then obtain x where x: "in_bounds (shape v) x" "getitem (boundary_shell v conn) x"
    using np_any_iff[OF well_shaped_boundary_shell[OF w], of conn]
    by (auto simp: shape_boundary_shell)
  then have "getitem v x" by (simp add: getitem_boundary_shell[OF w x(1)])
  then show "np_any v" using x(1) np_any_iff[OF w] by blast
qed

text \<open>Cropping succeeds as soon as one of the two regions has a voxel, and keeps both regions.\<close>

lemma crop_inputs_returns:
  assumes v: "valid_inputs mask_gt mask_pred exclusion_zone"
    and a: "np_any mask_gt \<or> np_any mask_pred"
  shows "\<exists>g p z. crop_inputs mask_gt mask_pred exclusion_zone crop = Inr (g, p, z)"
proof (cases crop)
  case False
  then show ?thesis by (simp add: crop_inputs_def)
next
  case True
  from v have w: "well_shaped mask_gt" "well_shaped mask_pred"
    and s: "shape mask_pred = shape mask_gt"
    by (simp_all add: valid_inputs_def)
  obtain n0 n1 n2 where sh: "shape mask_gt = (n0, n1, n2)" by (cases "shape mask_gt") auto
  have shp: "shape mask_pred = (n0, n1, n2)" using s sh by simp
  define third where "third = (case exclusion_zone of None \<Rightarrow> mask_gt | Some ez \<Rightarrow> ez)"
  have w3: "well_shaped third" and s3: "shape third = shape mask_gt"
    using v by (auto simp: third_def valid_inputs_def split: option.splits)
  have sh3: "shape third = (n0, n1, n2)" using s3 sh by simp
  from a obtain x where x: "in_bounds (shape mask_gt) x" "getitem mask_gt x \<or> getitem mask_pred x"
    using np_any_iff[OF w(1)] np_any_iff[OF w(2)] s by auto
  obtain i j k where xe: "x = (i, j, k)" by (cases x) auto
  have xi: "i < n0" "j < n1" "k < n2" using x(1) sh unfolding xe by (simp_all add: in_bounds_def)
  have t': "getitem mask_gt (i, j, k) \<or> getitem mask_pred (i, j, k) \<or> getitem third (i, j, k)"
    using x(2) xe by auto
  from compute_bounding_box_returns[OF w w3 sh s s3 xi t']
  obtain bmin bmax where bb: "compute_bounding_box mask_gt mask_pred third = Inr (bmin, bmax)"
    by blast
  obtain l0 l1 l2 h0 h1 h2 where be: "bmin = (l0, l1, l2)" "bmax = (h0, h1, h2)"
    by (cases bmin, cases bmax) auto
  note cov = compute_bounding_box_covers[OF w w3 sh s s3 bb[unfolded be]]
  have b0: "0 \<le> l0" "l0 \<le> h0" "h0 < int n0" using cov(1) by simp_all
  have b1: "0 \<le> l1" "l1 \<le> h1" "h1 < int n1" using cov(2) by simp_all
  have b2: "0 \<le> l2" "l2 \<le> h2" "h2 < int n2" using cov(3) by simp_all
  show ?thesis
  proof (cases exclusion_zone)
    case None
    then have "third = mask_gt" by (simp add: third_def)
    then show ?thesis
      using True None bb
      by (simp add: crop_inputs_def be bind_err_Inr_left crop_mask_inside[OF sh b0 b1 b2]
          crop_mask_inside[OF shp b0 b1 b2])
  next
    case (Some ez)
    then have "third = ez" by (simp add: third_def)
    then show ?thesis
      using True Some bb sh3
      by (simp add: crop_inputs_def be bind_err_Inr_left crop_mask_inside[OF sh b0 b1 b2]
          crop_mask_inside[OF shp b0 b1 b2] crop_mask_inside[OF _ b0 b1 b2])
  qed
qed

lemma crop_inputs_np_any:
  assumes v: "valid_inputs mask_gt mask_pred exclusion_zone"
    and c: "crop_inputs mask_gt mask_pred exclusion_zone crop = Inr (g, p, z)"
  shows "np_any g = np_any mask_gt" and "np_any p = np_any mask_pred"
proof -
  have v': "valid_inputs g p z" using crop_inputs_valid[OF v c] by simp
  from v v' have w: "well_shaped mask_gt" "well_shaped mask_pred" "well_shaped g" "well_shaped p"
    by (simp_all add: valid_inputs_def)
  from crop_inputs_region[OF v c] obtain off where
    r: "same_region g off mask_gt (0, 0, 0)" "same_region p off mask_pred (0, 0, 0)" by blast
  show "np_any g = np_any mask_gt" using w(3) w(1) r(1) by (rule same_region_np_any)
  show "np_any p = np_any mask_pred" using w(4) w(2) r(2) by (rule same_region_np_any)
qed

text \<open>A run returns exactly when the predicted region has a voxel.\<close>

lemma compute_distances_returns_iff:
  assumes v: "valid_inputs mask_gt mask_pred exclusion_zone"
  shows "(\<exists>r. compute_distances e mask_gt mask_pred exclusion_zone sp conn crop exd = Inr r)
     \<longleftrightarrow> np_any mask_pred"
proof
  assume "\<exists>r. compute_distances e mask_gt mask_pred exclusion_zone sp conn crop exd = Inr r"
  then obtain r where r: "compute_distances e mask_gt mask_pred exclusion_zone sp conn crop exd = Inr r"
    by blast
  from compute_distances_Inr_crop[OF r] obtain g p z where
    c: "crop_inputs mask_gt mask_pred exclusion_zone crop = Inr (g, p, z)" by blast
  have v': "valid_inputs g p z" using crop_inputs_valid[OF v c] by simp
  then have wp: "well_shaped p" by (simp add: valid_inputs_def)
  have "np_any (boundary_shell p conn)" using c v' r by (rule compute_distances_lists(1))
  then have "np_any p" unfolding np_any_boundary_shell_iff[OF wp] .
  then show "np_any mask_pred" unfolding crop_inputs_np_any(2)[OF v c] .
next
  assume a: "np_any mask_pred"
  then have "np_any mask_gt \<or> np_any mask_pred" by simp
  from crop_inputs_returns[OF v this, of crop] obtain g p z where
    c: "crop_inputs mask_gt mask_pred exclusion_zone crop = Inr (g, p, z)" by blast
  have v': "valid_inputs g p z" using crop_inputs_valid[OF v c] by simp
  then have wp: "well_shaped p" by (simp add: valid_inputs_def)
  have "np_any p" using a unfolding crop_inputs_np_any(2)[OF v c] .
  then have "np_any (boundary_shell p conn)" unfolding np_any_boundary_shell_iff[OF wp] .
  with c v' show "\<exists>r. compute_distances e mask_gt mask_pred exclusion_zone sp conn crop exd = Inr r"
    by (rule compute_distances_returns)
qed

lemma compute_distances_empty_prediction:
  assumes v: "valid_inputs mask_gt mask_pred exclusion_zone"
    and a: "np_any mask_gt" and n: "\<not> np_any mask_pred"
  shows "compute_distances e mask_gt mask_pred exclusion_zone sp conn crop exd
           = Inl UnboundLocalError"
proof -
  from a have "np_any mask_gt \<or> np_any mask_pred" by simp
  from crop_inputs_returns[OF v this, of crop] obtain g p z where
    c: "crop_inputs mask_gt mask_pred exclusion_zone crop = Inr (g, p, z)" by blast
  have v': "valid_inputs g p z" using crop_inputs_valid[OF v c] by simp
  then have wp: "well_shaped p" by (simp add: valid_inputs_def)
  have "\<not> np_any p" using n unfolding crop_inputs_np_any(2)[OF v c] .
  then have "\<not> np_any (boundary_shell p conn)" unfolding np_any_boundary_shell_iff[OF wp] .
  with compute_distances_result[OF c v', of e conn sp exd] show ?thesis by auto
qed

text \<open>
  Claim C4.  Swapping the target and the predicted volume, with everything else fixed,
  swaps the two distance lists whenever both calls return: the list returned as
  \<open>distances_gt_to_pred\<close> after the swap is the list returned as \<open>distances_pred_to_gt\<close>
  before it, element for element, and the other way round.  It does not do so on every
  input: a call returns exactly when the predicted volume has a voxel, so with an empty
  target and a prediction that is not empty the call returns its two lists, and the
  swapped call ends with \<open>UnboundLocalError\<close> and returns none.
\<close>

theorem swap_symmetry:
  assumes v: "valid_inputs mask_gt mask_pred exclusion_zone"
  shows "(\<forall>r r'. compute_distances e mask_gt mask_pred exclusion_zone sp conn crop exd = Inr r
            \<and> compute_distances e mask_pred mask_gt exclusion_zone sp conn crop exd = Inr r'
          \<longrightarrow> distances_gt_to_pred r' = distances_pred_to_gt r
            \<and> distances_pred_to_gt r' = distances_gt_to_pred r)
       \<and> ((\<exists>r. compute_distances e mask_gt mask_pred exclusion_zone sp conn crop exd = Inr r)
            \<longleftrightarrow> np_any mask_pred)
       \<and> (np_any mask_pred \<and> \<not> np_any mask_gt \<longrightarrow>
            compute_distances e mask_pred mask_gt exclusion_zone sp conn crop exd
              = Inl UnboundLocalError)"
proof (intro conjI allI impI)
  fix r r'
  assume rr: "compute_distances e mask_gt mask_pred exclusion_zone sp conn crop exd = Inr r
            \<and> compute_distances e mask_pred mask_gt exclusion_zone sp conn crop exd = Inr r'"
  then have r1: "compute_distances e mask_gt mask_pred exclusion_zone sp conn crop exd = Inr r"
    and r2: "compute_distances e mask_pred mask_gt exclusion_zone sp conn crop exd = Inr r'"
    by simp_all
  from compute_distances_Inr_crop[OF r1] obtain g p z where
    c: "crop_inputs mask_gt mask_pred exclusion_zone crop = Inr (g, p, z)" by blast
  have c': "crop_inputs mask_pred mask_gt exclusion_zone crop = Inr (p, g, z)"
    using c by (rule crop_inputs_swap)
  have v1: "valid_inputs g p z" using crop_inputs_valid[OF v c] by simp
  have v2: "valid_inputs p g z" using v1 by (rule valid_inputs_swap)
  from compute_distances_result[OF c v1, of e conn sp exd] r1
  obtain bg bp bx dx where
    m: "exclusion_masker e z (boundary_shell g conn) (boundary_shell p conn) sp conn exd
          = Inr (bg, bp, bx, dx)"
    and s1: "select_where (fst (signed_distance_map e p (boundary_shell p conn) sp)) bg
          = Inr (distances_gt_to_pred r)"
    and s2: "select_where (fst (signed_distance_map e g (boundary_shell g conn) sp)) bp
          = Inr (distances_pred_to_gt r)"
    by (auto split: if_splits)
  have m': "exclusion_masker e z (boundary_shell p conn) (boundary_shell g conn) sp conn exd
          = Inr (bp, bg, bx, dx)"
    using m by (rule exclusion_masker_swap)
  from compute_distances_result[OF c' v2, of e conn sp exd] r2
  have "select_where (fst (signed_distance_map e g (boundary_shell g conn) sp)) bp
          = Inr (distances_gt_to_pred r')"
    and "select_where (fst (signed_distance_map e p (boundary_shell p conn) sp)) bg
          = Inr (distances_pred_to_gt r')"
    unfolding m' by (auto split: if_splits)
  then show "distances_gt_to_pred r' = distances_pred_to_gt r"
    and "distances_pred_to_gt r' = distances_gt_to_pred r"
    using s1 s2 by simp_all
next
  show "(\<exists>r. compute_distances e mask_gt mask_pred exclusion_zone sp conn crop exd = Inr r)
      \<longleftrightarrow> np_any mask_pred"
    using v by (rule compute_distances_returns_iff)
next
  assume a: "np_any mask_pred \<and> \<not> np_any mask_gt"
  have "valid_inputs mask_pred mask_gt exclusion_zone" using v by (rule valid_inputs_swap)
  then show "compute_distances e mask_pred mask_gt exclusion_zone sp conn crop exd
      = Inl UnboundLocalError"
    using a by (intro compute_distances_empty_prediction) simp_all
qed

text \<open>The two-voxel volume with an empty target.\<close>

lemma ex2_empty_signed_distance_map:
  "signed_distance_map undefined \<lparr>shape = (1, 1, 2), data = [False, False]\<rparr>
       \<lparr>shape = (1, 1, 2), data = [False, False]\<rparr> (1, 1, 1)
     = (\<lparr>shape = (1, 1, 2), data = [PInf, PInf]\<rparr>, None)"
  by (simp add: signed_distance_map_def np_any_def full_def tabulate_def ex2_indices
      del: One_nat_def)

lemma ex2_empty_part:
  "compute_distances undefined \<lparr>shape = (1, 1, 2), data = [False, False]\<rparr>
       \<lparr>shape = (1, 1, 2), data = [True, False]\<rparr> None (1, 1, 1) 1 False 5
     = Inr \<lparr>distances_gt_to_pred = [],
            distances_pred_to_gt = [PInf],
            borders_gt = \<lparr>shape = (1, 1, 2), data = [False, False]\<rparr>,
            borders_pred = \<lparr>shape = (1, 1, 2), data = [True, False]\<rparr>,
            distmap_gt = \<lparr>shape = (1, 1, 2), data = [PInf, PInf]\<rparr>,
            distmap_pred = \<lparr>shape = (1, 1, 2), data = [Fin 0, Fin (- 1)]\<rparr>,
            distmask_pred = \<lparr>shape = (1, 1, 2), data = [1, - 1]\<rparr>,
            border_exclusion = None,
            distmap_exclusion = None\<rparr>"
  by (simp add: compute_distances_def crop_inputs_def bind_err_def ex2_shell ex2_empty_shell
      ex2_signed_distance_map ex2_empty_signed_distance_map exclusion_masker_def select_where_def
      Let_def del: One_nat_def)

theorem swap_symmetry_witness:
  "valid_inputs \<lparr>shape = (1, 1, 2), data = [True, False]\<rparr>
       \<lparr>shape = (1, 1, 2), data = [True, True]\<rparr> None
   \<and> np_any \<lparr>shape = (1, 1, 2), data = [True, True]\<rparr>
   \<and> (\<exists>r r'.
         compute_distances undefined \<lparr>shape = (1, 1, 2), data = [True, False]\<rparr>
           \<lparr>shape = (1, 1, 2), data = [True, True]\<rparr> None (1, 1, 1) 1 False 5 = Inr r
       \<and> compute_distances undefined \<lparr>shape = (1, 1, 2), data = [True, True]\<rparr>
           \<lparr>shape = (1, 1, 2), data = [True, False]\<rparr> None (1, 1, 1) 1 False 5 = Inr r'
       \<and> distances_gt_to_pred r = [Fin 0]
       \<and> distances_pred_to_gt r = [Fin 0, Fin (- 1)]
       \<and> distances_gt_to_pred r' = distances_pred_to_gt r
       \<and> distances_pred_to_gt r' = distances_gt_to_pred r)
   \<and> valid_inputs \<lparr>shape = (1, 1, 2), data = [False, False]\<rparr>
       \<lparr>shape = (1, 1, 2), data = [True, False]\<rparr> None
   \<and> np_any \<lparr>shape = (1, 1, 2), data = [True, False]\<rparr>
   \<and> \<not> np_any \<lparr>shape = (1, 1, 2), data = [False, False]\<rparr>
   \<and> (\<exists>r. compute_distances undefined \<lparr>shape = (1, 1, 2), data = [False, False]\<rparr>
           \<lparr>shape = (1, 1, 2), data = [True, False]\<rparr> None (1, 1, 1) 1 False 5 = Inr r
         \<and> distances_gt_to_pred r = []
         \<and> distances_pred_to_gt r = [PInf])
   \<and> compute_distances undefined \<lparr>shape = (1, 1, 2), data = [True, False]\<rparr>
       \<lparr>shape = (1, 1, 2), data = [False, False]\<rparr> None (1, 1, 1) 1 False 5
       = Inl UnboundLocalError"
proof -
  let ?a = "\<lparr>shape = (1, 1, 2), data = [True, False]\<rparr>"
  let ?b = "\<lparr>shape = (1, 1, 2), data = [True, True]\<rparr>"
  let ?e = "\<lparr>shape = (1, 1, 2), data = [False, False]\<rparr>"
  have h1: "valid_inputs ?a ?b None" by code_simp
  have nb: "np_any ?b" by code_simp
  obtain r where h2: "compute_distances undefined ?a ?b None (1, 1, 1) 1 False 5 = Inr r"
    and d1: "distances_gt_to_pred r = [Fin 0]" and d2: "distances_pred_to_gt r = [Fin 0, Fin (- 1)]"
    using ex2_part_full by simp
  obtain r' where h3: "compute_distances undefined ?b ?a None (1, 1, 1) 1 False 5 = Inr r'"
    using ex2_full_part by simp
  from swap_symmetry[OF h1, of undefined "(1, 1, 1)" 1 False 5] h2 h3
  have s: "distances_gt_to_pred r' = distances_pred_to_gt r
         \<and> distances_pred_to_gt r' = distances_gt_to_pred r"
    by blast
  have k1: "valid_inputs ?e ?a None" by code_simp
  have na: "np_any ?a" by code_simp
  have ne: "\<not> np_any ?e" by code_simp
  have first: "\<exists>r. compute_distances undefined ?e ?a None (1, 1, 1) 1 False 5 = Inr r
         \<and> distances_gt_to_pred r = [] \<and> distances_pred_to_gt r = [PInf]"
    using ex2_empty_part by simp
  from swap_symmetry[OF k1, of undefined "(1, 1, 1)" 1 False 5] na ne
  have second: "compute_distances undefined ?a ?e None (1, 1, 1) 1 False 5 = Inl UnboundLocalError"
    by blast
  show ?thesis using h1 nb h2 h3 d1 d2 s k1 na ne first second by blast
qed

end
